(* ===== verification/Prelude.thy ===== *)
theory Prelude
  imports Main "HOL-Library.Char_ord" "HOL-Library.List_Lexorder"
begin

text \<open>
  Shared ground of the development: Rust's \<open>str\<close> operations as functions on HOL strings.

  A Rust \<open>String\<close> is modelled by its UTF-8 bytes, a \<^typ>\<open>string\<close> (a list of 8-bit
  characters), so that \<open>length\<close> is Rust's \<open>len()\<close> and slicing is by byte. Code that walks
  \<open>chars()\<close> only ever compares with ASCII characters, which no byte of a multi-byte character
  equals, so walking the bytes gives the same result; the one exception, Unicode white space, is
  spelt out byte by byte in \<open>ws_len\<close>.

  The theory also holds the two collections the component proofs use: \<open>str_simps\<close> for the
  string library and \<open>io_simps\<close> for the effect combinators of theory \<open>Effects\<close>.
\<close>

named_theorems str_simps
named_theorems io_simps

section \<open>Characters\<close>

abbreviation NUL :: char where "NUL \<equiv> CHR 0x00"
abbreviation TAB :: char where "TAB \<equiv> CHR 0x09"
abbreviation NL :: char where "NL \<equiv> CHR 0x0A"
abbreviation CR :: char where "CR \<equiv> CHR 0x0D"
abbreviation DQ :: char where "DQ \<equiv> CHR 0x22"
abbreviation SQ :: char where "SQ \<equiv> CHR 0x27"
abbreviation BSL :: char where "BSL \<equiv> CHR 0x5C"
abbreviation BTICK :: char where "BTICK \<equiv> CHR 0x60"

definition is_digit :: "char \<Rightarrow> bool" where
  "is_digit c \<longleftrightarrow> CHR ''0'' \<le> c \<and> c \<le> CHR ''9''"

definition is_upper :: "char \<Rightarrow> bool" where
  "is_upper c \<longleftrightarrow> CHR ''A'' \<le> c \<and> c \<le> CHR ''Z''"

definition is_lower :: "char \<Rightarrow> bool" where
  "is_lower c \<longleftrightarrow> CHR ''a'' \<le> c \<and> c \<le> CHR ''z''"

definition is_alpha :: "char \<Rightarrow> bool" where
  "is_alpha c \<longleftrightarrow> is_upper c \<or> is_lower c"

definition is_alnum :: "char \<Rightarrow> bool" where
  "is_alnum c \<longleftrightarrow> is_alpha c \<or> is_digit c"

lemmas char_class_defs = is_digit_def is_upper_def is_lower_def is_alpha_def is_alnum_def

text \<open>\<open>to_ascii_lowercase\<close> and, on the ASCII output of its one caller, \<open>to_lowercase\<close>.\<close>

definition ascii_lower :: "char \<Rightarrow> char" where
  "ascii_lower c = (if is_upper c then char_of (of_char c + 32 :: nat) else c)"

definition lower_str :: "string \<Rightarrow> string" where
  "lower_str s = map ascii_lower s"

section \<open>Prefixes, suffixes, searching\<close>

fun strip_prefix :: "string \<Rightarrow> string \<Rightarrow> string option" where
  "strip_prefix [] s = Some s"
| "strip_prefix (p # ps) [] = None"
| "strip_prefix (p # ps) (c # s) = (if p = c then strip_prefix ps s else None)"

definition starts_with :: "string \<Rightarrow> string \<Rightarrow> bool" where
  "starts_with p s \<longleftrightarrow> strip_prefix p s \<noteq> None"

definition strip_suffix :: "string \<Rightarrow> string \<Rightarrow> string option" where
  "strip_suffix p s = map_option rev (strip_prefix (rev p) (rev s))"

definition ends_with :: "string \<Rightarrow> string \<Rightarrow> bool" where
  "ends_with p s \<longleftrightarrow> strip_suffix p s \<noteq> None"

lemma strip_prefix_Some_iff [str_simps]: "strip_prefix p s = Some r \<longleftrightarrow> s = p @ r"
  by (induction p s rule: strip_prefix.induct) auto

lemma strip_prefix_append [simp]: "strip_prefix p (p @ r) = Some r"
  by (simp add: str_simps)

lemma starts_with_iff [str_simps]: "starts_with p s \<longleftrightarrow> (\<exists>r. s = p @ r)"
  by (auto simp: starts_with_def str_simps)

lemma strip_suffix_Some_iff [str_simps]: "strip_suffix p s = Some r \<longleftrightarrow> s = r @ p"
  by (auto simp: strip_suffix_def str_simps rev_swap)

lemma ends_with_iff [str_simps]: "ends_with p s \<longleftrightarrow> (\<exists>r. s = r @ p)"
  by (auto simp: ends_with_def str_simps)

lemma strip_suffix_append [simp]: "strip_suffix p (r @ p) = Some r"
  by (simp add: str_simps)

text \<open>\<open>str::find\<close> for a string pattern: what precedes the first occurrence and what follows it.\<close>

fun find_str :: "string \<Rightarrow> string \<Rightarrow> (string \<times> string) option" where
  "find_str p [] = (if p = [] then Some ([], []) else None)"
| "find_str p (c # s) =
     (case strip_prefix p (c # s) of
        Some r \<Rightarrow> Some ([], r)
      | None \<Rightarrow> map_option (\<lambda>(a, b). (c # a, b)) (find_str p s))"

definition contains_str :: "string \<Rightarrow> string \<Rightarrow> bool" where
  "contains_str p s \<longleftrightarrow> find_str p s \<noteq> None"

lemma find_str_Some: "find_str p s = Some (a, b) \<Longrightarrow> s = a @ p @ b"
proof (induction s arbitrary: a)
  case Nil
  then show ?case by (simp split: if_splits)
next
  case (Cons c s)
  show ?case
  proof (cases "strip_prefix p (c # s)")
    case None
    with Cons.prems obtain a' where "find_str p s = Some (a', b)" "a = c # a'" by auto
    with Cons.IH show ?thesis by simp
  next
    case (Some r)
    with Cons.prems have "a = []" "b = r" by auto
    with Some show ?thesis by (simp add: str_simps)
  qed
qed

lemma find_str_None: "find_str p s = None \<longleftrightarrow> (\<nexists>a b. s = a @ p @ b)"
proof
  assume *: "find_str p s = None"
  have "s \<noteq> a @ p @ b" for a b
    using *
  proof (induction s arbitrary: a)
    case Nil
    then show ?case by (simp split: if_splits)
  next
    case (Cons c s)
    from Cons.prems have n: "strip_prefix p (c # s) = None" and f: "find_str p s = None"
      by (auto split: option.splits)
    show ?case
    proof (cases a)
      case Nil
      with n show ?thesis by (metis append_Nil option.distinct(1) strip_prefix_append)
    next
      case (Cons x a')
      with Cons.IH[OF f, of a'] show ?thesis by simp
    qed
  qed
  then show "\<nexists>a b. s = a @ p @ b" by blast
next
  assume *: "\<nexists>a b. s = a @ p @ b"
  show "find_str p s = None"
  proof (cases "find_str p s")
    case (Some q)
    obtain a b where "q = (a, b)" by (cases q)
    with Some find_str_Some[of p s a b] * show ?thesis by blast
  qed
qed

lemma contains_str_iff [str_simps]: "contains_str p s \<longleftrightarrow> (\<exists>a b. s = a @ p @ b)"
  using find_str_None[of p s] by (auto simp: contains_str_def)

text \<open>The occurrence found is the first: none starts strictly inside what precedes it.\<close>

lemma find_str_first:
  assumes "\<And>a b. s = a @ p @ b \<Longrightarrow> length m \<le> length a" and "s = m @ p @ r"
  shows "find_str p s = Some (m, r)"
  using assms
proof (induction m arbitrary: s)
  case Nil
  then have "strip_prefix p s = Some r" by simp
  then show ?case by (cases s) (use Nil in auto)
next
  case (Cons c m)
  from Cons.prems(2) have s: "s = c # m @ p @ r" by simp
  have n: "strip_prefix p s = None"
  proof (rule ccontr)
    assume "strip_prefix p s \<noteq> None"
    then obtain q where "s = [] @ p @ q" by (auto simp: str_simps)
    from Cons.prems(1)[OF this] show False by simp
  qed
  have "find_str p (m @ p @ r) = Some (m, r)"
  proof (rule Cons.IH)
    fix a b assume "m @ p @ r = a @ p @ b"
    with s have "s = (c # a) @ p @ b" by simp
    from Cons.prems(1)[OF this] show "length m \<le> length a" by simp
  qed simp
  with n s show ?case by simp
qed

text \<open>\<open>str::replace\<close>: all non-overlapping occurrences, from the left. The source never
  replaces the empty pattern.\<close>

function replace_all :: "string \<Rightarrow> string \<Rightarrow> string \<Rightarrow> string" where
  "replace_all p r [] = []"
| "replace_all p r (c # s) =
     (if p \<noteq> [] \<and> starts_with p (c # s)
      then r @ replace_all p r (drop (length p) (c # s))
      else c # replace_all p r s)"
  by pat_completeness auto
termination
  by (relation "measure (\<lambda>(p, r, s). length s)") auto

lemma replace_all_id: "\<not> contains_str p s \<Longrightarrow> replace_all p r s = s"
proof (induction p r s rule: replace_all.induct)
  case (2 p r c s)
  have "\<not> starts_with p (c # s)"
    using "2.prems" by (auto simp: str_simps) (metis append_Nil)
  moreover have "\<not> contains_str p s"
    using "2.prems" by (auto simp: str_simps) (metis append_Cons)
  ultimately show ?case using "2.IH"(2) by simp
qed simp

section \<open>Splitting and joining\<close>

text \<open>\<open>str::split(char)\<close>, \<open>str::split_once(char)\<close>, \<open>[String]::join\<close>.\<close>

fun split_on :: "char \<Rightarrow> string \<Rightarrow> string list" where
  "split_on d [] = [[]]"
| "split_on d (c # s) =
     (if c = d then [] # split_on d s
      else (case split_on d s of [] \<Rightarrow> [[c]] | w # ws \<Rightarrow> (c # w) # ws))"

fun split_once :: "char \<Rightarrow> string \<Rightarrow> (string \<times> string) option" where
  "split_once d [] = None"
| "split_once d (c # s) =
     (if c = d then Some ([], s)
      else map_option (\<lambda>(a, b). (c # a, b)) (split_once d s))"

fun join_with :: "string \<Rightarrow> string list \<Rightarrow> string" where
  "join_with sep [] = []"
| "join_with sep [w] = w"
| "join_with sep (w # v # ws) = w @ sep @ join_with sep (v # ws)"

lemma split_on_not_Nil [simp]: "split_on d s \<noteq> []"
  by (cases s) (auto split: list.splits)

lemma split_on_absent: "d \<notin> set s \<Longrightarrow> split_on d s = [s]"
  by (induction s) auto

lemma split_on_append [str_simps]: "d \<notin> set w \<Longrightarrow> split_on d (w @ d # s) = w # split_on d s"
  by (induction w) auto

lemma split_on_join_with:
  "ws \<noteq> [] \<Longrightarrow> \<forall>w\<in>set ws. d \<notin> set w \<Longrightarrow> split_on d (join_with [d] ws) = ws"
  by (induction "[d]" ws rule: join_with.induct) (auto simp: split_on_absent split_on_append)

lemma join_with_split_on: "join_with [d] (split_on d s) = s"
proof (induction s)
  case (Cons c s)
  obtain w ws where ws: "split_on d s = w # ws" by (cases "split_on d s") auto
  with Cons show ?case by (cases ws) auto
qed simp

lemma split_on_pieces: "w \<in> set (split_on d s) \<Longrightarrow> d \<notin> set w"
proof (induction s arbitrary: w)
  case (Cons c s)
  then show ?case by (cases "split_on d s") (auto split: if_splits)
qed simp

lemma split_once_Some_iff [str_simps]:
  "split_once d s = Some (a, b) \<longleftrightarrow> s = a @ d # b \<and> d \<notin> set a"
proof (induction s arbitrary: a)
  case (Cons c s)
  show ?case
  proof (cases "c = d")
    case True
    then show ?thesis by (cases a) auto
  next
    case False
    have "split_once d (c # s) = Some (a, b) \<longleftrightarrow>
          (\<exists>a'. a = c # a' \<and> split_once d s = Some (a', b))"
      using False by auto
    then show ?thesis using False Cons.IH by (cases a) auto
  qed
qed simp

lemma split_once_None_iff [str_simps]: "split_once d s = None \<longleftrightarrow> d \<notin> set s"
  by (induction s) auto

lemma split_once_append [simp]: "d \<notin> set a \<Longrightarrow> split_once d (a @ d # b) = Some (a, b)"
  by (simp add: str_simps)

section \<open>White space\<close>

text \<open>
  \<open>char::is_whitespace\<close> is the Unicode property White\_Space: U+0009 to U+000D, U+0020, U+0085,
  U+00A0, U+1680, U+2000 to U+200A, U+2028, U+2029, U+202F, U+205F and U+3000. \<open>ws_len\<close> is
  the number of bytes of the white-space character the string starts with, 0 if it starts with none;
  \<open>ws_len_rev\<close> is the same for the end of a string given in reverse.
\<close>

definition is_ascii_ws :: "char \<Rightarrow> bool" where
  "is_ascii_ws c \<longleftrightarrow> CHR 0x09 \<le> c \<and> c \<le> CHR 0x0D \<or> c = CHR '' ''"

definition ws_tail :: "char \<Rightarrow> char \<Rightarrow> char \<Rightarrow> bool" where
  "ws_tail a b c \<longleftrightarrow>
     a = CHR 0xE1 \<and> b = CHR 0x9A \<and> c = CHR 0x80
   \<or> a = CHR 0xE2 \<and> b = CHR 0x80 \<and>
       (CHR 0x80 \<le> c \<and> c \<le> CHR 0x8A \<or> c = CHR 0xA8 \<or> c = CHR 0xA9 \<or> c = CHR 0xAF)
   \<or> a = CHR 0xE2 \<and> b = CHR 0x81 \<and> c = CHR 0x9F
   \<or> a = CHR 0xE3 \<and> b = CHR 0x80 \<and> c = CHR 0x80"

fun ws_len :: "string \<Rightarrow> nat" where
  "ws_len (a # b # c # s) =
     (if is_ascii_ws a then 1
      else if a = CHR 0xC2 \<and> (b = CHR 0x85 \<or> b = CHR 0xA0) then 2
      else if ws_tail a b c then 3 else 0)"
| "ws_len [a, b] =
     (if is_ascii_ws a then 1
      else if a = CHR 0xC2 \<and> (b = CHR 0x85 \<or> b = CHR 0xA0) then 2 else 0)"
| "ws_len [a] = (if is_ascii_ws a then 1 else 0)"
| "ws_len [] = 0"

fun ws_len_rev :: "string \<Rightarrow> nat" where
  "ws_len_rev (c # b # a # s) =
     (if is_ascii_ws c then 1
      else if b = CHR 0xC2 \<and> (c = CHR 0x85 \<or> c = CHR 0xA0) then 2
      else if ws_tail a b c then 3 else 0)"
| "ws_len_rev [b, a] =
     (if is_ascii_ws b then 1
      else if a = CHR 0xC2 \<and> (b = CHR 0x85 \<or> b = CHR 0xA0) then 2 else 0)"
| "ws_len_rev [a] = (if is_ascii_ws a then 1 else 0)"
| "ws_len_rev [] = 0"

lemma ws_len_le: "ws_len s \<le> length s"
  by (induction s rule: ws_len.induct) auto

lemma ws_len_rev_le: "ws_len_rev s \<le> length s"
  by (induction s rule: ws_len_rev.induct) auto

lemma ws_len_pos: "0 < ws_len s \<Longrightarrow> s \<noteq> []"
  by auto

lemma ws_len_rev_pos: "0 < ws_len_rev s \<Longrightarrow> s \<noteq> []"
  by auto

function trim_start :: "string \<Rightarrow> string" where
  "trim_start s = (if ws_len s = 0 then s else trim_start (drop (ws_len s) s))"
  by pat_completeness auto
termination
  by (relation "measure length") (auto simp: ws_len_pos)

function trim_rev :: "string \<Rightarrow> string" where
  "trim_rev s = (if ws_len_rev s = 0 then s else trim_rev (drop (ws_len_rev s) s))"
  by pat_completeness auto
termination
  by (relation "measure length") (auto simp: ws_len_rev_pos)

declare trim_start.simps [simp del] trim_rev.simps [simp del]

definition trim_end :: "string \<Rightarrow> string" where
  "trim_end s = rev (trim_rev (rev s))"

definition trim :: "string \<Rightarrow> string" where
  "trim s = trim_end (trim_start s)"

lemma trim_start_id: "ws_len s = 0 \<Longrightarrow> trim_start s = s"
  by (subst trim_start.simps) simp

lemma trim_rev_id: "ws_len_rev s = 0 \<Longrightarrow> trim_rev s = s"
  by (subst trim_rev.simps) simp

lemma trim_id: "ws_len s = 0 \<Longrightarrow> ws_len_rev (rev s) = 0 \<Longrightarrow> trim s = s"
  by (simp add: trim_def trim_end_def trim_start_id trim_rev_id)

text \<open>Strings of visible ASCII characters have no white space to trim.\<close>

definition graphic :: "char \<Rightarrow> bool" where
  "graphic c \<longleftrightarrow> CHR ''!'' \<le> c \<and> c \<le> CHR ''~''"

lemma graphic_not_ws: "graphic c \<Longrightarrow> \<not> is_ascii_ws c"
  unfolding graphic_def is_ascii_ws_def
  using order.trans[of "CHR ''!''" c CR] by auto

lemma graphic_not_lead:
  "graphic c \<Longrightarrow> c \<noteq> CHR 0xC2 \<and> c \<noteq> CHR 0xE1 \<and> c \<noteq> CHR 0xE2 \<and> c \<noteq> CHR 0xE3"
  by (auto simp: graphic_def)

lemma graphic_not_trail: "graphic c \<Longrightarrow> \<not> ws_tail a b c \<and> c \<noteq> CHR 0x85 \<and> c \<noteq> CHR 0xA0"
  unfolding graphic_def ws_tail_def
  using order.trans[of "CHR 0x80" c "CHR ''~''"] by auto

lemma ws_len_graphic: "graphic c \<Longrightarrow> ws_len (c # s) = 0"
  using graphic_not_ws[of c] graphic_not_lead[of c]
  by (cases "c # s" rule: ws_len.cases) (simp_all add: ws_tail_def)

lemma ws_len_rev_graphic: "graphic c \<Longrightarrow> ws_len_rev (c # s) = 0"
  using graphic_not_ws[of c] graphic_not_trail[of c]
  by (cases "c # s" rule: ws_len_rev.cases) simp_all

lemma trim_graphic: "\<forall>c\<in>set s. graphic c \<Longrightarrow> trim s = s"
proof (rule trim_id)
  assume g: "\<forall>c\<in>set s. graphic c"
  then show "ws_len s = 0" by (cases s) (simp_all add: ws_len_graphic)
  show "ws_len_rev (rev s) = 0"
  proof (cases "rev s")
    case (Cons c r)
    then have "c \<in> set s" by (metis list.set_intros(1) set_rev)
    with g Cons show ?thesis by (simp add: ws_len_rev_graphic)
  qed simp
qed

text \<open>\<open>str::split_whitespace\<close>.\<close>

function split_ws_from :: "string \<Rightarrow> string \<Rightarrow> string list" where
  "split_ws_from acc s =
     (if s = [] then (if acc = [] then [] else [acc])
      else if ws_len s = 0 then split_ws_from (acc @ [hd s]) (tl s)
      else (if acc = [] then [] else [acc]) @ split_ws_from [] (drop (ws_len s) s))"
  by pat_completeness auto
termination
  by (relation "measure (\<lambda>(acc, s). length s)") auto

declare split_ws_from.simps [simp del]

definition split_whitespace :: "string \<Rightarrow> string list" where
  "split_whitespace s = split_ws_from [] s"

text \<open>\<open>str::lines\<close>: pieces end at a line feed, with one carriage return before it dropped; a last
  piece without line feed counts unless it is empty.\<close>

definition strip_cr :: "string \<Rightarrow> string" where
  "strip_cr l = (if l \<noteq> [] \<and> last l = CR then butlast l else l)"

definition lines :: "string \<Rightarrow> string list" where
  "lines s = (let ws = split_on NL s
              in map strip_cr (butlast ws) @ (if last ws = [] then [] else [last ws]))"

lemma strip_cr_id: "CR \<notin> set l \<Longrightarrow> strip_cr l = l"
  by (cases l rule: rev_cases) (auto simp: strip_cr_def)

lemma set_strip_cr: "set (strip_cr l) \<subseteq> set l"
  by (auto simp: strip_cr_def dest: in_set_butlastD)

lemma lines_piece: "l \<in> set (lines s) \<Longrightarrow> \<exists>w\<in>set (split_on NL s). l = w \<or> l = strip_cr w"
proof -
  assume l: "l \<in> set (lines s)"
  show ?thesis
  proof (cases "l \<in> strip_cr ` set (butlast (split_on NL s))")
    case True
    then show ?thesis using in_set_butlastD by (metis imageE)
  next
    case False
    with l have "l = last (split_on NL s)" by (simp add: lines_def Let_def split: if_splits)
    then show ?thesis using last_in_set[OF split_on_not_Nil] by metis
  qed
qed

lemma lines_no_newline: "l \<in> set (lines s) \<Longrightarrow> NL \<notin> set l"
  using lines_piece[of l s] split_on_pieces set_strip_cr by (metis subset_code(1))

lemma lines_Nil [simp]: "lines [] = []"
  by (simp add: lines_def)

lemma lines_Cons: "NL \<notin> set l \<Longrightarrow> lines (l @ NL # s) = strip_cr l # lines s"
  by (simp add: lines_def Let_def split_on_append)

text \<open>A text file written as one line per item reads back line by line.\<close>

definition unlines :: "string list \<Rightarrow> string" where
  "unlines ls = concat (map (\<lambda>l. l @ [NL]) ls)"

lemma lines_unlines_append:
  "\<forall>l\<in>set ls. NL \<notin> set l \<Longrightarrow> lines (unlines ls @ s) = map strip_cr ls @ lines s"
  by (induction ls) (auto simp: unlines_def lines_Cons)

lemma lines_unlines: "\<forall>l\<in>set ls. NL \<notin> set l \<Longrightarrow> lines (unlines ls) = map strip_cr ls"
  using lines_unlines_append[of ls "[]"] by simp

section \<open>Numbers\<close>

definition digit_char :: "nat \<Rightarrow> char" where
  "digit_char n = (if n < 10 then char_of (48 + n) else char_of (87 + n))"

definition upper_digit_char :: "nat \<Rightarrow> char" where
  "upper_digit_char n = (if n < 10 then char_of (48 + n) else char_of (55 + n))"

text \<open>\<open>{b:02x}\<close> and \<open>{b:02X}\<close> of a byte.\<close>

definition hex2 :: "char \<Rightarrow> string" where
  "hex2 c = [digit_char (of_char c div 16), digit_char (of_char c mod 16)]"

definition hex2_upper :: "char \<Rightarrow> string" where
  "hex2_upper c = [upper_digit_char (of_char c div 16), upper_digit_char (of_char c mod 16)]"

text \<open>\<open>{n}\<close> of an unsigned and of a signed integer.\<close>

fun show_nat :: "nat \<Rightarrow> string" where
  "show_nat n = (if n < 10 then [digit_char n] else show_nat (n div 10) @ [digit_char (n mod 10)])"

declare show_nat.simps [simp del]

definition show_int :: "int \<Rightarrow> string" where
  "show_int i = (if i < 0 then CHR ''-'' # show_nat (nat (- i)) else show_nat (nat i))"

text \<open>Value of a digit in a radix up to 16 (\<open>char::to_digit\<close>).\<close>

definition digit_value :: "char \<Rightarrow> nat option" where
  "digit_value c =
     (if is_digit c then Some (of_char c - 48)
      else if CHR ''a'' \<le> c \<and> c \<le> CHR ''f'' then Some (of_char c - 87)
      else if CHR ''A'' \<le> c \<and> c \<le> CHR ''F'' then Some (of_char c - 55)
      else None)"

fun digits_value :: "nat \<Rightarrow> nat \<Rightarrow> string \<Rightarrow> nat option" where
  "digits_value b acc [] = Some acc"
| "digits_value b acc (c # s) =
     (case digit_value c of
        None \<Rightarrow> None
      | Some d \<Rightarrow> if d < b then digits_value b (acc * b + d) s else None)"

text \<open>
  \<open>uN::from_str_radix\<close> and \<open>parse::<uN>()\<close>: an optional \<open>+\<close>, at least one digit, and a value
  below \<open>2 ^ N\<close> (the checked multiplications fail exactly when the value does not fit).
\<close>

definition parse_unsigned :: "nat \<Rightarrow> nat \<Rightarrow> string \<Rightarrow> nat option" where
  "parse_unsigned width b s =
     (let ds = (case s of c # r \<Rightarrow> if c = CHR ''+'' then r else s | [] \<Rightarrow> [])
      in if ds = [] then None
         else (case digits_value b 0 ds of
                 None \<Rightarrow> None
               | Some v \<Rightarrow> if v < 2 ^ width then Some v else None))"

definition parse_u32 :: "string \<Rightarrow> nat option" where
  "parse_u32 s = parse_unsigned 32 10 s"

definition parse_u64 :: "string \<Rightarrow> nat option" where
  "parse_u64 s = parse_unsigned 64 10 s"

definition parse_i64 :: "string \<Rightarrow> int option" where
  "parse_i64 s =
     (case s of
        [] \<Rightarrow> None
      | c # r \<Rightarrow>
         (if c = CHR ''-''
          then (if r = [] then None
                else (case digits_value 10 0 r of
                        None \<Rightarrow> None
                      | Some v \<Rightarrow> if v \<le> 2 ^ 63 then Some (- int v) else None))
          else map_option int (parse_unsigned 63 10 s)))"

section \<open>Debug formatting\<close>

text \<open>
  \<open>{:?}\<close> of a string: in double quotes, with quotes, backslashes and control characters escaped.
  Bytes of non-ASCII characters are kept, as Rust keeps printable characters.
\<close>

fun hex_nat :: "nat \<Rightarrow> string" where
  "hex_nat n = (if n < 16 then [digit_char n] else hex_nat (n div 16) @ [digit_char (n mod 16)])"

declare hex_nat.simps [simp del]

definition debug_char_with :: "char \<Rightarrow> char \<Rightarrow> string" where
  "debug_char_with q c =
     (if c = NUL then [BSL, CHR ''0'']
      else if c = TAB then [BSL, CHR ''t'']
      else if c = CR then [BSL, CHR ''r'']
      else if c = NL then [BSL, CHR ''n'']
      else if c = BSL \<or> c = q then [BSL, c]
      else if c < CHR '' '' \<or> c = CHR 0x7F then [BSL] @ ''u{'' @ hex_nat (of_char c) @ ''}''
      else [c])"

definition debug_str :: "string \<Rightarrow> string" where
  "debug_str s = [DQ] @ concat (map (debug_char_with DQ) s) @ [DQ]"

definition debug_char :: "char \<Rightarrow> string" where
  "debug_char c = [SQ] @ debug_char_with SQ c @ [SQ]"

end
