(* ===== verification/BMap.thy ===== *)
theory BMap
  imports Prelude
begin

text \<open>
  \<open>BTreeMap\<close> and \<open>BTreeSet\<close>: a list of entries, strictly sorted by key, as the iteration
  order of the source's maps is visible (in the files it writes and the arguments it builds). Keys
  are compared as Rust compares strings, bytewise and lexicographically. Two well-formed maps with
  the same lookups are equal, so functional properties can be stated on \<open>bm_get\<close>.
\<close>

section \<open>Maps\<close>

type_synonym ('k, 'v) bmap = "('k \<times> 'v) list"

type_synonym env = "(string, string) bmap"

definition bm_wf :: "('k::linorder, 'v) bmap \<Rightarrow> bool" where
  "bm_wf m \<longleftrightarrow> sorted_wrt (<) (map fst m)"

definition bm_get :: "('k, 'v) bmap \<Rightarrow> 'k \<Rightarrow> 'v option" where
  "bm_get m k = map_of m k"

fun bm_insert :: "'k::linorder \<Rightarrow> 'v \<Rightarrow> ('k, 'v) bmap \<Rightarrow> ('k, 'v) bmap" where
  "bm_insert k v [] = [(k, v)]"
| "bm_insert k v (p # m) =
     (if k < fst p then (k, v) # p # m
      else if fst p < k then p # bm_insert k v m
      else (k, v) # m)"

definition bm_remove :: "'k \<Rightarrow> ('k, 'v) bmap \<Rightarrow> ('k, 'v) bmap" where
  "bm_remove k m = filter (\<lambda>p. fst p \<noteq> k) m"

definition bm_keys :: "('k, 'v) bmap \<Rightarrow> 'k list" where
  "bm_keys m = map fst m"

definition bm_has :: "('k, 'v) bmap \<Rightarrow> 'k \<Rightarrow> bool" where
  "bm_has m k \<longleftrightarrow> k \<in> set (map fst m)"

text \<open>\<open>extend\<close> and \<open>collect\<close>: insertion in iteration order, so later entries win.\<close>

fun bm_extend :: "('k::linorder, 'v) bmap \<Rightarrow> ('k \<times> 'v) list \<Rightarrow> ('k, 'v) bmap" where
  "bm_extend m [] = m"
| "bm_extend m (p # ps) = bm_extend (bm_insert (fst p) (snd p) m) ps"

definition bm_of_list :: "('k::linorder \<times> 'v) list \<Rightarrow> ('k, 'v) bmap" where
  "bm_of_list ps = bm_extend [] ps"

lemma bm_wf_Nil [simp]: "bm_wf []"
  by (simp add: bm_wf_def)

lemma bm_wf_Cons: "bm_wf (p # m) \<longleftrightarrow> (\<forall>k\<in>set (map fst m). fst p < k) \<and> bm_wf m"
  by (auto simp: bm_wf_def)

lemma bm_wf_distinct: "bm_wf m \<Longrightarrow> distinct (map fst m)"
  by (induction m) (auto simp: bm_wf_Cons)

lemma bm_keys_insert: "set (map fst (bm_insert k v m)) = insert k (set (map fst m))"
  by (induction m) (auto simp: not_less_iff_gr_or_eq)

lemma bm_wf_insert [simp]: "bm_wf m \<Longrightarrow> bm_wf (bm_insert k v m)"
proof (induction m)
  case (Cons p m)
  then show ?case
    using bm_keys_insert[of k v m]
    by (auto simp: bm_wf_Cons not_less_iff_gr_or_eq simp del: set_map)
qed (simp add: bm_wf_Cons)

lemma bm_get_Nil [simp]: "bm_get [] k = None"
  by (simp add: bm_get_def)

lemma bm_get_None_iff: "bm_get m k = None \<longleftrightarrow> k \<notin> set (map fst m)"
  by (simp add: bm_get_def map_of_eq_None_iff)

lemma bm_has_iff: "bm_has m k \<longleftrightarrow> bm_get m k \<noteq> None"
  by (simp add: bm_has_def bm_get_None_iff)

lemma bm_get_insert [simp]:
  "bm_wf m \<Longrightarrow> bm_get (bm_insert k v m) k' = (if k' = k then Some v else bm_get m k')"
proof (induction m)
  case (Cons p m)
  then show ?case
    by (cases p) (auto simp: bm_get_def bm_wf_Cons not_less_iff_gr_or_eq map_of_eq_None_iff
          dest: map_of_SomeD)
qed (simp add: bm_get_def)

lemma bm_wf_remove [simp]: "bm_wf m \<Longrightarrow> bm_wf (bm_remove k m)"
  by (induction m) (auto simp: bm_remove_def bm_wf_Cons)

lemma bm_wf_filter [simp]: "bm_wf m \<Longrightarrow> bm_wf (filter P m)"
  by (induction m) (auto simp: bm_wf_Cons)

lemma bm_get_remove [simp]: "bm_get (bm_remove k m) k' = (if k' = k then None else bm_get m k')"
  by (induction m) (auto simp: bm_remove_def bm_get_def)

lemma bm_get_filter_key:
  "bm_get (filter (\<lambda>p. P (fst p)) m) k = (if P k then bm_get m k else None)"
  by (induction m) (auto simp: bm_get_def)

lemma bm_get_in: "bm_get m k = Some v \<Longrightarrow> (k, v) \<in> set m"
  by (simp add: bm_get_def map_of_SomeD)

lemma bm_get_in_iff: "bm_wf m \<Longrightarrow> bm_get m k = Some v \<longleftrightarrow> (k, v) \<in> set m"
  by (simp add: bm_get_def bm_wf_distinct)

lemma bm_wf_extend [simp]: "bm_wf m \<Longrightarrow> bm_wf (bm_extend m ps)"
  by (induction ps arbitrary: m) auto

lemma bm_get_extend:
  "bm_wf m \<Longrightarrow>
   bm_get (bm_extend m ps) k = (case map_of (rev ps) k of None \<Rightarrow> bm_get m k | Some v \<Rightarrow> Some v)"
proof (induction ps arbitrary: m)
  case (Cons p ps)
  then show ?case
    by (cases p) (auto simp: map_add_def split: option.splits)
qed simp

lemma bm_wf_of_list [simp]: "bm_wf (bm_of_list ps)"
  by (simp add: bm_of_list_def)

lemma bm_get_of_list: "bm_get (bm_of_list ps) k = map_of (rev ps) k"
  by (simp add: bm_of_list_def bm_get_extend split: option.splits)

lemma map_of_rev_distinct: "distinct (map fst ps) \<Longrightarrow> map_of (rev ps) = map_of ps"
  by (metis distinct_rev map_of_inject_set rev_map set_rev)

lemma bm_get_extend_wf:
  "bm_wf m \<Longrightarrow> bm_wf n \<Longrightarrow>
   bm_get (bm_extend m n) k = (case bm_get n k of None \<Rightarrow> bm_get m k | Some v \<Rightarrow> Some v)"
  by (simp add: bm_get_extend map_of_rev_distinct[OF bm_wf_distinct] bm_get_def[of n])

text \<open>Extensionality.\<close>

lemma bm_wf_keys_eq:
  "bm_wf m \<Longrightarrow> bm_wf n \<Longrightarrow> set (map fst m) = set (map fst n) \<Longrightarrow> map fst m = map fst n"
  unfolding bm_wf_def by (rule strict_sorted_equal)

lemma bm_from_keys: "bm_wf m \<Longrightarrow> map (\<lambda>k. (k, the (bm_get m k))) (map fst m) = m"
  by (auto simp: comp_def bm_get_in_iff intro!: map_idI)
     (metis bm_get_in_iff option.sel)

lemma bm_eqI:
  assumes "bm_wf m" "bm_wf n" "\<And>k. bm_get m k = bm_get n k"
  shows "m = n"
proof -
  have "set (map fst m) = set (map fst n)"
    using assms(3) by (metis bm_get_None_iff subsetI subset_antisym)
  with assms have ks: "map fst m = map fst n" by (intro bm_wf_keys_eq)
  have "m = map (\<lambda>k. (k, the (bm_get m k))) (map fst m)"
    using assms(1) by (simp add: bm_from_keys del: map_map)
  also have "\<dots> = map (\<lambda>k. (k, the (bm_get n k))) (map fst n)"
    using assms(3) ks by simp
  also have "\<dots> = n"
    using assms(2) by (simp add: bm_from_keys del: map_map)
  finally show ?thesis .
qed

lemma bm_of_list_id: "bm_wf m \<Longrightarrow> bm_of_list m = m"
  by (rule bm_eqI, simp, assumption)
     (simp add: bm_get_of_list map_of_rev_distinct[OF bm_wf_distinct] bm_get_def[of m])

section \<open>Sets\<close>

fun bs_insert :: "'a::linorder \<Rightarrow> 'a list \<Rightarrow> 'a list" where
  "bs_insert x [] = [x]"
| "bs_insert x (y # ys) =
     (if x < y then x # y # ys else if y < x then y # bs_insert x ys else y # ys)"

definition bs_wf :: "'a::linorder list \<Rightarrow> bool" where
  "bs_wf s \<longleftrightarrow> sorted_wrt (<) s"

fun bs_extend :: "'a::linorder list \<Rightarrow> 'a list \<Rightarrow> 'a list" where
  "bs_extend s [] = s"
| "bs_extend s (x # xs) = bs_extend (bs_insert x s) xs"

definition bs_of_list :: "'a::linorder list \<Rightarrow> 'a list" where
  "bs_of_list xs = bs_extend [] xs"

lemma bs_wf_Nil [simp]: "bs_wf []"
  by (simp add: bs_wf_def)

lemma set_bs_insert [simp]: "set (bs_insert x s) = insert x (set s)"
  by (induction s) (auto simp: not_less_iff_gr_or_eq)

lemma bs_wf_insert [simp]: "bs_wf s \<Longrightarrow> bs_wf (bs_insert x s)"
  by (induction s) (auto simp: bs_wf_def not_less_iff_gr_or_eq)

lemma set_bs_extend [simp]: "set (bs_extend s xs) = set s \<union> set xs"
  by (induction xs arbitrary: s) auto

lemma bs_wf_extend [simp]: "bs_wf s \<Longrightarrow> bs_wf (bs_extend s xs)"
  by (induction xs arbitrary: s) auto

lemma set_bs_of_list [simp]: "set (bs_of_list xs) = set xs"
  by (simp add: bs_of_list_def)

lemma bs_wf_of_list [simp]: "bs_wf (bs_of_list xs)"
  by (simp add: bs_of_list_def)

lemma bs_wf_filter [simp]: "bs_wf s \<Longrightarrow> bs_wf (filter P s)"
  by (simp add: bs_wf_def sorted_wrt_filter)

lemma bs_eqI: "bs_wf s \<Longrightarrow> bs_wf t \<Longrightarrow> set s = set t \<Longrightarrow> s = t"
  unfolding bs_wf_def by (rule strict_sorted_equal)

lemma bs_of_list_id: "bs_wf s \<Longrightarrow> bs_of_list s = s"
  by (rule bs_eqI) simp_all

lemma bs_wf_keys: "bm_wf m \<Longrightarrow> bs_wf (map fst m)"
  by (simp add: bs_wf_def bm_wf_def)

end
