(* ===== verification/Effects.thy ===== *)
theory Effects
  imports BMap
begin

text \<open>
  Errors as values, and effects as explicit state passing. \<open>error\<close> is the crate's
  \<open>Error\<close> enum (src/error.rs). A fallible pure function returns \<open>'a result\<close>; \<open>?\<close> is
  \<open>rbind\<close>. A fallible function that changes state \<open>'w\<close> has type \<open>('w, 'a) io\<close>: it
  returns its result together with the state it leaves behind, also when it fails, so partial
  effects before an early return are part of the model. \<open>io_hoare P m Q E\<close> is the triple
  "from \<open>P\<close>, \<open>m\<close> ends in \<open>Q\<close> with its value or in \<open>E\<close> with its error".
\<close>

section \<open>The error type\<close>

text \<open>\<open>io::Error\<close>: the kinds and numbers the source looks at, and everything else.\<close>

datatype io_error = IoNotFound | IoOs nat | IoOther string

text \<open>\<open>zbus::Error\<close>: only the name of a method error is looked at.\<close>

datatype zbus_error = MethodError string | ZbusOther string

datatype error =
    Io string io_error
  | EnvMissing string
  | Dbus zbus_error
  | InvalidArg string
  | Resolve string
  | NotImplemented string string
  | GenerationConflict string
  | PartialEnvUpdate string string string zbus_error

type_synonym 'a result = "error + 'a"

section \<open>Results\<close>

definition rbind :: "'e + 'a \<Rightarrow> ('a \<Rightarrow> 'e + 'b) \<Rightarrow> 'e + 'b" where
  "rbind r f = (case r of Inl e \<Rightarrow> Inl e | Inr x \<Rightarrow> f x)"

definition map_err :: "('e \<Rightarrow> 'f) \<Rightarrow> 'e + 'a \<Rightarrow> 'f + 'a" where
  "map_err f r = (case r of Inl e \<Rightarrow> Inl (f e) | Inr x \<Rightarrow> Inr x)"

definition ok_or :: "'a option \<Rightarrow> 'e \<Rightarrow> 'e + 'a" where
  "ok_or x e = (case x of None \<Rightarrow> Inl e | Some v \<Rightarrow> Inr v)"

definition is_ok :: "'e + 'a \<Rightarrow> bool" where
  "is_ok r = (case r of Inl _ \<Rightarrow> False | Inr _ \<Rightarrow> True)"

definition unwrap_or :: "'a option \<Rightarrow> 'a \<Rightarrow> 'a" where
  "unwrap_or x d = (case x of None \<Rightarrow> d | Some v \<Rightarrow> v)"

definition opt_or_else :: "'a option \<Rightarrow> 'a option \<Rightarrow> 'a option" where
  "opt_or_else x y = (case x of None \<Rightarrow> y | Some v \<Rightarrow> Some v)"

definition opt_filter :: "('a \<Rightarrow> bool) \<Rightarrow> 'a option \<Rightarrow> 'a option" where
  "opt_filter P x = (case x of None \<Rightarrow> None | Some v \<Rightarrow> if P v then Some v else None)"

lemma opt_ext: "(\<And>v. x = Some v \<longleftrightarrow> y = Some v) \<Longrightarrow> x = y"
  by (cases x; cases y) auto

lemma rbind_simps [simp]: "rbind (Inl e) f = Inl e" "rbind (Inr x) f = f x"
  by (simp_all add: rbind_def)

lemma map_err_simps [simp]: "map_err f (Inl e) = Inl (f e)" "map_err f (Inr x) = Inr x"
  by (simp_all add: map_err_def)

lemma ok_or_simps [simp]: "ok_or None e = Inl e" "ok_or (Some v) e = Inr v"
  by (simp_all add: ok_or_def)

lemma is_ok_simps [simp]: "is_ok (Inl e) = False" "is_ok (Inr x) = True"
  by (simp_all add: is_ok_def)

lemma unwrap_or_simps [simp]: "unwrap_or None d = d" "unwrap_or (Some v) d = v"
  by (simp_all add: unwrap_or_def)

lemma opt_or_else_simps [simp]: "opt_or_else None y = y" "opt_or_else (Some v) y = Some v"
  by (simp_all add: opt_or_else_def)

lemma opt_filter_simps [simp]:
  "opt_filter P None = None" "opt_filter P (Some v) = (if P v then Some v else None)"
  by (simp_all add: opt_filter_def)

lemma rbind_Inr_iff: "rbind r f = Inr y \<longleftrightarrow> (\<exists>x. r = Inr x \<and> f x = Inr y)"
  by (cases r) auto

lemma rbind_Inl_iff: "rbind r f = Inl e \<longleftrightarrow> r = Inl e \<or> (\<exists>x. r = Inr x \<and> f x = Inl e)"
  by (cases r) auto

lemma is_ok_iff: "is_ok r \<longleftrightarrow> (\<exists>x. r = Inr x)"
  by (cases r) auto

section \<open>Effects\<close>

type_synonym ('w, 'a) io = "'w \<Rightarrow> 'a result \<times> 'w"

definition io_return :: "'a \<Rightarrow> ('w, 'a) io" where
  "io_return x w = (Inr x, w)"

definition io_fail :: "error \<Rightarrow> ('w, 'a) io" where
  "io_fail e w = (Inl e, w)"

definition io_bind :: "('w, 'a) io \<Rightarrow> ('a \<Rightarrow> ('w, 'b) io) \<Rightarrow> ('w, 'b) io" where
  "io_bind m f w = (case m w of (Inl e, w') \<Rightarrow> (Inl e, w') | (Inr x, w') \<Rightarrow> f x w')"

definition io_lift :: "'a result \<Rightarrow> ('w, 'a) io" where
  "io_lift r w = (r, w)"

text \<open>\<open>let _ = m;\<close> and a \<open>match\<close> on the result of a call.\<close>

definition io_try :: "('w, 'a) io \<Rightarrow> ('w, 'a result) io" where
  "io_try m w = (case m w of (r, w') \<Rightarrow> (Inr r, w'))"

definition io_get :: "('w \<Rightarrow> 'a) \<Rightarrow> ('w, 'a) io" where
  "io_get f w = (Inr (f w), w)"

definition io_when :: "bool \<Rightarrow> ('w, unit) io \<Rightarrow> ('w, unit) io" where
  "io_when b m = (if b then m else io_return ())"

fun io_each :: "('a \<Rightarrow> ('w, unit) io) \<Rightarrow> 'a list \<Rightarrow> ('w, unit) io" where
  "io_each f [] = io_return ()"
| "io_each f (x # xs) = io_bind (f x) (\<lambda>_. io_each f xs)"

lemma io_prim_simps [simp, io_simps]:
  "io_return x w = (Inr x, w)"
  "io_fail e w = (Inl e, w)"
  "io_lift r w = (r, w)"
  "io_get f w = (Inr (f w), w)"
  by (simp_all add: io_return_def io_fail_def io_lift_def io_get_def)

lemma io_bind_return [simp]: "io_bind (io_return x) f = f x"
  by (rule ext) (simp add: io_bind_def)

lemma io_bind_fail [simp]: "io_bind (io_fail e) f = io_fail e"
  by (rule ext) (simp add: io_bind_def)

lemma io_bind_get [simp]: "io_bind (io_get g) f w = f (g w) w"
  by (simp add: io_bind_def)

lemma io_bind_Inr: "m w = (Inr x, w') \<Longrightarrow> io_bind m f w = f x w'"
  by (simp add: io_bind_def)

lemma io_bind_Inl: "m w = (Inl e, w') \<Longrightarrow> io_bind m f w = (Inl e, w')"
  by (simp add: io_bind_def)

lemma io_bind_Inr_iff:
  "io_bind m f w = (Inr y, w'') \<longleftrightarrow> (\<exists>x w'. m w = (Inr x, w') \<and> f x w' = (Inr y, w''))"
  by (auto simp: io_bind_def split: prod.splits sum.splits)

lemma io_bind_Inl_iff:
  "io_bind m f w = (Inl e, w'') \<longleftrightarrow>
     m w = (Inl e, w'') \<or> (\<exists>x w'. m w = (Inr x, w') \<and> f x w' = (Inl e, w''))"
  by (auto simp: io_bind_def split: prod.splits sum.splits)

lemma io_bind_assoc: "io_bind (io_bind m f) g = io_bind m (\<lambda>x. io_bind (f x) g)"
  by (rule ext) (simp add: io_bind_def split: prod.split sum.split)

lemma io_try_simp: "m w = (r, w') \<Longrightarrow> io_try m w = (Inr r, w')"
  by (simp add: io_try_def)

section \<open>Triples\<close>

definition io_hoare ::
  "('w \<Rightarrow> bool) \<Rightarrow> ('w, 'a) io \<Rightarrow> ('a \<Rightarrow> 'w \<Rightarrow> bool) \<Rightarrow> (error \<Rightarrow> 'w \<Rightarrow> bool) \<Rightarrow> bool" where
  "io_hoare P m Q E \<longleftrightarrow>
     (\<forall>w. P w \<longrightarrow> (case m w of (Inr x, w') \<Rightarrow> Q x w' | (Inl e, w') \<Rightarrow> E e w'))"

lemma io_hoareI:
  assumes ok: "\<And>w x w'. P w \<Longrightarrow> m w = (Inr x, w') \<Longrightarrow> Q x w'"
    and err: "\<And>w e w'. P w \<Longrightarrow> m w = (Inl e, w') \<Longrightarrow> E e w'"
  shows "io_hoare P m Q E"
  unfolding io_hoare_def
proof (intro allI impI)
  fix w assume P: "P w"
  obtain r w' where m: "m w = (r, w')" by (cases "m w")
  show "case m w of (Inr x, w') \<Rightarrow> Q x w' | (Inl e, w') \<Rightarrow> E e w'"
  proof (cases r)
    case (Inl e)
    with m err[OF P, of e w'] show ?thesis by simp
  next
    case (Inr x)
    with m ok[OF P, of x w'] show ?thesis by simp
  qed
qed

lemma io_hoare_Inr: "io_hoare P m Q E \<Longrightarrow> P w \<Longrightarrow> m w = (Inr x, w') \<Longrightarrow> Q x w'"
  unfolding io_hoare_def by (erule allE[of _ w]) simp

lemma io_hoare_Inl: "io_hoare P m Q E \<Longrightarrow> P w \<Longrightarrow> m w = (Inl e, w') \<Longrightarrow> E e w'"
  unfolding io_hoare_def by (erule allE[of _ w]) simp

lemma io_hoare_return: "(\<And>w. P w \<Longrightarrow> Q x w) \<Longrightarrow> io_hoare P (io_return x) Q E"
  by (simp add: io_hoare_def)

lemma io_hoare_fail: "(\<And>w. P w \<Longrightarrow> E e w) \<Longrightarrow> io_hoare P (io_fail e) Q E"
  by (simp add: io_hoare_def)

lemma io_hoare_bind:
  assumes "io_hoare P m R E" and "\<And>x. io_hoare (R x) (f x) Q E"
  shows "io_hoare P (io_bind m f) Q E"
  unfolding io_hoare_def
proof (intro allI impI)
  fix w assume P: "P w"
  obtain r w' where m: "m w = (r, w')" by (cases "m w")
  show "case io_bind m f w of (Inr x, w') \<Rightarrow> Q x w' | (Inl e, w') \<Rightarrow> E e w'"
  proof (cases r)
    case (Inl e)
    with m P assms(1) show ?thesis by (simp add: io_bind_def io_hoare_Inl)
  next
    case (Inr x)
    with m P assms(1) have "R x w'" by (blast intro: io_hoare_Inr)
    with assms(2)[of x] m Inr show ?thesis by (simp add: io_bind_def io_hoare_def)
  qed
qed

lemma io_hoare_weaken:
  assumes "io_hoare P m Q E" "\<And>w. P' w \<Longrightarrow> P w"
    "\<And>x w. Q x w \<Longrightarrow> Q' x w" "\<And>e w. E e w \<Longrightarrow> E' e w"
  shows "io_hoare P' m Q' E'"
proof (rule io_hoareI)
  show "Q' x w'" if "P' w" "m w = (Inr x, w')" for w x w'
    by (rule assms(3)[OF io_hoare_Inr[OF assms(1) assms(2)[OF that(1)] that(2)]])
  show "E' e w'" if "P' w" "m w = (Inl e, w')" for w e w'
    by (rule assms(4)[OF io_hoare_Inl[OF assms(1) assms(2)[OF that(1)] that(2)]])
qed

end
