(* ===== verification/Names.thy ===== *)
theory Names
  imports Effects
begin

text \<open>
  Variable-name policy: the classes of src/varnames.rs as \<open>BTreeSet\<close>s and the name filter
  of src/filter.rs. The lemmas say what the classes have in common (which is what makes the
  cleanup complete) and what a name that passes the filter looks like (which is what makes the
  files readable again).
\<close>

section \<open>src/varnames.rs\<close>

definition SESSION_SPECIFIC :: "string list" where
  "SESSION_SPECIFIC =
     [''XDG_SEAT'', ''XDG_SEAT_PATH'', ''XDG_SESSION_ID'', ''XDG_SESSION_PATH'', ''XDG_VTNR'']"

definition ALWAYS_EXPORT :: "string list" where
  "ALWAYS_EXPORT =
     [''PATH'', ''XDG_CURRENT_DESKTOP'', ''XDG_MENU_PREFIX'', ''XDG_SESSION_DESKTOP'',
      ''XDG_SESSION_CLASS'', ''XDG_SESSION_TYPE'']"

definition NEVER_EXPORT_BASE :: "string list" where
  "NEVER_EXPORT_BASE =
     [''PWD'', ''LS_COLORS'', ''INVOCATION_ID'', ''SHLVL'', ''SHELL'', ''TERM'', ''COLORTERM'',
      ''TERM_SESSION_TYPE'', ''NOTIFY_SOCKET'']"

definition ALWAYS_UNSET_BASE :: "string list" where
  "ALWAYS_UNSET_BASE = [''DISPLAY'', ''WAYLAND_DISPLAY'']"

definition ALWAYS_CLEANUP_BASE :: "string list" where
  "ALWAYS_CLEANUP_BASE =
     [''DISPLAY'', ''LANG'', ''PATH'', ''WAYLAND_DISPLAY'', ''XCURSOR_SIZE'', ''XCURSOR_THEME'',
      ''XDG_CURRENT_DESKTOP'', ''XDG_MENU_PREFIX'', ''XDG_SESSION_DESKTOP'',
      ''XDG_SESSION_CLASS'', ''XDG_SESSION_TYPE'', ''NOTIFY_SOCKET'']"

definition NEVER_CLEANUP :: "string list" where
  "NEVER_CLEANUP = [''SSH_AGENT_LAUNCHER'', ''SSH_AUTH_SOCK'', ''SSH_AGENT_PID'']"

definition set_of :: "string list \<Rightarrow> string list" where
  "set_of items = bs_of_list items"

definition union_session :: "string list \<Rightarrow> string list" where
  "union_session base = bs_extend (set_of base) SESSION_SPECIFIC"

definition session_specific :: "string list" where
  "session_specific = set_of SESSION_SPECIFIC"

definition always_export :: "string list" where
  "always_export = set_of ALWAYS_EXPORT"

definition never_export :: "string list" where
  "never_export = union_session NEVER_EXPORT_BASE"

definition always_unset :: "string list" where
  "always_unset = union_session ALWAYS_UNSET_BASE"

definition always_cleanup :: "string list" where
  "always_cleanup = union_session ALWAYS_CLEANUP_BASE"

definition never_cleanup :: "string list" where
  "never_cleanup = set_of NEVER_CLEANUP"

lemmas varname_base_defs =
  SESSION_SPECIFIC_def ALWAYS_EXPORT_def NEVER_EXPORT_BASE_def ALWAYS_UNSET_BASE_def
  ALWAYS_CLEANUP_BASE_def NEVER_CLEANUP_def

lemma set_always_export: "set always_export = set ALWAYS_EXPORT"
  by (simp add: always_export_def set_of_def)

lemma set_never_export: "set never_export = set NEVER_EXPORT_BASE \<union> set SESSION_SPECIFIC"
  by (simp add: never_export_def union_session_def set_of_def)

lemma set_always_unset: "set always_unset = set ALWAYS_UNSET_BASE \<union> set SESSION_SPECIFIC"
  by (simp add: always_unset_def union_session_def set_of_def)

lemma set_always_cleanup: "set always_cleanup = set ALWAYS_CLEANUP_BASE \<union> set SESSION_SPECIFIC"
  by (simp add: always_cleanup_def union_session_def set_of_def)

lemma set_never_cleanup: "set never_cleanup = set NEVER_CLEANUP"
  by (simp add: never_cleanup_def set_of_def)

lemmas varname_sets =
  set_always_export set_never_export set_always_unset set_always_cleanup set_never_cleanup

lemma varname_sets_wf:
  "bs_wf always_export" "bs_wf never_export" "bs_wf always_unset" "bs_wf always_cleanup"
  "bs_wf never_cleanup"
  by (simp_all add: always_export_def never_export_def always_unset_def always_cleanup_def
      never_cleanup_def union_session_def set_of_def)

text \<open>How the classes fit: what is force-exported is cleaned up, nothing is both force-exported
  and excluded, what is scrubbed on stop is never protected, and session identity is always
  scrubbed.\<close>

lemma always_export_cleaned: "set always_export \<subseteq> set always_cleanup"
  by (simp add: varname_sets varname_base_defs)

lemma always_export_not_excluded:
  "set always_export \<inter> (set never_export \<union> set always_unset) = {}"
  by (simp add: varname_sets varname_base_defs)

lemma always_unset_cleaned: "set always_unset \<subseteq> set always_cleanup"
  by (simp add: varname_sets varname_base_defs)

lemma cleanup_classes_disjoint: "set always_cleanup \<inter> set never_cleanup = {}"
  by (simp add: varname_sets varname_base_defs)

section \<open>src/filter.rs\<close>

definition DROP_SH_VARS :: "string list" where
  "DROP_SH_VARS = [''_'', ''SHELL'', ''PWD'', ''OLDWD'']"

definition is_word_char :: "char \<Rightarrow> bool" where
  "is_word_char c \<longleftrightarrow> is_alnum c \<or> c = CHR ''_''"

fun is_valid_name :: "string \<Rightarrow> bool" where
  "is_valid_name [] = False"
| "is_valid_name (c # rest) =
     (if is_alpha c then list_all is_word_char rest
      else if c = CHR ''_'' then rest \<noteq> [] \<and> list_all is_word_char rest
      else False)"

definition keep_name :: "string \<Rightarrow> bool" where
  "keep_name n \<longleftrightarrow> n \<notin> set DROP_SH_VARS \<and> is_valid_name n"

definition filter_names :: "string list \<Rightarrow> string list" where
  "filter_names ns = filter keep_name ns"

definition filter_map :: "env \<Rightarrow> env" where
  "filter_map m = bm_of_list (filter (\<lambda>p. keep_name (fst p)) m)"

lemma is_word_char_graphic: "is_word_char c \<Longrightarrow> graphic c"
  unfolding is_word_char_def char_class_defs graphic_def
  using order.trans[of "CHR ''!''" "CHR ''0''" c] order.trans[of "CHR ''!''" "CHR ''A''" c]
    order.trans[of "CHR ''!''" "CHR ''a''" c] order.trans[of c "CHR ''9''" "CHR ''~''"]
    order.trans[of c "CHR ''Z''" "CHR ''~''"] order.trans[of c "CHR ''z''" "CHR ''~''"]
  by auto

lemma is_alpha_word: "is_alpha c \<Longrightarrow> is_word_char c"
  by (simp add: is_word_char_def is_alnum_def)

lemma word_underscore [simp]: "is_word_char (CHR ''_'')"
  by (simp add: is_word_char_def)

lemma not_word_chars [simp]:
  "\<not> is_word_char NUL" "\<not> is_word_char NL" "\<not> is_word_char CR" "\<not> is_word_char (CHR ''='')"
  "\<not> is_word_char (CHR '' '')" "\<not> is_word_char (CHR ''.'')" "\<not> is_word_char (CHR ''/'')"
  by (simp_all add: is_word_char_def char_class_defs)

lemma valid_name_word: "is_valid_name n \<Longrightarrow> \<forall>c\<in>set n. is_word_char c"
  by (cases n) (auto simp: list_all_iff is_alpha_word word_underscore split: if_splits)

lemma keep_name_word: "keep_name n \<Longrightarrow> c \<in> set n \<Longrightarrow> is_word_char c"
  using valid_name_word by (auto simp: keep_name_def)

lemma keep_name_not_Nil: "keep_name n \<Longrightarrow> n \<noteq> []"
  by (auto simp: keep_name_def)

lemma keep_name_absent:
  "keep_name n \<Longrightarrow> NUL \<notin> set n \<and> NL \<notin> set n \<and> CR \<notin> set n \<and> CHR ''='' \<notin> set n \<and> CHR '' '' \<notin> set n"
  using keep_name_word not_word_chars by blast

lemma bm_wf_filter_map [simp]: "bm_wf (filter_map m)"
  by (simp add: filter_map_def)

lemma filter_map_eq: "bm_wf m \<Longrightarrow> filter_map m = filter (\<lambda>p. keep_name (fst p)) m"
  by (simp add: filter_map_def bm_of_list_id)

lemma bm_get_filter_map:
  "bm_wf m \<Longrightarrow> bm_get (filter_map m) k = (if keep_name k then bm_get m k else None)"
  by (simp add: filter_map_eq bm_get_filter_key)

text \<open>Every name the policy scrubs or protects passes the filter, so filtering never hides it.\<close>

lemma policy_names_kept: "n \<in> set always_cleanup \<union> set never_cleanup \<Longrightarrow> keep_name n"
proof -
  have "list_all keep_name (ALWAYS_CLEANUP_BASE @ SESSION_SPECIFIC @ NEVER_CLEANUP)"
    by code_simp
  then show "n \<in> set always_cleanup \<union> set never_cleanup \<Longrightarrow> keep_name n"
    by (auto simp: varname_sets list_all_iff)
qed

text \<open>The validator against the regular expression its comment quotes from upstream:
  \<open>[A-Za-z_][A-Za-z0-9_]+ | [A-Za-z][A-Za-z0-9_]*\<close>.\<close>

definition sh_varname_re :: "string \<Rightarrow> bool" where
  "sh_varname_re n \<longleftrightarrow>
     (\<exists>c w. n = c # w \<and> w \<noteq> [] \<and> (is_alpha c \<or> c = CHR ''_'') \<and> (\<forall>x\<in>set w. is_word_char x))
   \<or> (\<exists>c w. n = c # w \<and> is_alpha c \<and> (\<forall>x\<in>set w. is_word_char x))"

lemma is_valid_name_re: "is_valid_name n \<longleftrightarrow> sh_varname_re n"
  by (cases n) (auto simp: sh_varname_re_def list_all_iff)

end
