(* ===== verification/Paths.thy ===== *)
theory Paths
  imports Effects
begin

text \<open>
  \<open>std::path\<close> on byte strings, and the XDG base directories of src/util/xdg.rs as functions of the
  process environment. \<open>path_join\<close>, \<open>path_parent\<close> and \<open>path_file_name\<close> are
  \<open>Path::join\<close>, \<open>parent\<close> and \<open>file_name\<close>; repeated and trailing slashes are
  handled as there, a \<open>.\<close> component inside a path (which none of the program's own paths has) is
  taken as a name.
\<close>

abbreviation SLASH :: char where "SLASH \<equiv> CHR ''/''"

definition drop_trailing :: "char \<Rightarrow> string \<Rightarrow> string" where
  "drop_trailing c s = rev (dropWhile (\<lambda>x. x = c) (rev s))"

definition path_join :: "string \<Rightarrow> string \<Rightarrow> string" where
  "path_join d r =
     (if r \<noteq> [] \<and> hd r = SLASH then r
      else if d = [] then r
      else if last d = SLASH then d @ r
      else d @ SLASH # r)"

definition last_component :: "string \<Rightarrow> string" where
  "last_component s = rev (takeWhile (\<lambda>x. x \<noteq> SLASH) (rev s))"

definition before_last_component :: "string \<Rightarrow> string" where
  "before_last_component s = rev (dropWhile (\<lambda>x. x \<noteq> SLASH) (rev s))"

definition path_parent :: "string \<Rightarrow> string option" where
  "path_parent p =
     (let q = drop_trailing SLASH p;
          h = before_last_component q;
          t = drop_trailing SLASH h
      in if q = [] then None else if t = [] \<and> h \<noteq> [] then Some ''/'' else Some t)"

definition path_file_name :: "string \<Rightarrow> string option" where
  "path_file_name p =
     (let n = last_component (drop_trailing SLASH p)
      in if n = [] \<or> n = ''..'' then None else Some n)"

text \<open>\<open>extension()\<close>: what follows the last dot of the file name, unless that dot is its first
  character.\<close>

definition path_extension :: "string \<Rightarrow> string option" where
  "path_extension p =
     (case path_file_name p of
        None \<Rightarrow> None
      | Some n \<Rightarrow>
          (let suf = rev (takeWhile (\<lambda>x. x \<noteq> CHR ''.'') (rev n));
               pre = rev (dropWhile (\<lambda>x. x \<noteq> CHR ''.'') (rev n))
           in if length pre \<le> 1 then None else Some suf))"

text \<open>\<open>strip_prefix(base)\<close> on a path that was built by joining onto \<open>base\<close>.\<close>

definition path_strip_prefix :: "string \<Rightarrow> string \<Rightarrow> string option" where
  "path_strip_prefix base p =
     (case strip_prefix base p of
        None \<Rightarrow> None
      | Some r \<Rightarrow>
          if r = [] \<or> base = [] \<or> last base = SLASH then Some r
          else if hd r = SLASH then Some (dropWhile (\<lambda>x. x = SLASH) r) else None)"

lemma drop_trailing_id: "s = [] \<or> last s \<noteq> c \<Longrightarrow> drop_trailing c s = s"
  by (cases s rule: rev_cases) (auto simp: drop_trailing_def)

lemma length_drop_trailing: "length (drop_trailing c s) \<le> length s"
  using length_dropWhile_le[of "\<lambda>x. x = c" "rev s"] by (simp add: drop_trailing_def)

lemma before_last_append:
  "SLASH \<notin> set n \<Longrightarrow> before_last_component (d @ SLASH # n) = d @ [SLASH]"
  by (simp add: before_last_component_def dropWhile_append)

lemma last_component_append:
  "SLASH \<notin> set n \<Longrightarrow> last_component (d @ SLASH # n) = n"
  by (simp add: last_component_def takeWhile_append)

lemma last_component_id: "SLASH \<notin> set n \<Longrightarrow> last_component n = n"
proof -
  assume "SLASH \<notin> set n"
  then have "takeWhile (\<lambda>x. x \<noteq> SLASH) (rev n) = rev n"
    by (intro takeWhile_eq_all_conv[THEN iffD2]) auto
  then show ?thesis by (simp only: last_component_def rev_rev_ident)
qed

lemma last_component_no_slash: "SLASH \<notin> set (last_component s)"
  using set_takeWhileD[of SLASH "\<lambda>x. x \<noteq> SLASH" "rev s"] by (auto simp: last_component_def)

text \<open>A plain name: not empty, without slash, and not the parent directory.\<close>

definition plain_name :: "string \<Rightarrow> bool" where
  "plain_name n \<longleftrightarrow> n \<noteq> [] \<and> SLASH \<notin> set n \<and> n \<noteq> ''..''"

lemma plain_name_hd: "plain_name n \<Longrightarrow> hd n \<noteq> SLASH"
  by (cases n) (auto simp: plain_name_def)

lemma plain_name_last: "plain_name n \<Longrightarrow> last (x # n) \<noteq> SLASH"
  by (auto simp: plain_name_def last_ConsR) (metis last_in_set)

lemma path_file_name_plain: "path_file_name p = Some n \<Longrightarrow> plain_name n"
  using last_component_no_slash
  by (auto simp: path_file_name_def plain_name_def Let_def split: if_splits)

lemma path_file_name_join:
  assumes "plain_name n"
  shows "path_file_name (path_join d n) = Some n"
proof -
  have t: "drop_trailing SLASH (x @ n) = x @ n" for x
    using assms plain_name_last[of n] by (cases n) (auto simp: plain_name_def intro!: drop_trailing_id)
  have j: "path_join d n = n \<or> (\<exists>x. path_join d n = x @ SLASH # n)"
    using plain_name_hd[OF assms] by (auto simp: path_join_def) (metis append_butlast_last_id)
  have n: "SLASH \<notin> set n" using assms by (simp add: plain_name_def)
  from j show ?thesis
  proof
    assume "path_join d n = n"
    with t[of "[]"] last_component_id[OF n] assms show ?thesis
      by (simp add: path_file_name_def plain_name_def)
  next
    assume "\<exists>x. path_join d n = x @ SLASH # n"
    then obtain x where x: "path_join d n = (x @ [SLASH]) @ n" by auto
    show ?thesis
      using t[of "x @ [SLASH]"] last_component_append[OF n, of x] assms
      by (simp add: x path_file_name_def plain_name_def)
  qed
qed

lemma path_parent_join:
  assumes "plain_name n" "d \<noteq> []" "last d \<noteq> SLASH"
  shows "path_parent (path_join d n) = Some d"
proof -
  have j: "path_join d n = d @ SLASH # n"
    using assms plain_name_hd[of n] by (auto simp: path_join_def)
  have "drop_trailing SLASH (d @ SLASH # n) = d @ SLASH # n"
    using plain_name_last[OF assms(1), of SLASH] by (intro drop_trailing_id) simp
  moreover have "before_last_component (d @ SLASH # n) = d @ [SLASH]"
    using assms(1) by (simp add: before_last_append plain_name_def)
  moreover have "drop_trailing SLASH (d @ [SLASH]) = d"
    using drop_trailing_id[of d SLASH] assms by (simp add: drop_trailing_def)
  ultimately show ?thesis using assms j by (simp add: path_parent_def Let_def)
qed

lemma length_path_parent: "path_parent p = Some q \<Longrightarrow> length q < length p"
proof -
  assume a: "path_parent p = Some q"
  let ?r = "drop_trailing SLASH p"
  let ?h = "before_last_component ?r"
  from a have r: "?r \<noteq> []" by (auto simp: path_parent_def Let_def split: if_splits)
  have lr: "length ?r \<le> length p" by (rule length_drop_trailing)
  have "last ?r \<noteq> SLASH"
    using r hd_dropWhile[of "\<lambda>x. x = SLASH" "rev p"] by (simp add: drop_trailing_def last_rev)
  with r have "length ?h < length ?r"
    by (cases ?r rule: rev_cases)
       (auto simp: before_last_component_def less_Suc_eq_le length_dropWhile_le
             intro: le_trans[OF length_dropWhile_le])
  moreover have "length q \<le> length ?h"
    using a length_drop_trailing[of SLASH ?h]
    by (auto simp: path_parent_def Let_def Suc_le_eq split: if_splits)
  ultimately show ?thesis using lr by simp
qed

function path_ancestors :: "string \<Rightarrow> string list" where
  "path_ancestors p =
     (case path_parent p of None \<Rightarrow> [] | Some q \<Rightarrow> q # path_ancestors q)"
  by pat_completeness auto
termination
  by (relation "measure length") (auto dest: length_path_parent)

declare path_ancestors.simps [simp del]

section \<open>src/util/xdg.rs\<close>

definition non_empty_var :: "env \<Rightarrow> string \<Rightarrow> string option" where
  "non_empty_var penv name = opt_filter (\<lambda>v. v \<noteq> []) (bm_get penv name)"

definition config_home :: "env \<Rightarrow> string result" where
  "config_home penv =
     (case non_empty_var penv ''XDG_CONFIG_HOME'' of
        Some v \<Rightarrow> Inr v
      | None \<Rightarrow> rbind (ok_or (non_empty_var penv ''HOME'') (EnvMissing ''HOME''))
                  (\<lambda>home. Inr (path_join home ''.config'')))"

definition cache_home :: "env \<Rightarrow> string result" where
  "cache_home penv =
     (case non_empty_var penv ''XDG_CACHE_HOME'' of
        Some v \<Rightarrow> Inr v
      | None \<Rightarrow> rbind (ok_or (non_empty_var penv ''HOME'') (EnvMissing ''HOME''))
                  (\<lambda>home. Inr (path_join home ''.cache'')))"

definition runtime_dir :: "env \<Rightarrow> string result" where
  "runtime_dir penv =
     ok_or (non_empty_var penv ''XDG_RUNTIME_DIR'') (EnvMissing ''XDG_RUNTIME_DIR'')"

definition data_home :: "env \<Rightarrow> string" where
  "data_home penv =
     (case non_empty_var penv ''XDG_DATA_HOME'' of
        Some v \<Rightarrow> v
      | None \<Rightarrow> (case bm_get penv ''HOME'' of
                   Some h \<Rightarrow> path_join h ''.local/share''
                 | None \<Rightarrow> ''.local/share''))"

definition non_empty_parts :: "char \<Rightarrow> string \<Rightarrow> string list" where
  "non_empty_parts d s = filter (\<lambda>w. w \<noteq> []) (split_on d s)"

definition data_dirs :: "env \<Rightarrow> string list" where
  "data_dirs penv =
     non_empty_parts (CHR '':'')
       (unwrap_or (non_empty_var penv ''XDG_DATA_DIRS'') ''/usr/local/share:/usr/share'')"

definition data_paths :: "env \<Rightarrow> string list" where
  "data_paths penv = [data_home penv] @ data_dirs penv"

definition config_dirs :: "env \<Rightarrow> string list" where
  "config_dirs penv =
     non_empty_parts (CHR '':'') (unwrap_or (non_empty_var penv ''XDG_CONFIG_DIRS'') ''/etc/xdg'')"

definition config_paths :: "env \<Rightarrow> string list" where
  "config_paths penv =
     (case config_home penv of Inr h \<Rightarrow> [h] | Inl _ \<Rightarrow> []) @ config_dirs penv"

lemma non_empty_parts_mem: "w \<in> set (non_empty_parts d s) \<Longrightarrow> w \<noteq> [] \<and> d \<notin> set w"
  by (auto simp: non_empty_parts_def dest: split_on_pieces)

end
