(* ===== verification/Fs.thy ===== *)
theory Fs
  imports Paths "HOL-Library.AList" "HOL-Library.Word"
begin

unbundle bit_operations_syntax

text \<open>
  A file system with faults, and on it src/util/fsutil.rs and \<open>which\<close> of src/util/mod.rs.

  The state \<open>fs\<close> holds the regular files with their contents, the directories, the permission
  bits, a set of paths that cannot be read for a reason other than absence, and a \<^emph>\<open>fault
  schedule\<close>: the \<open>i\<close>-th mutating system call fails with the error the schedule gives for
  \<open>i\<close>, if it gives one. A theorem about every state is therefore about every pattern of failing
  calls; and as a call that fails has no effect (a failing write leaves the number of bytes the
  schedule says), a schedule on which all calls from some point on fail is a crash at that point.
\<close>

section \<open>The file system\<close>

record fs =
  fs_files :: "(string \<times> string) list"
  fs_dirs :: "string list"
  fs_mode :: "string \<Rightarrow> nat"
  fs_rfail :: "string \<Rightarrow> io_error option"
  fs_faults :: "nat \<Rightarrow> (io_error \<times> nat) option"
  fs_calls :: nat
  fs_pid :: nat
  fs_nanos :: "nat \<Rightarrow> nat"

type_synonym sys = "fs \<Rightarrow> (io_error + unit) \<times> fs"

definition file_at :: "fs \<Rightarrow> string \<Rightarrow> string option" where
  "file_at s p = map_of (fs_files s) p"

definition is_dir :: "fs \<Rightarrow> string \<Rightarrow> bool" where
  "is_dir s p \<longleftrightarrow> p \<in> set (fs_dirs s)"

definition path_exists :: "fs \<Rightarrow> string \<Rightarrow> bool" where
  "path_exists s p \<longleftrightarrow> file_at s p \<noteq> None \<or> is_dir s p"

definition put_file :: "string \<Rightarrow> string \<Rightarrow> fs \<Rightarrow> fs" where
  "put_file p c s = s\<lparr>fs_files := AList.update p c (fs_files s)\<rparr>"

definition del_file :: "string \<Rightarrow> fs \<Rightarrow> fs" where
  "del_file p s = s\<lparr>fs_files := AList.delete p (fs_files s)\<rparr>"

text \<open>A mutating call: it counts, and either has its effect or the fault's partial one.\<close>

definition sys_call :: "(fs \<Rightarrow> fs) \<Rightarrow> (nat \<Rightarrow> fs \<Rightarrow> fs) \<Rightarrow> sys" where
  "sys_call eff part s =
     (let s' = s\<lparr>fs_calls := Suc (fs_calls s)\<rparr>
      in case fs_faults s (fs_calls s) of
           None \<Rightarrow> (Inr (), eff s')
         | Some (e, n) \<Rightarrow> (Inl e, part n s'))"

definition sys_error :: "io_error \<Rightarrow> sys" where
  "sys_error e s = (Inl e, s\<lparr>fs_calls := Suc (fs_calls s)\<rparr>)"

definition std_read :: "fs \<Rightarrow> string \<Rightarrow> io_error + string" where
  "std_read s p =
     (case fs_rfail s p of
        Some e \<Rightarrow> Inl e
      | None \<Rightarrow> (case file_at s p of Some c \<Rightarrow> Inr c | None \<Rightarrow> Inl IoNotFound))"

definition std_create_dir_all :: "string \<Rightarrow> sys" where
  "std_create_dir_all p s =
     (if list_ex (\<lambda>q. file_at s q \<noteq> None) (p # path_ancestors p)
      then sys_error (IoOs 20) s
      else sys_call (\<lambda>s. s\<lparr>fs_dirs := p # path_ancestors p @ fs_dirs s\<rparr>) (\<lambda>n s. s) s)"

definition parent_present :: "fs \<Rightarrow> string \<Rightarrow> bool" where
  "parent_present s p =
     (case path_parent p of None \<Rightarrow> False | Some q \<Rightarrow> q = [] \<or> is_dir s q)"

definition std_create :: "string \<Rightarrow> sys" where
  "std_create p s =
     (if is_dir s p then sys_error (IoOs 21) s
      else if \<not> parent_present s p then sys_error IoNotFound s
      else sys_call (put_file p []) (\<lambda>n s. s) s)"

definition std_write_all :: "string \<Rightarrow> string \<Rightarrow> sys" where
  "std_write_all p c s = sys_call (put_file p c) (\<lambda>n. put_file p (take n c)) s"

definition std_sync :: "string \<Rightarrow> sys" where
  "std_sync p s = sys_call (\<lambda>s. s) (\<lambda>n s. s) s"

definition std_rename :: "string \<Rightarrow> string \<Rightarrow> sys" where
  "std_rename a b s =
     (case file_at s a of
        None \<Rightarrow> sys_error IoNotFound s
      | Some c \<Rightarrow>
          if is_dir s b then sys_error (IoOs 21) s
          else sys_call (\<lambda>s. put_file b c (del_file a s)) (\<lambda>n s. s) s)"

definition std_remove_file :: "string \<Rightarrow> sys" where
  "std_remove_file p s =
     (case file_at s p of
        None \<Rightarrow> sys_error (if is_dir s p then IoOs 21 else IoNotFound) s
      | Some c \<Rightarrow> sys_call (del_file p) (\<lambda>n s. s) s)"

definition dir_entries :: "fs \<Rightarrow> string \<Rightarrow> string list" where
  "dir_entries s d =
     filter (\<lambda>p. path_parent p = Some d) (remdups (map fst (fs_files s) @ fs_dirs s))"

definition std_remove_dir :: "string \<Rightarrow> sys" where
  "std_remove_dir p s =
     (if \<not> is_dir s p then sys_error IoNotFound s
      else if dir_entries s p \<noteq> [] then sys_error (IoOs 39) s
      else sys_call (\<lambda>s. s\<lparr>fs_dirs := removeAll p (fs_dirs s)\<rparr>) (\<lambda>n s. s) s)"

definition std_remove_dir_all :: "string \<Rightarrow> sys" where
  "std_remove_dir_all p s =
     (if \<not> is_dir s p then sys_error IoNotFound s
      else sys_call
        (\<lambda>s. s\<lparr>fs_files := filter (\<lambda>(q, c). p \<notin> set (path_ancestors q)) (fs_files s),
               fs_dirs := filter (\<lambda>q. q \<noteq> p \<and> p \<notin> set (path_ancestors q)) (fs_dirs s)\<rparr>)
        (\<lambda>n s. s) s)"

definition std_set_mode :: "string \<Rightarrow> nat \<Rightarrow> sys" where
  "std_set_mode p m s =
     (if path_exists s p then sys_call (\<lambda>s. s\<lparr>fs_mode := (fs_mode s)(p := m)\<rparr>) (\<lambda>n s. s) s
      else sys_error IoNotFound s)"

text \<open>\<open>std::fs::write\<close>: create or truncate, then write.\<close>

definition std_write :: "string \<Rightarrow> string \<Rightarrow> sys" where
  "std_write p c s =
     (case std_create p s of
        (Inl e, s') \<Rightarrow> (Inl e, s')
      | (Inr _, s') \<Rightarrow> std_write_all p c s')"

text \<open>\<open>OpenOptions::new().create(true).truncate(false).write(true).open(p)\<close>, an exclusive
  \<open>flock\<close> on the open file, and the paths \<open>read_dir\<close> yields.\<close>

definition std_open_create :: "string \<Rightarrow> sys" where
  "std_open_create p s =
     (if is_dir s p then sys_error (IoOs 21) s
      else if file_at s p \<noteq> None then sys_call (\<lambda>s. s) (\<lambda>n s. s) s
      else if \<not> parent_present s p then sys_error IoNotFound s
      else sys_call (put_file p []) (\<lambda>n s. s) s)"

definition std_flock :: "string \<Rightarrow> sys" where
  "std_flock p s = sys_call (\<lambda>s. s) (\<lambda>n s. s) s"

definition std_read_dir :: "fs \<Rightarrow> string \<Rightarrow> io_error + string list" where
  "std_read_dir s p =
     (let d = drop_trailing SLASH p
      in case fs_rfail s d of
           Some e \<Rightarrow> Inl e
         | None \<Rightarrow> if is_dir s d then Inr (dir_entries s d) else Inl IoNotFound)"

text \<open>\<open>map_err(|e| Error::io(path, e))?\<close>, and \<open>let _ = \<dots>;\<close>.\<close>

definition sys_io :: "string \<Rightarrow> sys \<Rightarrow> (fs, unit) io" where
  "sys_io p m s = (case m s of (Inl e, s') \<Rightarrow> (Inl (Io p e), s') | (Inr u, s') \<Rightarrow> (Inr u, s'))"

definition sys_ignore :: "sys \<Rightarrow> (fs, unit) io" where
  "sys_ignore m s = (Inr (), snd (m s))"

section \<open>Frame facts\<close>

lemma file_at_put [simp]: "file_at (put_file p c s) q = (if q = p then Some c else file_at s q)"
  by (simp add: file_at_def put_file_def update_conv')

lemma file_at_del [simp]: "file_at (del_file p s) q = (if q = p then None else file_at s q)"
  by (simp add: file_at_def del_file_def delete_conv')

lemma file_at_updates [simp]:
  "file_at (s\<lparr>fs_calls := n\<rparr>) q = file_at s q"
  "file_at (s\<lparr>fs_dirs := ds\<rparr>) q = file_at s q"
  "file_at (s\<lparr>fs_mode := m\<rparr>) q = file_at s q"
  by (simp_all add: file_at_def)

lemma is_dir_updates [simp]:
  "is_dir (s\<lparr>fs_calls := n\<rparr>) q = is_dir s q"
  "is_dir (put_file p c s) q = is_dir s q"
  "is_dir (del_file p s) q = is_dir s q"
  by (simp_all add: is_dir_def put_file_def del_file_def)

lemma sys_error_simp [simp]: "sys_error e s = (Inl e, s\<lparr>fs_calls := Suc (fs_calls s)\<rparr>)"
  by (simp add: sys_error_def)

lemma file_at_sys_call:
  assumes "\<And>s'. file_at (eff s') q = file_at s' q" "\<And>n s'. file_at (part n s') q = file_at s' q"
  shows "file_at (snd (sys_call eff part s)) q = file_at s q"
  using assms by (simp add: sys_call_def Let_def split: option.split prod.split)

lemma file_at_create_dir_all [simp]: "file_at (snd (std_create_dir_all p s)) q = file_at s q"
  by (auto simp: std_create_dir_all_def intro!: file_at_sys_call)

lemma file_at_create: "q \<noteq> p \<Longrightarrow> file_at (snd (std_create p s)) q = file_at s q"
  by (auto simp: std_create_def intro!: file_at_sys_call)

lemma file_at_write_all: "q \<noteq> p \<Longrightarrow> file_at (snd (std_write_all p c s)) q = file_at s q"
  by (auto simp: std_write_all_def intro!: file_at_sys_call)

lemma file_at_write_all_ok:
  "std_write_all p c s = (Inr u, s') \<Longrightarrow> file_at s' p = Some c"
  by (auto simp: std_write_all_def sys_call_def Let_def split: option.splits)

lemma file_at_sync [simp]: "file_at (snd (std_sync p s)) q = file_at s q"
  by (auto simp: std_sync_def intro!: file_at_sys_call)

lemma file_at_rename:
  "q \<noteq> a \<Longrightarrow> q \<noteq> b \<Longrightarrow> file_at (snd (std_rename a b s)) q = file_at s q"
  by (auto simp: std_rename_def intro!: file_at_sys_call split: option.split)

lemma file_at_rename_ok:
  "std_rename a b s = (Inr u, s') \<Longrightarrow> file_at s' b = file_at s a"
  by (auto simp: std_rename_def sys_call_def Let_def split: option.splits if_splits)

lemma file_at_rename_gone:
  "std_rename a b s = (Inr u, s') \<Longrightarrow> a \<noteq> b \<Longrightarrow> file_at s' a = None"
  by (auto simp: std_rename_def sys_call_def Let_def split: option.splits if_splits)

lemma file_at_rename_err:
  "std_rename a b s = (Inl e, s') \<Longrightarrow> file_at s' q = file_at s q"
  by (auto simp: std_rename_def sys_call_def Let_def split: option.splits if_splits)

lemma file_at_remove: "q \<noteq> p \<Longrightarrow> file_at (snd (std_remove_file p s)) q = file_at s q"
  by (auto simp: std_remove_file_def intro!: file_at_sys_call split: option.split)

lemma file_at_remove_ok: "std_remove_file p s = (Inr u, s') \<Longrightarrow> file_at s' p = None"
  by (auto simp: std_remove_file_def sys_call_def Let_def split: option.splits if_splits)

lemma file_at_remove_err:
  "std_remove_file p s = (Inl e, s') \<Longrightarrow> file_at s' q = file_at s q"
  by (auto simp: std_remove_file_def sys_call_def Let_def split: option.splits if_splits)

lemma file_at_remove_cases:
  "file_at (snd (std_remove_file p s)) q = file_at s q \<or>
   q = p \<and> file_at (snd (std_remove_file p s)) q = None"
  by (auto simp: std_remove_file_def sys_call_def Let_def split: option.splits if_splits)

lemma file_at_remove_dir [simp]: "file_at (snd (std_remove_dir p s)) q = file_at s q"
  by (auto simp: std_remove_dir_def intro!: file_at_sys_call)

lemma file_at_open_create: "q \<noteq> p \<Longrightarrow> file_at (snd (std_open_create p s)) q = file_at s q"
  by (auto simp: std_open_create_def intro!: file_at_sys_call)

lemma file_at_flock [simp]: "file_at (snd (std_flock p s)) q = file_at s q"
  by (auto simp: std_flock_def intro!: file_at_sys_call)

lemma file_at_set_mode [simp]: "file_at (snd (std_set_mode p m s)) q = file_at s q"
  by (auto simp: std_set_mode_def intro!: file_at_sys_call)

lemma file_at_std_write: "q \<noteq> p \<Longrightarrow> file_at (snd (std_write p c s)) q = file_at s q"
  using file_at_create[of q p s] file_at_write_all[of q p c]
  by (auto simp: std_write_def split: prod.split sum.split)

lemmas file_at_frame =
  file_at_create file_at_write_all file_at_rename file_at_remove file_at_std_write
  file_at_open_create

section \<open>src/util/fsutil.rs\<close>

definition temp_path :: "fs \<Rightarrow> string \<Rightarrow> string" where
  "temp_path s dest =
     (let parent = unwrap_or (path_parent dest) ''.'';
          base = unwrap_or (path_file_name dest) []
      in path_join parent
           (''.'' @ base @ ''.wsmr-tmp.'' @ show_nat (fs_pid s) @ ''.'' @
            show_nat (fs_nanos s (fs_calls s))))"

definition write_temp :: "string \<Rightarrow> string \<Rightarrow> (fs, unit) io" where
  "write_temp tmp content =
     io_bind (sys_io tmp (std_create tmp)) (\<lambda>_.
     io_bind (sys_io tmp (std_write_all tmp content)) (\<lambda>_.
     sys_io tmp (std_sync tmp)))"

definition atomic_write :: "string \<Rightarrow> string \<Rightarrow> string \<Rightarrow> (fs, unit) io" where
  "atomic_write dir relname content =
     (let dest = path_join dir relname;
          parent = unwrap_or (path_parent dest) dir
      in io_bind (sys_io parent (std_create_dir_all parent)) (\<lambda>_.
         io_bind (io_get (\<lambda>s. temp_path s dest)) (\<lambda>tmp.
         io_bind (io_try (write_temp tmp content)) (\<lambda>result.
         case result of
           Inl e \<Rightarrow> io_bind (sys_ignore (std_remove_file tmp)) (\<lambda>_. io_fail e)
         | Inr _ \<Rightarrow>
             io_bind (io_try (sys_io dest (std_rename tmp dest))) (\<lambda>renamed.
             case renamed of
               Inl e \<Rightarrow> io_bind (sys_ignore (std_remove_file tmp)) (\<lambda>_. io_fail e)
             | Inr _ \<Rightarrow> io_return ())))))"

definition atomic_write_path :: "string \<Rightarrow> string \<Rightarrow> (fs, unit) io" where
  "atomic_write_path path content =
     (let dir = unwrap_or (path_parent path) ''.'';
          relname = unwrap_or (path_file_name path) []
      in atomic_write dir relname content)"

text \<open>The names \<open>temp_path\<close> makes up.\<close>

definition is_temp :: "string \<Rightarrow> bool" where
  "is_temp p =
     (case path_file_name p of
        None \<Rightarrow> False
      | Some n \<Rightarrow> starts_with ''.'' n \<and> contains_str ''.wsmr-tmp.'' n)"

lemma show_nat_no_slash: "SLASH \<notin> set (show_nat n)"
proof (induction n rule: show_nat.induct)
  case (1 n)
  have d: "digit_char m \<noteq> SLASH" if "m < 10" for m
  proof -
    have "list_all (\<lambda>m. digit_char m \<noteq> SLASH) [0,1,2,3,4,5,6,7,8,9]" by code_simp
    moreover have "m \<in> set [0,1,2,3,4,5,6,7,8,9]" using that by auto
    ultimately show ?thesis unfolding list_all_iff by blast
  qed
  with 1 show ?case
    by (cases "n < 10") (auto simp: show_nat.simps[of n] eq_commute[of SLASH])
qed

lemma temp_name_plain:
  assumes "SLASH \<notin> set base"
  shows "plain_name (''.'' @ base @ ''.wsmr-tmp.'' @ show_nat a @ ''.'' @ show_nat b)"
  using assms show_nat_no_slash by (auto simp: plain_name_def)

lemma temp_path_name:
  "path_file_name (temp_path s dest) =
     Some (''.'' @ unwrap_or (path_file_name dest) [] @ ''.wsmr-tmp.'' @ show_nat (fs_pid s) @ ''.'' @
           show_nat (fs_nanos s (fs_calls s)))"
proof -
  have "SLASH \<notin> set (unwrap_or (path_file_name dest) [])"
    by (cases "path_file_name dest") (auto dest: path_file_name_plain simp: plain_name_def)
  from path_file_name_join[OF temp_name_plain[OF this]] show ?thesis
    by (simp add: temp_path_def Let_def)
qed

lemma is_temp_temp_path [simp]: "is_temp (temp_path s dest)"
  unfolding is_temp_def temp_path_name
  by (simp add: str_simps) (metis append_Cons)

lemma temp_path_neq [simp]: "temp_path s dest \<noteq> dest"
proof
  assume "temp_path s dest = dest"
  with temp_path_name[of s dest] show False
    by (cases "path_file_name dest") auto
qed

section \<open>What an atomic write does\<close>

text \<open>\<open>keeps q m\<close>: \<open>m\<close> leaves the file at \<open>q\<close> alone, whatever fails.\<close>

definition keeps :: "string \<Rightarrow> (fs, 'a) io \<Rightarrow> bool" where
  "keeps q m \<longleftrightarrow> (\<forall>s. file_at (snd (m s)) q = file_at s q)"

named_theorems keeps_intros

lemma keepsD: "keeps q m \<Longrightarrow> m s = (r, s') \<Longrightarrow> file_at s' q = file_at s q"
  unfolding keeps_def by (metis snd_conv)

lemma keeps_pure [keeps_intros]:
  "keeps q (io_return x)" "keeps q (io_fail e)" "keeps q (io_lift r)" "keeps q (io_get f)"
  by (simp_all add: keeps_def)

lemma keeps_bind [keeps_intros]:
  assumes "keeps q m" "\<And>x. keeps q (f x)"
  shows "keeps q (io_bind m f)"
  unfolding keeps_def
proof
  fix s
  obtain r s' where m: "m s = (r, s')" by (cases "m s")
  with assms(1) have "file_at s' q = file_at s q" by (rule keepsD)
  with m assms(2) show "file_at (snd (io_bind m f s)) q = file_at s q"
    by (cases r) (auto simp: io_bind_def keeps_def)
qed

lemma keeps_try [keeps_intros]: "keeps q m \<Longrightarrow> keeps q (io_try m)"
  by (auto simp: keeps_def io_try_def split: prod.split) (metis snd_conv)

lemma keeps_sys_io: "(\<And>s. file_at (snd (m s)) q = file_at s q) \<Longrightarrow> keeps q (sys_io p m)"
  unfolding keeps_def
proof
  fix s
  assume *: "\<And>s. file_at (snd (m s)) q = file_at s q"
  obtain r s' where "m s = (r, s')" by (cases "m s")
  with *[of s] show "file_at (snd (sys_io p m s)) q = file_at s q"
    by (cases r) (simp_all add: sys_io_def)
qed

lemma keeps_sys_ignore: "(\<And>s. file_at (snd (m s)) q = file_at s q) \<Longrightarrow> keeps q (sys_ignore m)"
  by (simp add: keeps_def sys_ignore_def)

lemma keeps_sum_case [keeps_intros]:
  "(\<And>e. keeps q (f e)) \<Longrightarrow> (\<And>x. keeps q (g x)) \<Longrightarrow> keeps q (case r of Inl e \<Rightarrow> f e | Inr x \<Rightarrow> g x)"
  by (cases r) auto

lemma keeps_each [keeps_intros]:
  "(\<And>x. x \<in> set xs \<Longrightarrow> keeps q (f x)) \<Longrightarrow> keeps q (io_each f xs)"
  by (induction xs) (auto intro!: keeps_intros)

lemma sys_io_Inr_iff: "sys_io p m s = (Inr u, s') \<longleftrightarrow> m s = (Inr u, s')"
  by (auto simp: sys_io_def split: prod.splits sum.splits)

lemma keeps_write_temp: "q \<noteq> tmp \<Longrightarrow> keeps q (write_temp tmp c)"
  unfolding write_temp_def
  by (intro keeps_intros keeps_sys_io) (simp_all add: file_at_frame)

lemma write_temp_ok:
  assumes "write_temp tmp c s = (Inr u, s')"
  shows "file_at s' tmp = Some c"
proof -
  from assms obtain s1 s2 u1 u2
    where "std_write_all tmp c s1 = (Inr u1, s2)" and y: "std_sync tmp s2 = (Inr u2, s')"
    by (auto simp: write_temp_def io_bind_Inr_iff sys_io_Inr_iff)
  then have "file_at s2 tmp = Some c" by (simp add: file_at_write_all_ok)
  with file_at_sync[of tmp s2 tmp] y show ?thesis by simp
qed

text \<open>The body of \<open>atomic_write\<close> once the temporary name is chosen.\<close>

definition write_via :: "string \<Rightarrow> string \<Rightarrow> string \<Rightarrow> (fs, unit) io" where
  "write_via tmp dest content =
     io_bind (io_try (write_temp tmp content)) (\<lambda>result.
     case result of
       Inl e \<Rightarrow> io_bind (sys_ignore (std_remove_file tmp)) (\<lambda>_. io_fail e)
     | Inr _ \<Rightarrow>
         io_bind (io_try (sys_io dest (std_rename tmp dest))) (\<lambda>renamed.
         case renamed of
           Inl e \<Rightarrow> io_bind (sys_ignore (std_remove_file tmp)) (\<lambda>_. io_fail e)
         | Inr _ \<Rightarrow> io_return ()))"

lemma atomic_write_via:
  "atomic_write dir relname content =
     (let dest = path_join dir relname; parent = unwrap_or (path_parent dest) dir
      in io_bind (sys_io parent (std_create_dir_all parent)) (\<lambda>_.
         io_bind (io_get (\<lambda>s. temp_path s dest)) (\<lambda>tmp. write_via tmp dest content)))"
  by (simp add: atomic_write_def write_via_def)

lemma keeps_write_via: "q \<noteq> tmp \<Longrightarrow> q \<noteq> dest \<Longrightarrow> keeps q (write_via tmp dest c)"
  unfolding write_via_def
  by (intro keeps_intros keeps_sys_io keeps_sys_ignore keeps_write_temp)
     (simp_all add: file_at_frame)

lemma write_via_dest:
  assumes ne: "tmp \<noteq> dest" and run: "write_via tmp dest c s = (r, s')"
  shows "file_at s' dest = (if is_ok r then Some c else file_at s dest)"
proof -
  obtain r1 s1 where w: "write_temp tmp c s = (r1, s1)" by (cases "write_temp tmp c s")
  have s1: "file_at s1 dest = file_at s dest"
    using keepsD[OF keeps_write_temp w] ne by simp
  show ?thesis
  proof (cases r1)
    case (Inl e)
    with run w have "s' = snd (std_remove_file tmp s1)" "r = Inl e"
      by (simp_all add: write_via_def io_bind_def io_try_def sys_ignore_def)
    with s1 ne show ?thesis by (simp add: file_at_remove)
  next
    case (Inr u)
    obtain r2 s2 where rn: "std_rename tmp dest s1 = (r2, s2)" by (cases "std_rename tmp dest s1")
    show ?thesis
    proof (cases r2)
      case (Inl e)
      with run w Inr rn have "s' = snd (std_remove_file tmp s2)" "r = Inl (Io dest e)"
        by (simp_all add: write_via_def io_bind_def io_try_def sys_ignore_def sys_io_def)
      moreover have "file_at s2 dest = file_at s1 dest"
        using rn Inl by (simp add: file_at_rename_err)
      ultimately show ?thesis using s1 ne by (simp add: file_at_remove)
    next
      case (Inr v)
      with run w \<open>r1 = Inr u\<close> rn have "s' = s2" "r = Inr ()"
        by (simp_all add: write_via_def io_bind_def io_try_def sys_io_def)
      moreover have "file_at s2 dest = file_at s1 tmp"
        using rn Inr by (simp add: file_at_rename_ok)
      moreover have "file_at s1 tmp = Some c"
        using w \<open>r1 = Inr u\<close> by (simp add: write_temp_ok)
      ultimately show ?thesis by simp
    qed
  qed
qed

text \<open>The contract: the destination holds the new content exactly if the write reports success and
  its old content otherwise, and no other file but temporary ones is touched.\<close>

lemma atomic_write_dest:
  assumes "atomic_write dir rel c s = (r, s')"
  shows "file_at s' (path_join dir rel) =
    (if is_ok r then Some c else file_at s (path_join dir rel))"
proof -
  let ?dest = "path_join dir rel"
  let ?par = "unwrap_or (path_parent ?dest) dir"
  obtain r1 s1 where mk: "std_create_dir_all ?par s = (r1, s1)"
    by (cases "std_create_dir_all ?par s")
  have s1: "file_at s1 ?dest = file_at s ?dest"
    using file_at_create_dir_all[of ?par s ?dest] mk by simp
  show ?thesis
  proof (cases r1)
    case (Inl e)
    with assms mk s1 show ?thesis
      by (auto simp: atomic_write_via Let_def io_bind_def sys_io_def)
  next
    case (Inr u)
    with assms mk have "write_via (temp_path s1 ?dest) ?dest c s1 = (r, s')"
      by (simp add: atomic_write_via Let_def io_bind_def sys_io_def)
    from write_via_dest[OF temp_path_neq this] s1 show ?thesis by simp
  qed
qed

lemma keeps_atomic_write [keeps_intros]:
  assumes "q \<noteq> path_join dir rel" "\<not> is_temp q"
  shows "keeps q (atomic_write dir rel c)"
proof -
  have "q \<noteq> temp_path s d" for s d using assms(2) by auto
  then have "keeps q (io_bind (io_get (\<lambda>s. temp_path s d)) (\<lambda>tmp. write_via tmp d c))"
    if "q \<noteq> d" for d
    unfolding keeps_def io_bind_get
    using that keeps_write_via[of q _ d c] by (auto simp: keeps_def)
  then show ?thesis
    unfolding atomic_write_via Let_def
    by (rule keeps_bind[OF keeps_sys_io[OF file_at_create_dir_all]]) (use assms(1) in auto)
qed

end
