(* ===== verification/Interfaces.thy ===== *)
theory Interfaces
  imports Effects
begin

text \<open>
  The contracts the components rely on, as locales. \<open>atomic_store\<close> is what the file helpers
  promise their callers: a write either takes effect completely or not at all, and touches nothing
  else. \<open>codec\<close> is a printer with a parser that inverts it; \<open>coded_store\<close> puts the two
  together, which is what every state file of the program is. \<open>env_service\<close> is the contract of
  the \<open>StateOps\<close> trait: an activation environment that can be read, extended and cut down.
  The components interpret these locales on their own definitions.
\<close>

section \<open>Atomic stores\<close>

locale atomic_store =
  fixes store :: "'k \<Rightarrow> 'v \<Rightarrow> ('w, unit) io"
    and fetch :: "'w \<Rightarrow> 'p \<Rightarrow> 'v option"
    and loc :: "'k \<Rightarrow> 'p"
    and shadow :: "'p \<Rightarrow> bool"
  assumes store_ok: "store k v w = (Inr u, w') \<Longrightarrow> fetch w' (loc k) = Some v"
    and store_err: "store k v w = (Inl e, w') \<Longrightarrow> fetch w' (loc k) = fetch w (loc k)"
    and store_frame: "p \<noteq> loc k \<Longrightarrow> \<not> shadow p \<Longrightarrow> fetch (snd (store k v w)) p = fetch w p"
begin

lemma store_old_or_new:
  assumes "store k v w = (r, w')"
  shows "fetch w' (loc k) = fetch w (loc k) \<or> fetch w' (loc k) = Some v"
  using assms store_ok store_err by (cases r) blast+

lemma store_frame_run:
  "store k v w = (r, w') \<Longrightarrow> p \<noteq> loc k \<Longrightarrow> \<not> shadow p \<Longrightarrow> fetch w' p = fetch w p"
  by (metis store_frame snd_conv)

text \<open>A batch of writes that stops at the first failure.\<close>

lemma batch_frame:
  assumes "io_each (\<lambda>q. store (fst q) (snd q)) kvs w = (r, w')"
    and "p \<notin> loc ` fst ` set kvs" "\<not> shadow p"
  shows "fetch w' p = fetch w p"
  using assms
proof (induction kvs arbitrary: w)
  case (Cons q kvs)
  obtain r1 w1 where st: "store (fst q) (snd q) w = (r1, w1)"
    by (cases "store (fst q) (snd q) w")
  have w1: "fetch w1 p = fetch w p"
    by (rule store_frame_run[OF st]) (use Cons.prems in auto)
  show ?case
  proof (cases r1)
    case (Inl e)
    with Cons.prems st w1 show ?thesis by (simp add: io_bind_def)
  next
    case (Inr u)
    with Cons.prems st have "io_each (\<lambda>q. store (fst q) (snd q)) kvs w1 = (r, w')"
      by (simp add: io_bind_def)
    from Cons.IH[OF this] Cons.prems w1 show ?thesis by simp
  qed
qed simp

lemma batch_ok:
  assumes "io_each (\<lambda>q. store (fst q) (snd q)) kvs w = (Inr u, w')"
    and "distinct (map (loc \<circ> fst) kvs)" "\<forall>q\<in>set kvs. \<not> shadow (loc (fst q))"
    and "(k, v) \<in> set kvs"
  shows "fetch w' (loc k) = Some v"
  using assms
proof (induction kvs arbitrary: w)
  case (Cons q kvs)
  from Cons.prems(1) obtain u1 w1
    where st: "store (fst q) (snd q) w = (Inr u1, w1)"
      and rest: "io_each (\<lambda>q. store (fst q) (snd q)) kvs w1 = (Inr u, w')"
    by (auto simp: io_bind_Inr_iff)
  show ?case
  proof (cases "(k, v) = q")
    case True
    then have "fetch w1 (loc k) = Some v" using store_ok st by force
    moreover have "fetch w' (loc k) = fetch w1 (loc k)"
      by (rule batch_frame[OF rest]) (use Cons.prems True in force)+
    ultimately show ?thesis by simp
  next
    case False
    with Cons rest show ?thesis by auto
  qed
qed simp

end

section \<open>Codecs\<close>

locale codec =
  fixes enc :: "'a \<Rightarrow> 's"
    and dec :: "'s \<Rightarrow> 'a"
    and good :: "'a \<Rightarrow> bool"
  assumes dec_enc: "good x \<Longrightarrow> dec (enc x) = x"
begin

lemma enc_inj: "good x \<Longrightarrow> good y \<Longrightarrow> enc x = enc y \<Longrightarrow> x = y"
  by (metis dec_enc)

end

locale coded_store = atomic_store store fetch loc shadow + codec enc dec good
  for store :: "'k \<Rightarrow> 's \<Rightarrow> ('w, unit) io"
    and fetch :: "'w \<Rightarrow> 'p \<Rightarrow> 's option"
    and loc :: "'k \<Rightarrow> 'p"
    and shadow :: "'p \<Rightarrow> bool"
    and enc :: "'a \<Rightarrow> 's"
    and dec :: "'s \<Rightarrow> 'a"
    and good :: "'a \<Rightarrow> bool"
begin

lemma save_load:
  "good x \<Longrightarrow> store k (enc x) w = (Inr u, w') \<Longrightarrow> map_option dec (fetch w' (loc k)) = Some x"
  by (simp add: store_ok dec_enc)

lemma save_failed:
  "store k (enc x) w = (Inl e, w') \<Longrightarrow>
   map_option dec (fetch w' (loc k)) = map_option dec (fetch w (loc k))"
  by (simp add: store_err)

end

section \<open>Activation environments\<close>

locale env_service =
  fixes vars :: "('b, env) io"
    and set_vars :: "env \<Rightarrow> ('b, unit) io"
    and unset_vars :: "string list \<Rightarrow> ('b, unit) io"
    and value_of :: "'b \<Rightarrow> string \<Rightarrow> string option"
    and visible :: "string \<Rightarrow> bool"
  assumes vars_read: "vars b = (Inr m, b') \<Longrightarrow>
      bm_wf m \<and> (\<forall>k. bm_get m k = (if visible k then value_of b k else None)) \<and>
      value_of b' = value_of b"
    and vars_fail: "vars b = (Inl e, b') \<Longrightarrow> value_of b' = value_of b"
    and set_vars_ok: "bm_wf m \<Longrightarrow> \<forall>k. bm_get m k \<noteq> None \<longrightarrow> visible k \<Longrightarrow>
      set_vars m b = (Inr u, b') \<Longrightarrow>
      value_of b' k = (case bm_get m k of Some v \<Rightarrow> Some v | None \<Rightarrow> value_of b k)"
    and unset_vars_ok: "\<forall>n\<in>set ns. visible n \<Longrightarrow> unset_vars ns b = (Inr u, b') \<Longrightarrow>
      value_of b' k = (if k \<in> set ns then None else value_of b k)"
    and set_vars_any: "bm_wf m \<Longrightarrow> \<forall>k. bm_get m k \<noteq> None \<longrightarrow> visible k \<Longrightarrow>
      set_vars m b = (r, b') \<Longrightarrow>
      value_of b' k = value_of b k \<or> (\<exists>v. bm_get m k = Some v \<and> value_of b' k = Some v)"
    and unset_vars_any: "\<forall>n\<in>set ns. visible n \<Longrightarrow> unset_vars ns b = (r, b') \<Longrightarrow>
      value_of b' k = value_of b k \<or> k \<in> set ns"
begin

text \<open>Unsetting some names and then restoring a snapshot puts every name of the snapshot back and
  clears every unset name outside it.\<close>

lemma unset_then_set:
  assumes "unset_vars ns b = (Inr u, b1)" "\<forall>n\<in>set ns. visible n"
    and "set_vars pre b1 = (Inr u', b2)" "bm_wf pre" "\<forall>k. bm_get pre k \<noteq> None \<longrightarrow> visible k"
  shows "value_of b2 k =
    (case bm_get pre k of Some v \<Rightarrow> Some v
     | None \<Rightarrow> if k \<in> set ns then None else value_of b k)"
  using set_vars_ok[OF assms(4,5,3)] unset_vars_ok[OF assms(2,1)] by (simp split: option.split)

end

end
