(* ===== verification/EnvFiles.thy ===== *)
theory EnvFiles
  imports Names Fs Interfaces
begin

text \<open>
  Environment snapshots and the cleanup list: src/env/files.rs, and the loader's output,
  src/env/dump.rs. The formats are proved readable: what \<open>serialize_env\<close> and
  \<open>write_cleanup_entries\<close> write, \<open>parse_env_nul\<close> and \<open>read_cleanup_entries\<close> read
  back. Both are interpreted as codecs, and together with the atomic write of theory \<open>Fs\<close> as
  coded stores.
\<close>

section \<open>The atomic write as a store\<close>

text \<open>A key is a directory and a name in it.\<close>

definition disk_store :: "string \<times> string \<Rightarrow> string \<Rightarrow> (fs, unit) io" where
  "disk_store k c = atomic_write (fst k) (snd k) c"

definition disk_loc :: "string \<times> string \<Rightarrow> string" where
  "disk_loc k = path_join (fst k) (snd k)"

interpretation disk: atomic_store disk_store file_at disk_loc is_temp
proof unfold_locales
  fix k v w u w'
  assume "disk_store k v w = (Inr u, w')"
  then show "file_at w' (disk_loc k) = Some v"
    using atomic_write_dest by (fastforce simp: disk_store_def disk_loc_def)
next
  fix k v w e w'
  assume "disk_store k v w = (Inl e, w')"
  then show "file_at w' (disk_loc k) = file_at w (disk_loc k)"
    using atomic_write_dest by (fastforce simp: disk_store_def disk_loc_def)
next
  fix p k v w
  assume "p \<noteq> disk_loc k" "\<not> is_temp p"
  then have "keeps p (disk_store k v)"
    by (simp add: disk_store_def disk_loc_def keeps_atomic_write)
  then show "file_at (snd (disk_store k v w)) p = file_at w p" by (simp add: keeps_def)
qed

lemma atomic_write_path_join:
  assumes "plain_name n" "d \<noteq> []" "last d \<noteq> SLASH"
  shows "atomic_write_path (path_join d n) c = disk_store (d, n) c"
  using assms
  by (simp add: atomic_write_path_def disk_store_def path_parent_join path_file_name_join)

section \<open>src/env/files.rs: environments\<close>

datatype sep = Nul | Newline

definition sep_ch :: "sep \<Rightarrow> char" where
  "sep_ch s = (case s of Nul \<Rightarrow> NUL | Newline \<Rightarrow> NL)"

fun serialize_loop :: "char \<Rightarrow> bool \<Rightarrow> string \<Rightarrow> env \<Rightarrow> string" where
  "serialize_loop s first out [] = out"
| "serialize_loop s first out ((k, v) # m) =
     (if \<not> keep_name k then serialize_loop s first out m
      else serialize_loop s False ((if first then out else out @ [s]) @ k @ ''='' @ v) m)"

definition serialize_env :: "env \<Rightarrow> sep \<Rightarrow> string" where
  "serialize_env m sep =
     (let out = serialize_loop (sep_ch sep) True [] m
      in if sep = Newline \<and> out \<noteq> [] then out @ [NL] else out)"

definition save_env :: "string \<Rightarrow> env \<Rightarrow> sep \<Rightarrow> (fs, unit) io" where
  "save_env path m sep = atomic_write_path path (serialize_env m sep)"

fun parse_chunks :: "env \<Rightarrow> string list \<Rightarrow> env" where
  "parse_chunks m [] = m"
| "parse_chunks m (chunk # chunks) =
     parse_chunks
       (if chunk = [] then m
        else (case split_once (CHR ''='') chunk of
                Some (k, v) \<Rightarrow> if keep_name k then bm_insert k v m else m
              | None \<Rightarrow> m))
       chunks"

definition parse_env_nul :: "string \<Rightarrow> env" where
  "parse_env_nul data = parse_chunks [] (split_on NUL data)"

definition load_env :: "fs \<Rightarrow> string \<Rightarrow> env result" where
  "load_env s path =
     (case std_read s path of
        Inr c \<Rightarrow> Inr (parse_env_nul c)
      | Inl e \<Rightarrow> if e = IoNotFound then Inr [] else Inl (Io path e))"

text \<open>What the loop builds.\<close>

definition assignment :: "string \<times> string \<Rightarrow> string" where
  "assignment p = fst p @ ''='' @ snd p"

lemma serialize_loop_more:
  "serialize_loop s False out m =
     out @ concat (map (\<lambda>p. s # assignment p) (filter (\<lambda>p. keep_name (fst p)) m))"
  by (induction m arbitrary: out) (auto simp: assignment_def)

lemma join_with_Cons: "join_with sep (w # ws) = w @ concat (map (\<lambda>v. sep @ v) ws)"
  by (induction ws arbitrary: w) auto

lemma serialize_loop_join:
  "serialize_loop s True [] m =
     join_with [s] (map assignment (filter (\<lambda>p. keep_name (fst p)) m))"
proof (induction m)
  case (Cons p m)
  obtain k v where p: "p = (k, v)" by (cases p)
  show ?case
  proof (cases "keep_name k")
    case True
    then show ?thesis
      by (simp add: p serialize_loop_more join_with_Cons assignment_def comp_def)
  next
    case False
    with Cons.IH show ?thesis by (simp add: p)
  qed
qed simp

lemma bm_wf_parse_chunks [simp]: "bm_wf m \<Longrightarrow> bm_wf (parse_chunks m cs)"
  by (induction cs arbitrary: m) (auto split: option.splits)

lemma bm_wf_parse_env_nul [simp]: "bm_wf (parse_env_nul d)"
  by (simp add: parse_env_nul_def)

lemma parse_chunks_kept:
  "bm_wf m \<Longrightarrow> \<forall>k. bm_get m k \<noteq> None \<longrightarrow> keep_name k \<Longrightarrow> bm_get (parse_chunks m cs) k \<noteq> None \<Longrightarrow>
   keep_name k"
proof (induction cs arbitrary: m)
  case (Cons c cs)
  let ?m = "if c = [] then m
    else (case split_once (CHR ''='') c of
            Some (k, v) \<Rightarrow> if keep_name k then bm_insert k v m else m
          | None \<Rightarrow> m)"
  have "bm_wf ?m" using Cons.prems(1) by (simp split: option.split)
  moreover have "\<forall>k. bm_get ?m k \<noteq> None \<longrightarrow> keep_name k"
    using Cons.prems(1,2) by (auto simp: bm_get_insert split: option.splits if_splits)
  ultimately show ?case using Cons.IH[of ?m] Cons.prems(3) by simp
qed auto

lemma parse_env_nul_kept: "bm_get (parse_env_nul d) k \<noteq> None \<Longrightarrow> keep_name k"
  using parse_chunks_kept[of "[]" "split_on NUL d" k] by (simp add: parse_env_nul_def)

lemma parse_chunks_assignments:
  assumes "\<forall>p\<in>set ps. keep_name (fst p)"
  shows "parse_chunks m (map assignment ps) = bm_extend m ps"
  using assms
proof (induction ps arbitrary: m)
  case (Cons p ps)
  obtain k v where p: "p = (k, v)" by (cases p)
  have "CHR ''='' \<notin> set k" using Cons.prems keep_name_absent p by auto
  then have "split_once (CHR ''='') (k @ CHR ''='' # v) = Some (k, v)"
    by (simp add: str_simps)
  with Cons show ?case by (simp add: assignment_def p)
qed simp

text \<open>Values that the NUL-separated format can carry.\<close>

definition nul_free :: "env \<Rightarrow> bool" where
  "nul_free m \<longleftrightarrow> (\<forall>p\<in>set m. NUL \<notin> set (snd p))"

lemma split_assignments:
  assumes "\<forall>p\<in>set ps. keep_name (fst p) \<and> NUL \<notin> set (snd p)" "ps \<noteq> []"
  shows "split_on NUL (join_with [NUL] (map assignment ps)) = map assignment ps"
  using assms keep_name_absent
  by (intro split_on_join_with) (fastforce simp: assignment_def)+

lemma parse_serialize_env:
  assumes "bm_wf m" "nul_free m"
  shows "parse_env_nul (serialize_env m Nul) = filter_map m"
proof -
  let ?ps = "filter (\<lambda>p. keep_name (fst p)) m"
  have s: "serialize_env m Nul = join_with [NUL] (map assignment ?ps)"
    by (simp add: serialize_env_def serialize_loop_join sep_ch_def)
  show ?thesis
  proof (cases "?ps = []")
    case True
    with assms show ?thesis
      by (simp add: s parse_env_nul_def filter_map_eq)
  next
    case False
    have "split_on NUL (serialize_env m Nul) = map assignment ?ps"
      unfolding s by (rule split_assignments) (use assms False in \<open>auto simp: nul_free_def\<close>)
    then have "parse_env_nul (serialize_env m Nul) = bm_of_list ?ps"
      by (simp add: parse_env_nul_def parse_chunks_assignments bm_of_list_def)
    then show ?thesis by (simp add: filter_map_def)
  qed
qed

definition plain_env :: "env \<Rightarrow> bool" where
  "plain_env m \<longleftrightarrow> bm_wf m \<and> nul_free m \<and> (\<forall>p\<in>set m. keep_name (fst p))"

lemma filter_map_plain: "plain_env m \<Longrightarrow> filter_map m = m"
  by (auto simp: plain_env_def filter_map_eq filter_id_conv)

interpretation env_codec: codec "\<lambda>m. serialize_env m Nul" parse_env_nul plain_env
  by unfold_locales (simp add: parse_serialize_env filter_map_plain plain_env_def[THEN iffD1])

interpretation env_file: coded_store disk_store file_at disk_loc is_temp
  "\<lambda>m. serialize_env m Nul" parse_env_nul plain_env
  ..

section \<open>src/env/files.rs: the cleanup list\<close>

datatype cleanup_entry = CleanupEntry (ce_generation: string) (ce_name: string)

text \<open>The derived order: by generation, then by name.\<close>

instantiation cleanup_entry :: linorder
begin

definition less_cleanup_entry :: "cleanup_entry \<Rightarrow> cleanup_entry \<Rightarrow> bool" where
  "less_cleanup_entry a b \<longleftrightarrow>
     ce_generation a < ce_generation b \<or>
     ce_generation a = ce_generation b \<and> ce_name a < ce_name b"

definition less_eq_cleanup_entry :: "cleanup_entry \<Rightarrow> cleanup_entry \<Rightarrow> bool" where
  "less_eq_cleanup_entry a b \<longleftrightarrow> a < b \<or> a = (b :: cleanup_entry)"

instance
proof
  fix x y :: cleanup_entry
  show "x \<le> y \<or> y \<le> x"
    by (rule linorder_cases[of "ce_generation x" "ce_generation y"];
        rule linorder_cases[of "ce_name x" "ce_name y"])
       (auto simp: less_cleanup_entry_def less_eq_cleanup_entry_def cleanup_entry.expand)
qed (auto simp: less_cleanup_entry_def less_eq_cleanup_entry_def cleanup_entry.expand)

end

definition parse_cleanup_line :: "string \<Rightarrow> cleanup_entry option" where
  "parse_cleanup_line l =
     (case split_once (CHR '' '') l of
        None \<Rightarrow> None
      | Some (generation, name) \<Rightarrow>
          if generation \<noteq> [] \<and> keep_name name then Some (CleanupEntry generation name) else None)"

definition parse_cleanup :: "string \<Rightarrow> cleanup_entry list" where
  "parse_cleanup s = bs_of_list (List.map_filter parse_cleanup_line (lines s))"

definition read_cleanup_entries :: "fs \<Rightarrow> string \<Rightarrow> cleanup_entry list result" where
  "read_cleanup_entries s path =
     (case std_read s path of
        Inr c \<Rightarrow> Inr (parse_cleanup c)
      | Inl e \<Rightarrow> if e = IoNotFound then Inr [] else Inl (Io path e))"

definition cleanup_body :: "cleanup_entry list \<Rightarrow> string" where
  "cleanup_body entries =
     concat (map (\<lambda>e. ce_generation e @ '' '' @ ce_name e @ [NL]) entries)"

definition write_cleanup_entries :: "string \<Rightarrow> cleanup_entry list \<Rightarrow> (fs, unit) io" where
  "write_cleanup_entries path entries = atomic_write_path path (cleanup_body entries)"

text \<open>Generation identifiers the line format can carry.\<close>

definition gen_ok :: "string \<Rightarrow> bool" where
  "gen_ok g \<longleftrightarrow> g \<noteq> [] \<and> CHR '' '' \<notin> set g \<and> NL \<notin> set g"

definition cleanup_ok :: "cleanup_entry list \<Rightarrow> bool" where
  "cleanup_ok es \<longleftrightarrow> bs_wf es \<and> (\<forall>e\<in>set es. gen_ok (ce_generation e) \<and> keep_name (ce_name e))"

lemma parse_cleanup_line_print:
  assumes "gen_ok (ce_generation e)" "keep_name (ce_name e)"
  shows "parse_cleanup_line (strip_cr (ce_generation e @ '' '' @ ce_name e)) = Some e"
proof -
  have "CR \<notin> set (ce_name e)" using assms(2) keep_name_absent by auto
  then have "strip_cr (ce_generation e @ '' '' @ ce_name e) = ce_generation e @ '' '' @ ce_name e"
    by (cases "ce_name e" rule: rev_cases) (auto simp: strip_cr_def)
  moreover have "split_once (CHR '' '') (ce_generation e @ CHR '' '' # ce_name e) =
      Some (ce_generation e, ce_name e)"
    using assms(1) by (simp add: gen_ok_def str_simps)
  ultimately show ?thesis using assms by (simp add: parse_cleanup_line_def gen_ok_def)
qed

lemma parse_cleanup_print:
  assumes "\<forall>e\<in>set es. gen_ok (ce_generation e) \<and> keep_name (ce_name e)"
  shows "parse_cleanup (cleanup_body es) = bs_of_list es"
proof -
  have b: "cleanup_body es = unlines (map (\<lambda>e. ce_generation e @ '' '' @ ce_name e) es)"
    by (simp add: cleanup_body_def unlines_def comp_def)
  have "\<forall>l\<in>set (map (\<lambda>e. ce_generation e @ '' '' @ ce_name e) es). NL \<notin> set l"
    using assms keep_name_absent by (fastforce simp: gen_ok_def)
  then have l: "lines (cleanup_body es) =
      map (\<lambda>e. strip_cr (ce_generation e @ '' '' @ ce_name e)) es"
    unfolding b by (subst lines_unlines) (simp_all add: comp_def)
  have "List.map_filter parse_cleanup_line
      (map (\<lambda>e. strip_cr (ce_generation e @ '' '' @ ce_name e)) es) = es"
    using assms
  proof (induction es)
    case (Cons e es)
    then show ?case
      using parse_cleanup_line_print[of e] by (simp add: map_filter_def)
  qed (simp add: map_filter_def)
  then show ?thesis by (simp add: parse_cleanup_def l)
qed

text \<open>Whatever a file holds, what is read from it is a set of well-named entries.\<close>

lemma parse_cleanup_line_sound:
  "parse_cleanup_line l = Some e \<Longrightarrow> ce_generation e \<noteq> [] \<and> keep_name (ce_name e)"
  by (auto simp: parse_cleanup_line_def split: option.splits prod.splits if_splits)

lemma bs_wf_parse_cleanup [simp]: "bs_wf (parse_cleanup s)"
  by (simp add: parse_cleanup_def)

lemma parse_cleanup_sound:
  "e \<in> set (parse_cleanup s) \<Longrightarrow> ce_generation e \<noteq> [] \<and> keep_name (ce_name e)"
  using parse_cleanup_line_sound
  by (fastforce simp: parse_cleanup_def map_filter_def)

interpretation cleanup_codec: codec cleanup_body parse_cleanup cleanup_ok
  by unfold_locales (simp add: cleanup_ok_def parse_cleanup_print bs_of_list_id)

interpretation cleanup_file: coded_store disk_store file_at disk_loc is_temp
  cleanup_body parse_cleanup cleanup_ok
  ..

section \<open>src/env/dump.rs\<close>

record shell_dump =
  sd_messages :: string
  sd_env :: env

definition trim_end_nul :: "string \<Rightarrow> string" where
  "trim_end_nul s = rev (dropWhile (\<lambda>c. c = NUL) (rev s))"

definition parse_shell_dump :: "string \<Rightarrow> string \<Rightarrow> shell_dump result" where
  "parse_shell_dump stdout mark =
     (case find_str mark stdout of
        None \<Rightarrow>
          Inl (Resolve (''env output mark \"'' @ mark @ ''\" not found in shell output''))
      | Some (messages, after) \<Rightarrow>
          Inr \<lparr>sd_messages = messages, sd_env = parse_env_nul (trim_end_nul after)\<rparr>)"

text \<open>\<open>env -0\<close> ends every assignment with a NUL byte.\<close>

definition env0 :: "env \<Rightarrow> string" where
  "env0 m = concat (map (\<lambda>p. assignment p @ [NUL]) m)"

lemma env0_join:
  "m \<noteq> [] \<Longrightarrow> env0 m = join_with [NUL] (map assignment m) @ [NUL]"
proof (induction m)
  case (Cons p m)
  then show ?case by (cases m) (simp_all add: env0_def)
qed simp

lemma trim_end_nul_id: "s \<noteq> [] \<Longrightarrow> last s \<noteq> NUL \<Longrightarrow> trim_end_nul s = s"
  by (cases s rule: rev_cases) (auto simp: trim_end_nul_def)

lemma trim_end_nul_snoc [simp]: "trim_end_nul (s @ [NUL]) = trim_end_nul s"
  by (simp add: trim_end_nul_def)

lemma join_with_last:
  "ws \<noteq> [] \<Longrightarrow> last ws \<noteq> [] \<Longrightarrow> join_with sep ws \<noteq> [] \<and> last (join_with sep ws) = last (last ws)"
proof (induction ws)
  case (Cons w ws)
  then show ?case by (cases ws) auto
qed simp

lemma parse_env0:
  assumes "\<forall>p\<in>set m. keep_name (fst p) \<and> NUL \<notin> set (snd p)"
  shows "parse_env_nul (trim_end_nul (env0 m)) = bm_of_list m"
proof (cases "m = []")
  case True
  then show ?thesis by (simp add: env0_def trim_end_nul_def parse_env_nul_def bm_of_list_def)
next
  case False
  then have "last m \<in> set m" by simp
  with assms have "NUL \<notin> set (assignment (last m))"
    using keep_name_absent by (auto simp: assignment_def)
  moreover have "assignment (last m) \<noteq> []" by (simp add: assignment_def)
  ultimately have "last (assignment (last m)) \<noteq> NUL" using last_in_set by metis
  then have "trim_end_nul (env0 m) = join_with [NUL] (map assignment m)"
    using False join_with_last[of "map assignment m" "[NUL]"]
    by (simp add: env0_join last_map trim_end_nul_id assignment_def)
  with assms False show ?thesis
    by (simp add: parse_env_nul_def split_assignments parse_chunks_assignments bm_of_list_def)
qed

end
