(* ===== verification/World.thy ===== *)
theory World
  imports EnvFiles
begin

text \<open>
  What a process of the program can see and change: the file system, its own environment, the random
  device, what it printed, and everything else as a value of type \<open>'b\<close> (systemd, the D-Bus
  daemons, logind, the clock, other processes), which only the operations given as parameters
  change. \<open>on_fs\<close> and \<open>on_bus\<close> lift operations on a part to the whole.
\<close>

record 'b world =
  w_fs :: fs
  w_bus :: 'b
  w_env :: env
  w_urandom :: "nat \<Rightarrow> string option"
  w_draws :: nat
  w_out :: "string list"

definition on_fs :: "(fs, 'a) io \<Rightarrow> ('b world, 'a) io" where
  "on_fs m w = (case m (w_fs w) of (r, s) \<Rightarrow> (r, w\<lparr>w_fs := s\<rparr>))"

definition on_bus :: "('b, 'a) io \<Rightarrow> ('b world, 'a) io" where
  "on_bus m w = (case m (w_bus w) of (r, b) \<Rightarrow> (r, w\<lparr>w_bus := b\<rparr>))"

text \<open>Reading the file system and the environment.\<close>

definition ask_fs :: "(fs \<Rightarrow> 'a result) \<Rightarrow> ('b world, 'a) io" where
  "ask_fs f w = (f (w_fs w), w)"

definition ask_env :: "(env \<Rightarrow> 'a result) \<Rightarrow> ('b world, 'a) io" where
  "ask_env f w = (f (w_env w), w)"

definition print :: "string \<Rightarrow> ('b world, unit) io" where
  "print l w = (Inr (), w\<lparr>w_out := w_out w @ [l]\<rparr>)"

lemma on_fs_iff:
  "on_fs m w = (r, w') \<longleftrightarrow> (\<exists>s. m (w_fs w) = (r, s) \<and> w' = w\<lparr>w_fs := s\<rparr>)"
  by (auto simp: on_fs_def split: prod.splits)

lemma on_bus_iff:
  "on_bus m w = (r, w') \<longleftrightarrow> (\<exists>b. m (w_bus w) = (r, b) \<and> w' = w\<lparr>w_bus := b\<rparr>)"
  by (auto simp: on_bus_def split: prod.splits)

lemma on_bus_bind: "on_bus (io_bind m f) = io_bind (on_bus m) (\<lambda>x. on_bus (f x))"
  by (rule ext) (simp add: on_bus_def io_bind_def split: prod.split sum.split)

lemma on_bus_return: "on_bus (io_return x) = io_return x"
  by (rule ext) (simp add: on_bus_def)

lemma on_bus_if: "on_bus (if c then m else n) = (if c then on_bus m else on_bus n)"
  by simp

lemma io_bind_ask_fs: "io_bind (ask_fs f) g w = (case f (w_fs w) of Inl e \<Rightarrow> (Inl e, w) | Inr x \<Rightarrow> g x w)"
  by (simp add: io_bind_def ask_fs_def split: sum.split)

lemma io_bind_ask_env:
  "io_bind (ask_env f) g w = (case f (w_env w) of Inl e \<Rightarrow> (Inl e, w) | Inr x \<Rightarrow> g x w)"
  by (simp add: io_bind_def ask_env_def split: sum.split)

lemma on_fs_bind: "on_fs (io_bind m f) = io_bind (on_fs m) (\<lambda>x. on_fs (f x))"
  by (rule ext) (simp add: on_fs_def io_bind_def split: prod.split sum.split)

lemma on_fs_return: "on_fs (io_return x) = io_return x"
  by (rule ext) (simp add: on_fs_def)

lemma ask_simps [simp, io_simps]:
  "ask_fs f w = (f (w_fs w), w)"
  "ask_env g w = (g (w_env w), w)"
  "print l w = (Inr (), w\<lparr>w_out := w_out w @ [l]\<rparr>)"
  by (simp_all add: ask_fs_def ask_env_def print_def)

section \<open>Invariance\<close>

text \<open>\<open>stable f m\<close>: \<open>m\<close> leaves the part \<open>f\<close> of the state alone, however it ends.\<close>

definition stable :: "('w \<Rightarrow> 'x) \<Rightarrow> ('w, 'a) io \<Rightarrow> bool" where
  "stable f m \<longleftrightarrow> (\<forall>w. f (snd (m w)) = f w)"

named_theorems stable_intros

lemma stableD: "stable f m \<Longrightarrow> m w = (r, w') \<Longrightarrow> f w' = f w"
  unfolding stable_def by (metis snd_conv)

lemma stable_snd: "stable f m \<Longrightarrow> f (snd (m w)) = f w"
  by (simp add: stable_def)

lemma stable_pure [stable_intros]:
  "stable f (io_return x)" "stable f (io_fail e)" "stable f (io_lift r)" "stable f (io_get g)"
  by (simp_all add: stable_def)

lemma stable_ask [stable_intros]: "stable f (ask_fs h)" "stable f (ask_env k)"
  by (simp_all add: stable_def)

lemma stable_bind [stable_intros]:
  assumes "stable f m" "\<And>x. stable f (g x)"
  shows "stable f (io_bind m g)"
  unfolding stable_def
proof
  fix w
  obtain r w' where m: "m w = (r, w')" by (cases "m w")
  with assms(1) have "f w' = f w" by (rule stableD)
  with m assms(2) show "f (snd (io_bind m g w)) = f w"
    by (cases r) (auto simp: io_bind_def stable_def)
qed

lemma stable_try [stable_intros]: "stable f m \<Longrightarrow> stable f (io_try m)"
  by (auto simp: stable_def io_try_def split: prod.split) (metis snd_conv)

lemma stable_when [stable_intros]: "stable f m \<Longrightarrow> stable f (io_when b m)"
  by (simp add: io_when_def stable_pure)

lemma stable_if [stable_intros]: "stable f m \<Longrightarrow> stable f n \<Longrightarrow> stable f (if b then m else n)"
  by simp

lemma stable_case_option [stable_intros]:
  "stable f m \<Longrightarrow> (\<And>x. stable f (g x)) \<Longrightarrow> stable f (case x of None \<Rightarrow> m | Some y \<Rightarrow> g y)"
  by (cases x) auto

lemma stable_case_sum [stable_intros]:
  "(\<And>e. stable f (g e)) \<Longrightarrow> (\<And>x. stable f (h x)) \<Longrightarrow>
   stable f (case r of Inl e \<Rightarrow> g e | Inr x \<Rightarrow> h x)"
  by (cases r) auto

lemma stable_each [stable_intros]:
  "(\<And>x. x \<in> set xs \<Longrightarrow> stable f (g x)) \<Longrightarrow> stable f (io_each g xs)"
  by (induction xs) (auto intro!: stable_intros)

lemma stable_bus_on_fs [stable_intros]: "stable w_bus (on_fs m)"
  by (simp add: stable_def on_fs_def split: prod.split)

lemma stable_env_on_fs [stable_intros]: "stable w_env (on_fs m)"
  by (simp add: stable_def on_fs_def split: prod.split)

lemma stable_fs_on_bus [stable_intros]: "stable w_fs (on_bus m)"
  by (simp add: stable_def on_bus_def split: prod.split)

lemma stable_env_on_bus [stable_intros]: "stable w_env (on_bus m)"
  by (simp add: stable_def on_bus_def split: prod.split)

definition wfile :: "string \<Rightarrow> 'b world \<Rightarrow> string option" where
  "wfile p w = file_at (w_fs w) p"

lemma stable_wfile_on_fs [stable_intros]: "keeps p m \<Longrightarrow> stable (wfile p) (on_fs m)"
  by (auto simp: stable_def wfile_def on_fs_def keeps_def split: prod.split) (metis snd_conv)

lemma stable_wfile_on_bus [stable_intros]: "stable (wfile p) (on_bus m)"
  by (simp add: stable_def wfile_def on_bus_def split: prod.split)

text \<open>Parts of the file system.\<close>

lemma stable_sys_io: "(\<And>s. f (snd (m s)) = f s) \<Longrightarrow> stable f (sys_io p m)"
  unfolding stable_def
proof
  fix s
  assume *: "\<And>s. f (snd (m s)) = f s"
  obtain r s' where "m s = (r, s')" by (cases "m s")
  with *[of s] show "f (snd (sys_io p m s)) = f s" by (cases r) (simp_all add: sys_io_def)
qed

lemma stable_sys_ignore: "(\<And>s. f (snd (m s)) = f s) \<Longrightarrow> stable f (sys_ignore m)"
  by (simp add: stable_def sys_ignore_def)

lemma stable_on_fs: "stable f m \<Longrightarrow> stable (\<lambda>w. f (w_fs w)) (on_fs m)"
  by (auto simp: stable_def on_fs_def split: prod.split) (metis snd_conv)

lemma keeps_stable: "keeps p m \<longleftrightarrow> stable (\<lambda>s. file_at s p) m"
  by (simp add: keeps_def stable_def)

lemma rfail_sys [simp]:
  "fs_rfail (snd (std_create_dir_all p s)) = fs_rfail s"
  "fs_rfail (snd (std_create p s)) = fs_rfail s"
  "fs_rfail (snd (std_write_all p c s)) = fs_rfail s"
  "fs_rfail (snd (std_sync p s)) = fs_rfail s"
  "fs_rfail (snd (std_rename p q s)) = fs_rfail s"
  "fs_rfail (snd (std_remove_file p s)) = fs_rfail s"
  "fs_rfail (snd (std_remove_dir p s)) = fs_rfail s"
  "fs_rfail (snd (std_remove_dir_all p s)) = fs_rfail s"
  "fs_rfail (snd (std_set_mode p n s)) = fs_rfail s"
  "fs_rfail (snd (std_open_create p s)) = fs_rfail s"
  "fs_rfail (snd (std_flock p s)) = fs_rfail s"
  by (simp_all add: sys_call_def Let_def put_file_def del_file_def std_create_dir_all_def
      std_create_def std_write_all_def std_sync_def std_rename_def std_remove_file_def
      std_remove_dir_def std_remove_dir_all_def std_set_mode_def std_open_create_def std_flock_def
      split: option.split prod.split)

lemma faults_sys [simp]:
  "fs_faults (snd (std_create_dir_all p s)) = fs_faults s"
  "fs_faults (snd (std_create p s)) = fs_faults s"
  "fs_faults (snd (std_write_all p c s)) = fs_faults s"
  "fs_faults (snd (std_sync p s)) = fs_faults s"
  "fs_faults (snd (std_rename p q s)) = fs_faults s"
  "fs_faults (snd (std_remove_file p s)) = fs_faults s"
  "fs_faults (snd (std_remove_dir p s)) = fs_faults s"
  by (simp_all add: sys_call_def Let_def put_file_def del_file_def std_create_dir_all_def
      std_create_def std_write_all_def std_sync_def std_rename_def std_remove_file_def
      std_remove_dir_def split: option.split prod.split)

lemma calls_sys [simp]:
  "fs_calls (snd (std_create_dir_all p s)) = Suc (fs_calls s)"
  "fs_calls (snd (std_create p s)) = Suc (fs_calls s)"
  "fs_calls (snd (std_write_all p c s)) = Suc (fs_calls s)"
  "fs_calls (snd (std_sync p s)) = Suc (fs_calls s)"
  "fs_calls (snd (std_rename p q s)) = Suc (fs_calls s)"
  "fs_calls (snd (std_remove_file p s)) = Suc (fs_calls s)"
  "fs_calls (snd (std_remove_dir p s)) = Suc (fs_calls s)"
  by (simp_all add: sys_call_def Let_def put_file_def del_file_def std_create_dir_all_def
      std_create_def std_write_all_def std_sync_def std_rename_def std_remove_file_def
      std_remove_dir_def split: option.split prod.split)

lemma stable_atomic_write:
  assumes "\<And>p s. f (snd (std_create_dir_all p s)) = f s" "\<And>p s. f (snd (std_create p s)) = f s"
    "\<And>p c s. f (snd (std_write_all p c s)) = f s" "\<And>p s. f (snd (std_sync p s)) = f s"
    "\<And>p q s. f (snd (std_rename p q s)) = f s" "\<And>p s. f (snd (std_remove_file p s)) = f s"
  shows "stable f (atomic_write d r c)"
proof -
  have via: "stable f (write_via t d c)" for t d
    unfolding write_via_def write_temp_def
    by (intro stable_intros stable_sys_io stable_sys_ignore assms)
  show ?thesis
    unfolding atomic_write_via Let_def by (intro stable_intros stable_sys_io via assms)
qed

lemma rfail_atomic_write: "stable fs_rfail (atomic_write d r c)"
  by (intro stable_atomic_write) simp_all

lemma faults_atomic_write: "stable fs_faults (atomic_write d r c)"
  by (intro stable_atomic_write) simp_all

lemma rfail_atomic_write_path: "stable fs_rfail (atomic_write_path p c)"
  by (simp add: atomic_write_path_def rfail_atomic_write)

section \<open>src/session/mod.rs\<close>

definition BIN_NAME :: string where
  "BIN_NAME = ''wsmr''"

definition runtime_path :: "env \<Rightarrow> string \<Rightarrow> string result" where
  "runtime_path e name =
     rbind (runtime_dir e) (\<lambda>d. Inr (path_join (path_join d BIN_NAME) name))"

end
