(* ===== verification/Bus.thy ===== *)
theory Bus
  imports World
begin

text \<open>
  The D-Bus client, src/sysd/dbus.rs. The services behind it are not part of the repository: the
  record \<open>bus_ops\<close> has one field per remote method or property the source calls, over a state
  \<open>'b\<close> that is theirs. The definitions below are the source's code around those calls: filtering
  the activation environment, the order of the two updates and what a failure in between is reported
  as, the polling loops, the search for the login session.

  What the code relies on is stated as a locale, \<open>systemd_manager\<close>, with the documented meaning of
  \<open>Environment\<close>, \<open>SetEnvironment\<close>, \<open>UnsetEnvironment\<close> and
  \<open>UpdateActivationEnvironment\<close>; from it the code's \<open>StateOps\<close> are proved to be an
  \<open>env_service\<close>. \<open>clock\<close> states the two facts about time that make the polling loops end.
\<close>

section \<open>The remote interfaces\<close>

record unit_info =
  ui_name :: string
  ui_description :: string
  ui_load_state :: string
  ui_active_state :: string
  ui_sub_state :: string
  ui_following :: string
  ui_unit_path :: string
  ui_job_id :: nat
  ui_job_type :: string
  ui_job_path :: string

record job_info =
  ji_id :: nat
  ji_unit :: string
  ji_job_type :: string
  ji_state :: string
  ji_job_path :: string
  ji_unit_path :: string

record session_info =
  si_session_id :: string
  si_uid :: nat
  si_user :: string
  si_seat :: string
  si_path :: string

text \<open>What a desktop notification is sent with; its hints are names and printed values.\<close>

record notification =
  nt_app_name :: string
  nt_replaces_id :: nat
  nt_app_icon :: string
  nt_summary :: string
  nt_body :: string
  nt_actions :: "string list"
  nt_hints :: "(string \<times> string) list"
  nt_expire_timeout :: int

type_synonym ('b, 'a) call = "'b \<Rightarrow> (zbus_error + 'a) \<times> 'b"

record 'b bus_ops =
  c_session :: "('b, unit) call"
  c_system :: "('b, unit) call"
  m_reload :: "('b, unit) call"
  m_get_unit :: "string \<Rightarrow> ('b, string) call"
  m_stop_unit :: "string \<Rightarrow> string \<Rightarrow> ('b, string) call"
  m_set_environment :: "string list \<Rightarrow> ('b, unit) call"
  m_unset_environment :: "string list \<Rightarrow> ('b, unit) call"
  m_list_units :: "string list \<Rightarrow> string list \<Rightarrow> ('b, unit_info list) call"
  m_list_jobs :: "('b, job_info list) call"
  m_environment :: "('b, string list) call"
  u_id :: "string \<Rightarrow> ('b, string) call"
  u_active_state :: "string \<Rightarrow> ('b, string) call"
  s_notify_access :: "string \<Rightarrow> ('b, string) call"
  s_timeout_start_usec :: "string \<Rightarrow> ('b, nat) call"
  l_list_sessions :: "('b, session_info list) call"
  l_get_session :: "string \<Rightarrow> ('b, string) call"
  l_vtnr :: "string \<Rightarrow> ('b, nat) call"
  l_leader :: "string \<Rightarrow> ('b, nat) call"
  l_remote :: "string \<Rightarrow> ('b, bool) call"
  d_update_env :: "env \<Rightarrow> ('b, unit) call"
  n_notify :: "notification \<Rightarrow> ('b, nat) call"
  t_now :: "'b \<Rightarrow> nat"
  t_sleep :: "nat \<Rightarrow> 'b \<Rightarrow> 'b"
  p_uid :: "'b \<Rightarrow> nat"

text \<open>\<open>?\<close> on a \<open>zbus::Result\<close>, through \<open>From<zbus::Error>\<close>.\<close>

definition dbus_io :: "('b, 'a) call \<Rightarrow> ('b, 'a) io" where
  "dbus_io c b = (case c b of (Inl e, b') \<Rightarrow> (Inl (Dbus e), b') | (Inr x, b') \<Rightarrow> (Inr x, b'))"

text \<open>\<open>.map_err(f)?\<close>.\<close>

definition dbus_io_with :: "(zbus_error \<Rightarrow> error) \<Rightarrow> ('b, 'a) call \<Rightarrow> ('b, 'a) io" where
  "dbus_io_with f c b = (case c b of (Inl e, b') \<Rightarrow> (Inl (f e), b') | (Inr x, b') \<Rightarrow> (Inr x, b'))"

lemma dbus_io_Inr: "dbus_io c b = (Inr x, b') \<longleftrightarrow> c b = (Inr x, b')"
  by (auto simp: dbus_io_def split: prod.splits sum.splits)

lemma dbus_io_Inl: "dbus_io c b = (Inl e, b') \<longleftrightarrow> (\<exists>z. c b = (Inl z, b') \<and> e = Dbus z)"
  by (auto simp: dbus_io_def split: prod.splits sum.splits)

lemma dbus_io_with_Inr: "dbus_io_with f c b = (Inr x, b') \<longleftrightarrow> c b = (Inr x, b')"
  by (auto simp: dbus_io_with_def split: prod.splits sum.splits)

lemma dbus_io_with_Inl:
  "dbus_io_with f c b = (Inl e, b') \<longleftrightarrow> (\<exists>z. c b = (Inl z, b') \<and> e = f z)"
  by (auto simp: dbus_io_with_def split: prod.splits sum.splits)

lemmas dbus_io_iffs = dbus_io_Inr dbus_io_Inl dbus_io_with_Inr dbus_io_with_Inl

section \<open>The session bus\<close>

fun parse_assignments :: "env \<Rightarrow> string list \<Rightarrow> env" where
  "parse_assignments m [] = m"
| "parse_assignments m (a # as) =
     parse_assignments
       (case split_once (CHR ''='') a of
          Some (k, v) \<Rightarrow> if keep_name k then bm_insert k v m else m
        | None \<Rightarrow> m)
       as"

definition systemd_vars :: "'b bus_ops \<Rightarrow> ('b, env) io" where
  "systemd_vars ops =
     io_bind (dbus_io (m_environment ops)) (\<lambda>as. io_return (parse_assignments [] as))"

definition is_dbus_broker :: "'b bus_ops \<Rightarrow> ('b, bool) io" where
  "is_dbus_broker ops =
     io_bind (dbus_io (m_get_unit ops ''dbus.service'')) (\<lambda>path.
     io_bind (dbus_io (u_id ops path)) (\<lambda>i. io_return (i = ''dbus-broker.service'')))"

definition set_systemd_vars_with :: "'b bus_ops \<Rightarrow> env \<Rightarrow> ('b, unit) io" where
  "set_systemd_vars_with ops vars =
     io_bind (dbus_io (m_set_environment ops (map assignment vars))) (\<lambda>_.
     io_bind (is_dbus_broker ops) (\<lambda>broker.
     if \<not> broker
     then dbus_io_with (PartialEnvUpdate ''set'' ''systemd'' ''the D-Bus daemon'')
            (d_update_env ops vars)
     else io_return ()))"

definition unset_systemd_vars_with :: "'b bus_ops \<Rightarrow> string list \<Rightarrow> ('b, unit) io" where
  "unset_systemd_vars_with ops names =
     io_bind (is_dbus_broker ops) (\<lambda>broker.
     let dbus_already_cleared = \<not> broker
     in io_bind
          (if dbus_already_cleared
           then dbus_io (d_update_env ops (bm_of_list (map (\<lambda>n. (n, [])) names)))
           else io_return ()) (\<lambda>_.
        dbus_io_with
          (\<lambda>source. if dbus_already_cleared
                    then PartialEnvUpdate ''unset'' ''the D-Bus daemon'' ''systemd'' source
                    else Dbus source)
          (m_unset_environment ops names)))"

definition bus_reload :: "'b bus_ops \<Rightarrow> ('b, unit) io" where
  "bus_reload ops = dbus_io (m_reload ops)"

definition list_units_by_patterns ::
  "'b bus_ops \<Rightarrow> string list \<Rightarrow> string list \<Rightarrow> ('b, unit_info list) io" where
  "list_units_by_patterns ops states patterns = dbus_io (m_list_units ops states patterns)"

definition bus_stop_unit :: "'b bus_ops \<Rightarrow> string \<Rightarrow> string \<Rightarrow> ('b, string) io" where
  "bus_stop_unit ops name mode = dbus_io (m_stop_unit ops name mode)"

definition service_notify_access :: "'b bus_ops \<Rightarrow> string \<Rightarrow> ('b, string) io" where
  "service_notify_access ops u =
     io_bind (dbus_io (m_get_unit ops u)) (\<lambda>path. dbus_io (s_notify_access ops path))"

definition service_timeout_start_usec :: "'b bus_ops \<Rightarrow> string \<Rightarrow> ('b, nat) io" where
  "service_timeout_start_usec ops u =
     io_bind (dbus_io (m_get_unit ops u)) (\<lambda>path. dbus_io (s_timeout_start_usec ops path))"

definition active_wm_unit :: "'b bus_ops \<Rightarrow> ('b, string option) io" where
  "active_wm_unit ops =
     io_bind (list_units_by_patterns ops [''active'', ''activating''] [''wayland-wm@*.service''])
       (\<lambda>units. io_return (case units of [] \<Rightarrow> None | u # _ \<Rightarrow> Some (ui_name u)))"

text \<open>A polling loop: time in milliseconds, \<open>None\<close> if it never ends. \<open>wait_for_job\<close> sleeps
  100 ms between two looks at the job queue.\<close>

partial_function (option) wait_for_job_loop ::
  "'b bus_ops \<Rightarrow> string \<Rightarrow> error \<Rightarrow> nat \<Rightarrow> nat \<Rightarrow> 'b \<Rightarrow> (unit result \<times> 'b) option" where
  "wait_for_job_loop ops job timed_out start timeout b =
     (case dbus_io (m_list_jobs ops) b of
        (Inl e, b1) \<Rightarrow> Some (Inl e, b1)
      | (Inr jobs, b1) \<Rightarrow>
          if \<not> list_ex (\<lambda>j. ji_job_path j = job) jobs then Some (Inr (), b1)
          else if t_now ops b1 - start \<ge> timeout then Some (Inl timed_out, b1)
          else wait_for_job_loop ops job timed_out start timeout (t_sleep ops 100 b1))"

definition wait_for_job ::
  "'b bus_ops \<Rightarrow> string \<Rightarrow> string \<Rightarrow> nat \<Rightarrow> string \<Rightarrow> 'b \<Rightarrow> (unit result \<times> 'b) option" where
  "wait_for_job ops job u timeout shown b =
     wait_for_job_loop ops job
       (Resolve (''timed out after '' @ shown @ '' waiting for '' @ u @
                 [SQ] @ ''s systemd job to complete''))
       (t_now ops b) timeout b"

section \<open>The system bus\<close>

definition session_vtnr :: "'b bus_ops \<Rightarrow> string \<Rightarrow> ('b, nat) io" where
  "session_vtnr ops i =
     io_bind (dbus_io (l_get_session ops i)) (\<lambda>path. dbus_io (l_vtnr ops path))"

definition session_leader :: "'b bus_ops \<Rightarrow> string \<Rightarrow> ('b, nat) io" where
  "session_leader ops i =
     io_bind (dbus_io (l_get_session ops i)) (\<lambda>path. dbus_io (l_leader ops path))"

definition session_remote :: "'b bus_ops \<Rightarrow> string \<Rightarrow> ('b, bool) io" where
  "session_remote ops i =
     io_bind (dbus_io (l_get_session ops i)) (\<lambda>path. dbus_io (l_remote ops path))"

fun session_by_vt_loop ::
  "'b bus_ops \<Rightarrow> nat \<Rightarrow> nat \<Rightarrow> session_info list \<Rightarrow> ('b, (string \<times> string) option) io" where
  "session_by_vt_loop ops uid vtnr [] = io_return None"
| "session_by_vt_loop ops uid vtnr (s # ss) =
     (if si_uid s \<noteq> uid then session_by_vt_loop ops uid vtnr ss
      else io_bind (io_try (session_vtnr ops (si_session_id s))) (\<lambda>r.
           if r = Inr vtnr then io_return (Some (si_session_id s, si_seat s))
           else session_by_vt_loop ops uid vtnr ss))"

definition session_by_vt :: "'b bus_ops \<Rightarrow> nat \<Rightarrow> ('b, (string \<times> string) option) io" where
  "session_by_vt ops vtnr =
     io_bind (io_get (p_uid ops)) (\<lambda>uid.
     io_bind (dbus_io (l_list_sessions ops)) (\<lambda>ss. session_by_vt_loop ops uid vtnr ss))"

definition is_no_such_unit :: "zbus_error \<Rightarrow> bool" where
  "is_no_such_unit e = (e = MethodError ''org.freedesktop.systemd1.NoSuchUnit'')"

definition unit_active_state :: "'b bus_ops \<Rightarrow> string \<Rightarrow> ('b, string option) io" where
  "unit_active_state ops u b =
     (case m_get_unit ops u b of
        (Inr path, b1) \<Rightarrow>
          io_bind (dbus_io (u_active_state ops path)) (\<lambda>st. io_return (Some st)) b1
      | (Inl e, b1) \<Rightarrow> if is_no_such_unit e then (Inr None, b1) else (Inl (Dbus e), b1))"

partial_function (option) wait_for_unit_loop ::
  "'b bus_ops \<Rightarrow> string \<Rightarrow> string list \<Rightarrow> nat \<Rightarrow> nat \<Rightarrow> 'b \<Rightarrow> (bool result \<times> 'b) option" where
  "wait_for_unit_loop ops u states start timeout b =
     (case unit_active_state ops u b of
        (Inl e, b1) \<Rightarrow> Some (Inl e, b1)
      | (Inr st, b1) \<Rightarrow>
          if st \<noteq> None \<and> the st \<in> set states then Some (Inr True, b1)
          else if t_now ops b1 - start \<ge> timeout then Some (Inr False, b1)
          else wait_for_unit_loop ops u states start timeout (t_sleep ops 500 b1))"

definition wait_for_unit ::
  "'b bus_ops \<Rightarrow> string \<Rightarrow> string list \<Rightarrow> nat \<Rightarrow> 'b \<Rightarrow> (bool result \<times> 'b) option" where
  "wait_for_unit ops u states timeout b =
     wait_for_unit_loop ops u states (t_now ops b) timeout b"

definition extract_wm_id :: "string \<Rightarrow> string option" where
  "extract_wm_id u =
     (case strip_prefix ''wayland-wm@'' u of
        None \<Rightarrow> None
      | Some s \<Rightarrow> strip_suffix ''.service'' s)"

lemma extract_wm_id_iff: "extract_wm_id u = Some i \<longleftrightarrow> u = ''wayland-wm@'' @ i @ ''.service''"
  unfolding extract_wm_id_def
  by (auto simp: str_simps split: option.split)

section \<open>What the code relies on\<close>

text \<open>
  The systemd manager's activation environment \<open>act\<close>. \<open>Environment\<close> lists it,
  \<open>SetEnvironment\<close> merges assignments, \<open>UnsetEnvironment\<close> removes names, both completely or,
  when they report an error, not at all. Updating the D-Bus daemon's environment may also be passed
  on to systemd, so all that is assumed of it is that it can only give a listed name the listed
  value.
\<close>

definition assigned :: "string list \<Rightarrow> string \<Rightarrow> string option" where
  "assigned as k = map_of (rev (List.map_filter (split_once (CHR ''='')) as)) k"

locale systemd_manager =
  fixes ops :: "'b bus_ops"
    and act :: "'b \<Rightarrow> string \<Rightarrow> string option"
  assumes environment_ok: "m_environment ops b = (Inr as, b') \<Longrightarrow> CHR ''='' \<notin> set k \<Longrightarrow>
      k @ ''='' @ v \<in> set as \<longleftrightarrow> act b k = Some v"
    and environment_act: "act (snd (m_environment ops b)) = act b"
    and get_unit_act: "act (snd (m_get_unit ops n b)) = act b"
    and u_id_act: "act (snd (u_id ops n b)) = act b"
    and set_environment_ok: "m_set_environment ops as b = (Inr u, b') \<Longrightarrow>
      act b' k = (case assigned as k of Some v \<Rightarrow> Some v | None \<Rightarrow> act b k)"
    and set_environment_err: "m_set_environment ops as b = (Inl e, b') \<Longrightarrow> act b' = act b"
    and unset_environment_ok: "\<forall>n\<in>set ns. CHR ''='' \<notin> set n \<Longrightarrow>
      m_unset_environment ops ns b = (Inr u, b') \<Longrightarrow>
      act b' k = (if k \<in> set ns then None else act b k)"
    and unset_environment_err: "m_unset_environment ops ns b = (Inl e, b') \<Longrightarrow> act b' = act b"
    and update_env_act: "d_update_env ops m b = (r, b') \<Longrightarrow>
      act b' k = act b k \<or> (\<exists>v. bm_get m k = Some v \<and> act b' k = Some v)"

text \<open>Time: no call moves the clock back, and sleeping moves it forward.\<close>

locale clock =
  fixes ops :: "'b bus_ops"
  assumes list_jobs_now: "t_now ops b \<le> t_now ops (snd (m_list_jobs ops b))"
    and get_unit_now: "t_now ops b \<le> t_now ops (snd (m_get_unit ops n b))"
    and active_state_now: "t_now ops b \<le> t_now ops (snd (u_active_state ops n b))"
    and sleep_now: "t_now ops b + ms \<le> t_now ops (t_sleep ops ms b)"

section \<open>The code meets its contract\<close>

lemma bm_wf_parse_assignments [simp]: "bm_wf m \<Longrightarrow> bm_wf (parse_assignments m as)"
  by (induction as arbitrary: m) (auto split: option.splits)

lemma parse_assignments_get:
  "bm_wf m \<Longrightarrow>
   bm_get (parse_assignments m as) k =
     (if keep_name k \<and> assigned as k \<noteq> None then assigned as k else bm_get m k)"
proof (induction as arbitrary: m)
  case (Cons a as)
  show ?case
  proof (cases "split_once (CHR ''='') a")
    case None
    then have "assigned (a # as) k = assigned as k" by (simp add: assigned_def map_filter_simps)
    with Cons None show ?thesis by auto
  next
    case (Some p)
    obtain x v where p: "p = (x, v)" by (cases p)
    have "assigned (a # as) k =
        (case assigned as k of None \<Rightarrow> if k = x then Some v else None | Some y \<Rightarrow> Some y)"
      using Some p by (simp add: assigned_def map_filter_simps map_add_def split: option.split)
    with Cons Some p show ?thesis by (auto split: option.splits)
  qed
qed (simp add: assigned_def map_filter_simps)

lemma assigned_Some: "assigned as k = Some v \<Longrightarrow> k @ ''='' @ v \<in> set as \<and> CHR ''='' \<notin> set k"
  unfolding assigned_def
  by (drule map_of_SomeD) (auto simp: map_filter_def split_once_Some_iff)

lemma assigned_ex: "k @ ''='' @ v \<in> set as \<Longrightarrow> CHR ''='' \<notin> set k \<Longrightarrow> assigned as k \<noteq> None"
proof -
  assume "k @ ''='' @ v \<in> set as" "CHR ''='' \<notin> set k"
  then have "(k, v) \<in> set (List.map_filter (split_once (CHR ''='')) as)"
    by (force simp: map_filter_def split_once_Some_iff intro!: image_eqI[of _ _ "k @ CHR ''='' # v"])
  then have "k \<in> fst ` set (rev (List.map_filter (split_once (CHR ''='')) as))" by force
  then show ?thesis by (auto simp: assigned_def map_of_eq_None_iff)
qed

lemma assigned_assignments:
  assumes "bm_wf m" "\<forall>k. bm_get m k \<noteq> None \<longrightarrow> keep_name k"
  shows "assigned (map assignment m) = bm_get m"
proof
  fix k
  have "split_once (CHR ''='') (assignment p) = Some p" if "p \<in> set m" for p
  proof -
    obtain k v where p: "p = (k, v)" by (cases p)
    with that assms have "keep_name k" by (metis bm_get_in_iff option.distinct(1))
    with p show ?thesis using keep_name_absent by (simp add: assignment_def)
  qed
  then have "List.map_filter (split_once (CHR ''='')) (map assignment m) = m"
    by (induction m) (simp_all add: map_filter_simps)
  with assms(1) show "assigned (map assignment m) k = bm_get m k"
    by (simp add: assigned_def map_of_rev_distinct[OF bm_wf_distinct] bm_get_def)
qed

context systemd_manager
begin

lemma broker_act: "is_dbus_broker ops b = (r, b') \<Longrightarrow> act b' = act b"
  using get_unit_act u_id_act
  by (auto simp: is_dbus_broker_def io_bind_def dbus_io_def split: prod.splits sum.splits)
     (metis snd_conv)+

lemma vars_ok:
  assumes "systemd_vars ops b = (Inr m, b')"
  shows "bm_wf m \<and> (\<forall>k. bm_get m k = (if keep_name k then act b k else None)) \<and> act b' = act b"
proof -
  from assms obtain as where e: "m_environment ops b = (Inr as, b')"
    and m: "m = parse_assignments [] as"
    by (auto simp: systemd_vars_def io_bind_Inr_iff dbus_io_iffs)
  have "assigned as k = act b k" if "keep_name k" for k
  proof (rule opt_ext)
    fix v
    have k: "CHR ''='' \<notin> set k" using that keep_name_absent by blast
    show "assigned as k = Some v \<longleftrightarrow> act b k = Some v"
      using environment_ok[OF e k] assigned_Some[of as k] assigned_ex[OF _ k, of _ as]
      by (metis not_None_eq option.inject)
  qed
  then have "bm_get m k = (if keep_name k then act b k else None)" for k
    by (auto simp: m parse_assignments_get)
  with e environment_act[of b] show ?thesis by (simp add: m)
qed

lemma vars_err: "systemd_vars ops b = (Inl e, b') \<Longrightarrow> act b' = act b"
  using environment_act[of b]
  by (auto simp: systemd_vars_def io_bind_Inl_iff dbus_io_iffs)

lemma set_ok:
  assumes "bm_wf m" "\<forall>k. bm_get m k \<noteq> None \<longrightarrow> keep_name k"
    and "set_systemd_vars_with ops m b = (Inr u, b')"
  shows "act b' k = (case bm_get m k of Some v \<Rightarrow> Some v | None \<Rightarrow> act b k)"
proof -
  from assms(3) obtain u1 b1 broker b2
    where s: "m_set_environment ops (map assignment m) b = (Inr u1, b1)"
      and br: "is_dbus_broker ops b1 = (Inr broker, b2)"
      and rest: "if broker then b' = b2 else d_update_env ops m b2 = (Inr u, b')"
    by (auto simp: set_systemd_vars_with_def io_bind_Inr_iff dbus_io_iffs split: if_splits)
  have b2: "act b2 k = (case bm_get m k of Some v \<Rightarrow> Some v | None \<Rightarrow> act b k)"
    using set_environment_ok[OF s] broker_act[OF br] assigned_assignments[OF assms(1,2)] by simp
  show ?thesis
  proof (cases broker)
    case False
    with rest have "d_update_env ops m b2 = (Inr u, b')" by simp
    from update_env_act[OF this, of k] b2 show ?thesis by auto
  qed (use rest b2 in simp)
qed

lemma set_any:
  assumes "bm_wf m" "\<forall>k. bm_get m k \<noteq> None \<longrightarrow> keep_name k"
    and run: "set_systemd_vars_with ops m b = (r, b')"
  shows "act b' k = act b k \<or> (\<exists>v. bm_get m k = Some v \<and> act b' k = Some v)"
proof (cases r)
  case (Inr u)
  with set_ok[OF assms(1,2), of b u b' k] run show ?thesis by (auto split: option.splits)
next
  case (Inl e)
  note fail = run[unfolded Inl set_systemd_vars_with_def io_bind_Inl_iff]
  consider (set) z where "m_set_environment ops (map assignment m) b = (Inl z, b')"
    | (broker) u1 b1 where "m_set_environment ops (map assignment m) b = (Inr u1, b1)"
        "is_dbus_broker ops b1 = (Inl e, b')"
    | (update) u1 b1 x b2 z where "m_set_environment ops (map assignment m) b = (Inr u1, b1)"
        "is_dbus_broker ops b1 = (Inr x, b2)" "d_update_env ops m b2 = (Inl z, b')"
    using fail by (auto simp: dbus_io_iffs split: if_splits)
  then show ?thesis
  proof cases
    case set
    then show ?thesis by (simp add: set_environment_err)
  next
    case broker
    then have "act b' k = (case bm_get m k of Some v \<Rightarrow> Some v | None \<Rightarrow> act b k)"
      using set_environment_ok broker_act assigned_assignments[OF assms(1,2)] by simp
    then show ?thesis by (auto split: option.splits)
  next
    case update
    then have "act b2 k = (case bm_get m k of Some v \<Rightarrow> Some v | None \<Rightarrow> act b k)"
      using set_environment_ok broker_act assigned_assignments[OF assms(1,2)] by simp
    with update_env_act[OF update(3), of k] show ?thesis by (auto split: option.splits)
  qed
qed

lemma bm_get_names:
  fixes k :: string
  shows "bm_get (bm_of_list (map (\<lambda>n. (n, [])) ns)) k = (if k \<in> set ns then Some [] else None)"
proof -
  have "map_of (map (\<lambda>n. (n, [])) xs) k = (if k \<in> set xs then Some [] else None)" for xs :: "string list"
    by (induction xs) auto
  from this[of "rev ns"] show ?thesis by (simp add: bm_get_of_list rev_map)
qed

lemma clear_any:
  assumes "is_dbus_broker ops b = (Inr broker, b1)"
    and "(if \<not> broker then dbus_io (d_update_env ops (bm_of_list (map (\<lambda>n. (n, [])) ns)))
          else io_return ()) b1 = (r, b2)"
  shows "act b2 k = act b k \<or> k \<in> set ns"
proof (cases broker)
  case False
  with assms(2) obtain r' where "d_update_env ops (bm_of_list (map (\<lambda>n. (n, [])) ns)) b1 = (r', b2)"
    by (cases r) (auto simp: dbus_io_iffs)
  from update_env_act[OF this, of k] broker_act[OF assms(1)] show ?thesis
    by (auto simp: bm_get_names split: if_splits)
qed (use assms broker_act[OF assms(1)] in simp)

lemma unset_ok:
  assumes "\<forall>n\<in>set ns. keep_name n" and "unset_systemd_vars_with ops ns b = (Inr u, b')"
  shows "act b' k = (if k \<in> set ns then None else act b k)"
proof -
  have ne: "\<forall>n\<in>set ns. CHR ''='' \<notin> set n" using assms(1) keep_name_absent by blast
  from assms(2) obtain broker b1 u1 b2
    where br: "is_dbus_broker ops b = (Inr broker, b1)"
      and cl: "(if \<not> broker then dbus_io (d_update_env ops (bm_of_list (map (\<lambda>n. (n, [])) ns)))
          else io_return ()) b1 = (Inr u1, b2)"
      and un: "m_unset_environment ops ns b2 = (Inr u, b')"
    by (auto simp: unset_systemd_vars_with_def Let_def io_bind_Inr_iff dbus_io_iffs)
  from unset_environment_ok[OF ne un, of k] clear_any[OF br cl, of k] show ?thesis by auto
qed

lemma unset_any:
  assumes "\<forall>n\<in>set ns. keep_name n" and run: "unset_systemd_vars_with ops ns b = (r, b')"
  shows "act b' k = act b k \<or> k \<in> set ns"
proof (cases r)
  case (Inr u)
  with unset_ok[OF assms(1), of b u b' k] run show ?thesis by auto
next
  case (Inl e)
  define cl where "cl broker = (if \<not> broker
    then dbus_io (d_update_env ops (bm_of_list (map (\<lambda>n. (n, [])) ns))) else io_return ())" for broker
  from run Inl consider (broker) "is_dbus_broker ops b = (Inl e, b')"
    | (clear) broker b1 where "is_dbus_broker ops b = (Inr broker, b1)" "cl broker b1 = (Inl e, b')"
    | (unset) broker b1 u1 b2 z where "is_dbus_broker ops b = (Inr broker, b1)"
        "cl broker b1 = (Inr u1, b2)" "m_unset_environment ops ns b2 = (Inl z, b')"
    unfolding unset_systemd_vars_with_def Let_def cl_def[symmetric]
    by (auto simp: io_bind_Inl_iff dbus_io_with_Inl)
  then show ?thesis
  proof cases
    case unset
    from clear_any[OF unset(1) unset(2)[unfolded cl_def], of k] unset_environment_err[OF unset(3)]
    show ?thesis by simp
  next
    case clear
    from clear_any[OF clear(1) clear(2)[unfolded cl_def], of k] show ?thesis .
  qed (simp add: broker_act)
qed

lemma contract:
  "env_service (systemd_vars ops) (set_systemd_vars_with ops) (unset_systemd_vars_with ops)
     act keep_name"
  using vars_ok vars_err set_ok set_any unset_ok unset_any by unfold_locales blast+

end

sublocale systemd_manager \<subseteq> activation: env_service "systemd_vars ops"
  "set_systemd_vars_with ops" "unset_systemd_vars_with ops" act keep_name
  by (rule contract)

section \<open>The polling loops end\<close>

lemma unit_active_state_now:
  assumes "clock ops" "unit_active_state ops u b = (r, b')"
  shows "t_now ops b \<le> t_now ops b'"
proof -
  obtain r1 b1 where g: "m_get_unit ops u b = (r1, b1)" by (cases "m_get_unit ops u b")
  have b1: "t_now ops b \<le> t_now ops b1"
    using clock.get_unit_now[OF assms(1), of b u] g by simp
  show ?thesis
  proof (cases r1)
    case (Inr path)
    have "t_now ops b1 \<le> t_now ops b'"
      using assms(2) g Inr clock.active_state_now[OF assms(1), of b1 path]
      by (auto simp: unit_active_state_def io_bind_def dbus_io_def split: prod.splits sum.splits)
    with b1 show ?thesis by simp
  qed (use assms(2) g b1 in \<open>auto simp: unit_active_state_def split: if_splits\<close>)
qed

context clock
begin

lemma wait_for_unit_loop_ends:
  "\<exists>r b'. wait_for_unit_loop ops u states start timeout b = Some (r, b')"
proof (induction "start + timeout - t_now ops b" arbitrary: b rule: less_induct)
  case less
  obtain r b1 where st: "unit_active_state ops u b = (r, b1)" by (cases "unit_active_state ops u b")
  show ?case
  proof (cases r)
    case (Inr s)
    show ?thesis
    proof (cases "(s \<noteq> None \<and> the s \<in> set states) \<or> timeout \<le> t_now ops b1 - start")
      case False
      have le: "t_now ops b \<le> t_now ops b1"
        using unit_active_state_now[OF clock_axioms st] .
      have "t_now ops b1 + 500 \<le> t_now ops (t_sleep ops 500 b1)" by (rule sleep_now)
      with False le have
        "start + timeout - t_now ops (t_sleep ops 500 b1) < start + timeout - t_now ops b"
        by linarith
      from less[OF this] st Inr False show ?thesis
        by (subst wait_for_unit_loop.simps) simp
    qed (subst wait_for_unit_loop.simps, use st Inr in auto)
  qed (subst wait_for_unit_loop.simps, use st in simp)
qed

lemma wait_for_job_loop_ends:
  "\<exists>r b'. wait_for_job_loop ops job e start timeout b = Some (r, b')"
proof (induction "start + timeout - t_now ops b" arbitrary: b rule: less_induct)
  case less
  obtain r b1 where js: "dbus_io (m_list_jobs ops) b = (r, b1)"
    by (cases "dbus_io (m_list_jobs ops) b")
  show ?case
  proof (cases r)
    case (Inr jobs)
    show ?thesis
    proof (cases "\<not> list_ex (\<lambda>j. ji_job_path j = job) jobs \<or> timeout \<le> t_now ops b1 - start")
      case False
      have "t_now ops b \<le> t_now ops b1"
        using js Inr list_jobs_now[of b] by (simp add: dbus_io_iffs)
      moreover have "t_now ops b1 + 100 \<le> t_now ops (t_sleep ops 100 b1)" by (rule sleep_now)
      ultimately have
        "start + timeout - t_now ops (t_sleep ops 100 b1) < start + timeout - t_now ops b"
        using False by linarith
      from less[OF this] js Inr False show ?thesis
        by (subst wait_for_job_loop.simps) simp
    qed (subst wait_for_job_loop.simps, use js Inr in auto)
  qed (subst wait_for_job_loop.simps, use js in simp)
qed

end

text \<open>What the answers mean: the last thing the loop saw.\<close>

definition unit_answer ::
  "'b bus_ops \<Rightarrow> string \<Rightarrow> string list \<Rightarrow> nat \<Rightarrow> nat \<Rightarrow> bool result \<times> 'b \<Rightarrow> bool" where
  "unit_answer ops u states start timeout y \<longleftrightarrow>
     (case y of
        (Inl e, b') \<Rightarrow> \<exists>b1. unit_active_state ops u b1 = (Inl e, b')
      | (Inr ok, b') \<Rightarrow>
          \<exists>b1 st. unit_active_state ops u b1 = (Inr st, b') \<and>
            (if ok then \<exists>s\<in>set states. st = Some s
             else (\<forall>s\<in>set states. st \<noteq> Some s) \<and> timeout \<le> t_now ops b' - start))"

lemma wait_for_unit_loop_meaning:
  assumes run: "wait_for_unit_loop ops u states start timeout b = Some y"
  shows "unit_answer ops u states start timeout y"
proof (rule wait_for_unit_loop.raw_induct
    [where P = "\<lambda>ops u states start timeout b y. unit_answer ops u states start timeout y",
     OF _ run])
  fix loop and ops :: "'a bus_ops" and u states start timeout b y
  assume IH: "\<And>ops u states start timeout b y.
      loop ops u states start timeout b = Some y \<Longrightarrow> unit_answer ops u states start timeout y"
    and step: "(case unit_active_state ops u b of
        (Inl e, b1) \<Rightarrow> Some (Inl e, b1)
      | (Inr st, b1) \<Rightarrow>
          if st \<noteq> None \<and> the st \<in> set states then Some (Inr True, b1)
          else if t_now ops b1 - start \<ge> timeout then Some (Inr False, b1)
          else loop ops u states start timeout (t_sleep ops 500 b1)) = Some y"
  obtain r b1 where st: "unit_active_state ops u b = (r, b1)" by (cases "unit_active_state ops u b")
  show "unit_answer ops u states start timeout y"
  proof (cases r)
    case (Inl e)
    with step st show ?thesis by (auto simp: unit_answer_def)
  next
    case (Inr s)
    let ?hit = "s \<noteq> None \<and> the s \<in> set states"
    have hit: "(\<exists>x\<in>set states. s = Some x) \<longleftrightarrow> ?hit" by (cases s) auto
    consider (hit) ?hit | (late) "\<not> ?hit" "timeout \<le> t_now ops b1 - start"
      | (again) "\<not> ?hit" "\<not> timeout \<le> t_now ops b1 - start"
      by blast
    then show ?thesis
    proof cases
      case again
      with step st Inr have "loop ops u states start timeout (t_sleep ops 500 b1) = Some y"
        by (simp split: if_splits)
      then show ?thesis by (rule IH)
    next
      case hit
      with step st Inr have "y = (Inr True, b1)" by simp
      with st Inr \<open>(\<exists>x\<in>set states. s = Some x) \<longleftrightarrow> ?hit\<close> hit show ?thesis
        unfolding unit_answer_def by auto
    next
      case late
      with step st Inr have "y = (Inr False, b1)" by (simp split: if_splits)
      moreover have "\<forall>x\<in>set states. s \<noteq> Some x" using late(1) by auto
      ultimately show ?thesis using st Inr late(2) unfolding unit_answer_def by auto
    qed
  qed
qed

end
