(* ===== verification/RefBus.thy ===== *)
theory RefBus
  imports Bus
begin

text \<open>
  An instance of the services behind the D-Bus client: an executable systemd user manager, D-Bus
  daemon and logind with the documented behaviour of the methods the program calls, in which any
  call can be made to fail. It satisfies the contracts \<open>systemd_manager\<close> and \<open>clock\<close>, so the
  theorems that rest on them are not empty, and it is what the concrete runs evaluate on. No theorem
  about the program assumes that the services are this instance.
\<close>

record sbus =
  sb_env :: "(string \<times> string) list"
  sb_dbus :: env
  sb_broker :: bool
  sb_units :: "unit_info list"
  sb_jobs :: "(job_info \<times> nat) list"
  sb_sessions :: "(session_info \<times> nat) list"
  sb_now :: nat
  sb_faults :: "nat \<Rightarrow> zbus_error option"
  sb_calls :: nat
  sb_log :: "string list"

definition sb_call :: "(sbus \<Rightarrow> 'a) \<Rightarrow> (sbus \<Rightarrow> sbus) \<Rightarrow> (sbus, 'a) call" where
  "sb_call get upd b =
     (let b' = b\<lparr>sb_calls := Suc (sb_calls b)\<rparr>
      in case sb_faults b (sb_calls b) of
           Some e \<Rightarrow> (Inl e, b')
         | None \<Rightarrow> (Inr (get b'), upd b'))"

definition sb_act :: "sbus \<Rightarrow> string \<Rightarrow> string option" where
  "sb_act b k = (if CHR ''='' \<in> set k then None else map_of (sb_env b) k)"

definition sb_listing :: "sbus \<Rightarrow> string list" where
  "sb_listing b =
     map assignment (filter (\<lambda>p. CHR ''='' \<notin> set (fst p)) (AList.clearjunk (sb_env b)))"

definition glob_match :: "string \<Rightarrow> string \<Rightarrow> bool" where
  "glob_match pat n =
     (case split_once (CHR ''*'') pat of
        None \<Rightarrow> pat = n
      | Some (p, q) \<Rightarrow> starts_with p n \<and> ends_with q n \<and> length p + length q \<le> length n)"

definition sb_find_unit :: "sbus \<Rightarrow> string \<Rightarrow> unit_info option" where
  "sb_find_unit b n = List.find (\<lambda>u. ui_name u = n) (sb_units b)"

definition sb_unit_path :: "string \<Rightarrow> (sbus, string) call" where
  "sb_unit_path n b =
     (case sb_call (\<lambda>b. n) id b of
        (Inl e, b') \<Rightarrow> (Inl e, b')
      | (Inr p, b') \<Rightarrow>
          if n = ''dbus.service'' \<or> sb_find_unit b n \<noteq> None then (Inr p, b')
          else (Inl (MethodError ''org.freedesktop.systemd1.NoSuchUnit''), b'))"

definition sb_session_info :: "sbus \<Rightarrow> string \<Rightarrow> (session_info \<times> nat) option" where
  "sb_session_info b i = List.find (\<lambda>p. si_session_id (fst p) = i) (sb_sessions b)"

text \<open>Numbers behind a constant, so that evaluating another call does not unfold them.\<close>

definition sb_timeout_start :: "string \<Rightarrow> (sbus, nat) call" where
  "sb_timeout_start p b = sb_call (\<lambda>b. 90000000) id b"

definition sb_uid :: "sbus \<Rightarrow> nat" where
  "sb_uid b = 1000"

definition ref_ops :: "sbus bus_ops" where
  "ref_ops = \<lparr>
     c_session = sb_call (\<lambda>b. ()) id,
     c_system = sb_call (\<lambda>b. ()) id,
     m_reload = sb_call (\<lambda>b. ()) (\<lambda>b. b\<lparr>sb_log := sb_log b @ [''reload'']\<rparr>),
     m_get_unit = sb_unit_path,
     m_stop_unit = (\<lambda>n mode. sb_call (\<lambda>b. ''job:'' @ n)
       (\<lambda>b. b\<lparr>sb_log := sb_log b @ [''stop '' @ n]\<rparr>)),
     m_set_environment = (\<lambda>as. sb_call (\<lambda>b. ())
       (\<lambda>b. b\<lparr>sb_env := rev (List.map_filter (split_once (CHR ''='')) as) @ sb_env b\<rparr>)),
     m_unset_environment = (\<lambda>ns. sb_call (\<lambda>b. ())
       (\<lambda>b. b\<lparr>sb_env := filter (\<lambda>p. fst p \<notin> set ns) (sb_env b)\<rparr>)),
     m_list_units = (\<lambda>states pats. sb_call
       (\<lambda>b. filter (\<lambda>u. ui_active_state u \<in> set states \<and>
                         list_ex (\<lambda>p. glob_match p (ui_name u)) pats) (sb_units b)) id),
     m_list_jobs = sb_call (\<lambda>b. map fst (filter (\<lambda>j. sb_now b < snd j) (sb_jobs b))) id,
     m_environment = sb_call sb_listing id,
     u_id = (\<lambda>p. sb_call
       (\<lambda>b. if p = ''dbus.service'' \<and> sb_broker b then ''dbus-broker.service'' else p) id),
     u_active_state = (\<lambda>p. sb_call
       (\<lambda>b. case sb_find_unit b p of None \<Rightarrow> ''inactive'' | Some u \<Rightarrow> ui_active_state u) id),
     s_notify_access = (\<lambda>p. sb_call (\<lambda>b. ''all'') id),
     s_timeout_start_usec = sb_timeout_start,
     l_list_sessions = sb_call (\<lambda>b. map fst (sb_sessions b)) id,
     l_get_session = (\<lambda>i. sb_call (\<lambda>b. i) id),
     l_vtnr = (\<lambda>i. sb_call
       (\<lambda>b. case sb_session_info b i of None \<Rightarrow> 0 | Some p \<Rightarrow> snd p) id),
     l_leader = (\<lambda>i. sb_call (\<lambda>b. 1) id),
     l_remote = (\<lambda>i. sb_call (\<lambda>b. False) id),
     d_update_env = (\<lambda>m. sb_call (\<lambda>b. ()) (\<lambda>b. b\<lparr>sb_dbus := bm_extend (sb_dbus b) m\<rparr>)),
     n_notify = (\<lambda>n. sb_call (\<lambda>b. 1) (\<lambda>b. b\<lparr>sb_log := sb_log b @ [nt_summary n @ nt_body n]\<rparr>)),
     t_now = sb_now,
     t_sleep = (\<lambda>ms b. b\<lparr>sb_now := sb_now b + ms\<rparr>),
     p_uid = sb_uid \<rparr>"

lemma sb_call_iff:
  "sb_call get upd b = (Inr x, b') \<longleftrightarrow>
     sb_faults b (sb_calls b) = None \<and> x = get (b\<lparr>sb_calls := Suc (sb_calls b)\<rparr>) \<and>
     b' = upd (b\<lparr>sb_calls := Suc (sb_calls b)\<rparr>)"
  "sb_call get upd b = (Inl e, b') \<longleftrightarrow>
     sb_faults b (sb_calls b) = Some e \<and> b' = b\<lparr>sb_calls := Suc (sb_calls b)\<rparr>"
  by (auto simp: sb_call_def Let_def split: option.splits)

lemma sb_call_snd:
  "snd (sb_call get upd b) =
     (if sb_faults b (sb_calls b) = None then upd (b\<lparr>sb_calls := Suc (sb_calls b)\<rparr>)
      else b\<lparr>sb_calls := Suc (sb_calls b)\<rparr>)"
  by (auto simp: sb_call_def Let_def split: option.splits)

lemma sb_unit_path_snd: "snd (sb_unit_path n b) = b\<lparr>sb_calls := Suc (sb_calls b)\<rparr>"
  by (auto simp: sb_unit_path_def sb_call_def Let_def split: option.splits)

lemma sb_act_calls [simp]: "sb_act (b\<lparr>sb_calls := n\<rparr>) = sb_act b"
  by (rule ext) (simp add: sb_act_def)

lemma sb_listing_iff:
  assumes "CHR ''='' \<notin> set k"
  shows "k @ ''='' @ v \<in> set (sb_listing b) \<longleftrightarrow> sb_act b k = Some v"
proof -
  have "k @ ''='' @ v \<in> set (sb_listing b) \<longleftrightarrow>
      (\<exists>p\<in>set (AList.clearjunk (sb_env b)). CHR ''='' \<notin> set (fst p) \<and> k @ ''='' @ v = assignment p)"
    by (auto simp: sb_listing_def)
  also have "\<dots> \<longleftrightarrow> (k, v) \<in> set (AList.clearjunk (sb_env b))"
  proof
    assume "\<exists>p\<in>set (AList.clearjunk (sb_env b)). CHR ''='' \<notin> set (fst p) \<and> k @ ''='' @ v = assignment p"
    then obtain x y where p: "(x, y) \<in> set (AList.clearjunk (sb_env b))" "CHR ''='' \<notin> set x"
      and eq: "k @ ''='' @ v = x @ ''='' @ y"
      by (auto simp: assignment_def)
    have "Some (k, v) = split_once (CHR ''='') (k @ ''='' @ v)" using assms by simp
    also have "\<dots> = split_once (CHR ''='') (x @ ''='' @ y)" by (simp only: eq)
    also have "\<dots> = Some (x, y)" using p(2) by simp
    finally show "(k, v) \<in> set (AList.clearjunk (sb_env b))" using p(1) by simp
  next
    assume "(k, v) \<in> set (AList.clearjunk (sb_env b))"
    then show "\<exists>p\<in>set (AList.clearjunk (sb_env b)). CHR ''='' \<notin> set (fst p) \<and> k @ ''='' @ v = assignment p"
      using assms by (intro bexI[of _ "(k, v)"]) (simp_all add: assignment_def)
  qed
  also have "\<dots> \<longleftrightarrow> map_of (AList.clearjunk (sb_env b)) k = Some v"
    by (simp add: distinct_clearjunk)
  also have "\<dots> \<longleftrightarrow> sb_act b k = Some v"
    using assms by (simp add: sb_act_def map_of_clearjunk)
  finally show ?thesis .
qed

lemma sb_act_set:
  "sb_act (b\<lparr>sb_env := rev (List.map_filter (split_once (CHR ''='')) as) @ sb_env b\<rparr>) k =
     (case assigned as k of Some v \<Rightarrow> Some v | None \<Rightarrow> sb_act b k)"
proof (cases "CHR ''='' \<in> set k")
  case True
  then have "assigned as k = None" using assigned_Some[of as k] by (cases "assigned as k") auto
  with True show ?thesis by (simp add: sb_act_def)
next
  case False
  then show ?thesis
    by (simp add: sb_act_def assigned_def map_add_def split: option.split)
qed

lemma map_of_filter_keys: "map_of (filter (\<lambda>p. fst p \<notin> S) xs) k = (if k \<in> S then None else map_of xs k)"
  by (induction xs) auto

interpretation ref: systemd_manager ref_ops sb_act
proof unfold_locales
  fix b as b' k v
  assume "m_environment ref_ops b = (Inr as, b')" "CHR ''='' \<notin> set k"
  then show "k @ ''='' @ v \<in> set as \<longleftrightarrow> sb_act b k = Some v"
    using sb_listing_iff[of k v "b\<lparr>sb_calls := Suc (sb_calls b)\<rparr>"]
    by (simp add: ref_ops_def sb_call_iff)
next
  fix as b u b' k
  assume "m_set_environment ref_ops as b = (Inr u, b')"
  then show "sb_act b' k = (case assigned as k of Some v \<Rightarrow> Some v | None \<Rightarrow> sb_act b k)"
    using sb_act_set[of as "b\<lparr>sb_calls := Suc (sb_calls b)\<rparr>" k]
    by (simp add: ref_ops_def sb_call_iff split: option.split)
next
  fix ns b u b' k
  assume "m_unset_environment ref_ops ns b = (Inr u, b')"
  then show "sb_act b' k = (if k \<in> set ns then None else sb_act b k)"
    by (simp add: ref_ops_def sb_call_iff sb_act_def map_of_filter_keys)
next
  fix m b r b' k
  assume "d_update_env ref_ops m b = (r, b')"
  then show "sb_act b' k = sb_act b k \<or> (\<exists>v. bm_get m k = Some v \<and> sb_act b' k = Some v)"
    by (cases r) (simp_all add: ref_ops_def sb_call_iff sb_act_def)
qed (simp_all add: ref_ops_def sb_timeout_start_def sb_call_iff sb_call_snd sb_unit_path_snd)

interpretation ref_clock: clock ref_ops
  by unfold_locales (simp_all add: ref_ops_def sb_call_snd sb_unit_path_snd)

text \<open>A running session with nothing in its way.\<close>

definition ref_bus :: "(string \<times> string) list \<Rightarrow> sbus" where
  "ref_bus e = \<lparr>sb_env = e, sb_dbus = [], sb_broker = False, sb_units = [], sb_jobs = [],
     sb_sessions = [], sb_now = 0, sb_faults = (\<lambda>_. None), sb_calls = 0, sb_log = []\<rparr>"

definition ref_fs :: fs where
  "ref_fs = \<lparr>fs_files = [], fs_dirs = [''/run'', ''/''], fs_mode = (\<lambda>_. 420),
     fs_rfail = (\<lambda>_. None), fs_faults = (\<lambda>_. None), fs_calls = 0, fs_pid = 7,
     fs_nanos = (\<lambda>n. n)\<rparr>"

definition ref_world :: "fs \<Rightarrow> sbus \<Rightarrow> sbus world" where
  "ref_world s b = \<lparr>w_fs = s, w_bus = b, w_env = [(''XDG_RUNTIME_DIR'', ''/run'')],
     w_urandom = (\<lambda>_. Some ''abcdefgh''), w_draws = 0, w_out = []\<rparr>"

section \<open>Running programs on it\<close>

text \<open>Concrete runs are evaluated by the simplifier, call by call: a sequence of effects is opened
  only once the state it starts from is known.\<close>

lemma io_bind_case:
  "io_bind m f w =
     (case m w of (r, w') \<Rightarrow> (case r of Inl e \<Rightarrow> (Inl e, w') | Inr x \<Rightarrow> f x w'))"
  by (simp add: io_bind_def split: prod.split sum.split)

lemmas run_congs =
  prod.case_cong_weak sum.case_cong_weak option.case_cong_weak if_weak_cong let_weak_cong

lemmas bus_run_simps =
  systemd_vars_def set_systemd_vars_with_def unset_systemd_vars_with_def is_dbus_broker_def
  ref_ops_def dbus_io_def dbus_io_with_def sb_call_def ref_bus_def Let_def sb_listing_def
  sb_unit_path_def assignment_def io_bind_case

end
