(* ===== verification/SessState.thy ===== *)
theory SessState
  imports RefBus
begin

text \<open>
  The shared session state, src/session/state.rs: \<open>generation\<close>, \<open>env_pre\<close> and
  \<open>env_cleanup.list\<close> under \<open>$XDG_RUNTIME_DIR/wsmr/\<close>, and the operations on them. The bus is
  the \<open>StateOps\<close> trait, a record of three operations; the theorems hold for every such record
  that satisfies the \<open>env_service\<close> contract, and the session bus of theory \<open>Bus\<close> does.
\<close>

record 'b state_ops =
  so_vars :: "('b, env) io"
  so_set :: "env \<Rightarrow> ('b, unit) io"
  so_unset :: "string list \<Rightarrow> ('b, unit) io"

definition session_state_ops :: "'b bus_ops \<Rightarrow> 'b state_ops" where
  "session_state_ops ops =
     \<lparr>so_vars = systemd_vars ops, so_set = set_systemd_vars_with ops,
      so_unset = unset_systemd_vars_with ops\<rparr>"

section \<open>The code\<close>

definition wpath :: "string \<Rightarrow> ('b world, string) io" where
  "wpath n = ask_env (\<lambda>e. runtime_path e n)"

definition lock :: "('b world, unit) io" where
  "lock =
     io_bind (wpath ''state.lock'') (\<lambda>path.
     io_bind
       (case path_parent path of
          None \<Rightarrow> io_return ()
        | Some parent \<Rightarrow> on_fs (sys_io parent (std_create_dir_all parent))) (\<lambda>_.
     io_bind (on_fs (sys_io path (std_open_create path))) (\<lambda>_.
     on_fs (sys_io path (std_flock path)))))"

definition le_bytes64 :: "nat \<Rightarrow> string" where
  "le_bytes64 n = map (\<lambda>i. char_of (n div 256 ^ i mod 256)) [0..<8]"

definition random_hex_id :: "('b world, string) io" where
  "random_hex_id w =
     (let buf = (case w_urandom w (w_draws w) of
                   Some bytes \<Rightarrow> take 8 (bytes @ replicate 8 NUL)
                 | None \<Rightarrow> le_bytes64 (fs_nanos (w_fs w) (fs_calls (w_fs w))))
      in (Inr (concat (map hex2 buf)), w\<lparr>w_draws := Suc (w_draws w)\<rparr>))"

definition read_generation :: "fs \<Rightarrow> string \<Rightarrow> string option result" where
  "read_generation s path =
     (case std_read s path of
        Inr c \<Rightarrow> Inr (opt_filter (\<lambda>t. t \<noteq> []) (Some (trim c)))
      | Inl e \<Rightarrow> if e = IoNotFound then Inr None else Inl (Io path e))"

definition sweep_file :: "string \<Rightarrow> ('b world, unit) io" where
  "sweep_file p =
     (if starts_with ''vars_'' (unwrap_or (path_file_name p) [])
      then on_fs (sys_ignore (std_remove_file p)) else io_return ())"

definition sweep_stray_prepare_vars :: "('b world, unit) io" where
  "sweep_stray_prepare_vars w =
     (case runtime_path (w_env w) [] of
        Inl _ \<Rightarrow> (Inr (), w)
      | Inr dir \<Rightarrow>
          (case std_read_dir (w_fs w) dir of
             Inl _ \<Rightarrow> (Inr (), w)
           | Inr entries \<Rightarrow> io_each sweep_file entries w))"

definition to_unset_names :: "string list \<Rightarrow> string list \<Rightarrow> string list \<Rightarrow> string list" where
  "to_unset_names listed systemd_names pre_names =
     filter (\<lambda>k. k \<notin> set never_cleanup \<and> k \<in> set systemd_names \<and> k \<notin> set pre_names)
       (bs_extend listed always_cleanup)"

definition listed_names :: "string option \<Rightarrow> cleanup_entry list \<Rightarrow> string list" where
  "listed_names current entries =
     (case current of
        Some g \<Rightarrow> bs_of_list (map ce_name (filter (\<lambda>e. ce_generation e = g) entries))
      | None \<Rightarrow> [])"

definition restore_and_clear_locked :: "'b state_ops \<Rightarrow> ('b world, unit) io" where
  "restore_and_clear_locked bus =
     io_bind (wpath ''generation'') (\<lambda>gen_path.
     io_bind (wpath ''env_cleanup.list'') (\<lambda>cleanup_p.
     io_bind (wpath ''env_pre'') (\<lambda>pre_p.
     io_bind (io_get (\<lambda>w. path_exists (w_fs w) gen_path \<or> path_exists (w_fs w) cleanup_p \<or>
                          path_exists (w_fs w) pre_p)) (\<lambda>any.
     if \<not> any then io_return ()
     else
       io_bind (ask_fs (\<lambda>s. read_generation s gen_path)) (\<lambda>current.
       io_bind
         (case current of
            Some g \<Rightarrow>
              io_bind (ask_fs (\<lambda>s. read_cleanup_entries s cleanup_p)) (\<lambda>es.
              io_return (listed_names current es))
          | None \<Rightarrow> io_return []) (\<lambda>listed.
       io_bind (ask_fs (\<lambda>s. load_env s pre_p)) (\<lambda>env_pre.
       io_bind (on_bus (so_vars bus)) (\<lambda>vars.
       let to_unset = to_unset_names listed (bm_keys vars) (bm_keys env_pre)
       in io_bind
            (if to_unset \<noteq> [] then on_bus (so_unset bus to_unset) else io_return ()) (\<lambda>_.
          io_bind (if env_pre \<noteq> [] then on_bus (so_set bus env_pre) else io_return ()) (\<lambda>_.
          io_bind
            (io_each (\<lambda>f. on_fs (sys_ignore (std_remove_file f))) [cleanup_p, pre_p, gen_path])
            (\<lambda>_. sweep_stray_prepare_vars)))))))))))"

definition begin_generation :: "'b state_ops \<Rightarrow> env \<Rightarrow> ('b world, string) io" where
  "begin_generation bus pre =
     io_bind lock (\<lambda>_.
     io_bind (restore_and_clear_locked bus) (\<lambda>_.
     io_bind random_hex_id (\<lambda>i.
     io_bind (wpath ''generation'') (\<lambda>gp.
     io_bind (on_fs (atomic_write_path gp (i @ [NL]))) (\<lambda>_.
     io_bind (wpath ''env_pre'') (\<lambda>pp.
     io_bind (on_fs (save_env pp pre Nul)) (\<lambda>_.
     io_bind (wpath ''env_cleanup.list'') (\<lambda>cp.
     io_bind (on_fs (write_cleanup_entries cp [])) (\<lambda>_.
     io_return i)))))))))"

text \<open>\<open>entries.insert(..)\<close> reports whether the entry was new.\<close>

fun append_loop :: "string \<Rightarrow> cleanup_entry list \<Rightarrow> bool \<Rightarrow> string list \<Rightarrow> cleanup_entry list \<times> bool" where
  "append_loop generation entries added [] = (entries, added)"
| "append_loop generation entries added (name # names) =
     (if keep_name name \<and> CleanupEntry generation name \<notin> set entries
      then append_loop generation (bs_insert (CleanupEntry generation name) entries) True names
      else append_loop generation entries added names)"

definition append_cleanup :: "string list \<Rightarrow> ('b world, unit) io" where
  "append_cleanup names =
     io_bind lock (\<lambda>_.
     io_bind (wpath ''generation'') (\<lambda>gen_path.
     io_bind (ask_fs (\<lambda>s. read_generation s gen_path)) (\<lambda>g.
     case g of
       None \<Rightarrow>
         io_fail (Resolve
           ''no active wsmr session generation; refusing to record cleanup state'')
     | Some generation \<Rightarrow>
         io_bind (wpath ''env_cleanup.list'') (\<lambda>path.
         io_bind (ask_fs (\<lambda>s. read_cleanup_entries s path)) (\<lambda>es.
         let (entries, added) = append_loop generation es False names
         in if added then on_fs (write_cleanup_entries path entries) else io_return ())))))"

definition end_generation :: "'b state_ops \<Rightarrow> ('b world, unit) io" where
  "end_generation bus = io_bind lock (\<lambda>_. restore_and_clear_locked bus)"

section \<open>Where the state lives\<close>

definition session_dir :: "env \<Rightarrow> string result" where
  "session_dir e = rbind (runtime_dir e) (\<lambda>d. Inr (path_join d BIN_NAME))"

lemma session_dirD:
  assumes "session_dir e = Inr D"
  shows "D \<noteq> []" "last D \<noteq> SLASH" "runtime_path e n = Inr (path_join D n)"
proof -
  from assms obtain d where d: "runtime_dir e = Inr d" and D: "D = path_join d BIN_NAME"
    by (auto simp: session_dir_def rbind_Inr_iff)
  then show "runtime_path e n = Inr (path_join D n)" by (simp add: runtime_path_def)
  from D show "D \<noteq> []" "last D \<noteq> SLASH"
    by (auto simp: path_join_def BIN_NAME_def)
qed

lemma runtime_path_Inr: "runtime_path e n = Inr p \<Longrightarrow> \<exists>D. session_dir e = Inr D \<and> p = path_join D n"
  by (auto simp: runtime_path_def session_dir_def rbind_Inr_iff)

abbreviation gen_file :: "string \<Rightarrow> string" where
  "gen_file D \<equiv> path_join D ''generation''"

abbreviation pre_file :: "string \<Rightarrow> string" where
  "pre_file D \<equiv> path_join D ''env_pre''"

abbreviation cleanup_list :: "string \<Rightarrow> string" where
  "cleanup_list D \<equiv> path_join D ''env_cleanup.list''"

abbreviation lock_file :: "string \<Rightarrow> string" where
  "lock_file D \<equiv> path_join D ''state.lock''"

lemma plain_state_names [simp]:
  "plain_name ''generation''" "plain_name ''env_pre''" "plain_name ''env_cleanup.list''"
  "plain_name ''state.lock''"
  by code_simp+

lemma path_join_eq_iff:
  "plain_name a \<Longrightarrow> plain_name b \<Longrightarrow> path_join D a = path_join D b \<longleftrightarrow> a = b"
  by (metis path_file_name_join option.inject)

lemma state_files_distinct [simp]:
  "gen_file D \<noteq> pre_file D" "gen_file D \<noteq> cleanup_list D" "gen_file D \<noteq> lock_file D"
  "pre_file D \<noteq> gen_file D" "pre_file D \<noteq> cleanup_list D" "pre_file D \<noteq> lock_file D"
  "cleanup_list D \<noteq> gen_file D" "cleanup_list D \<noteq> pre_file D" "cleanup_list D \<noteq> lock_file D"
  by (simp_all add: path_join_eq_iff)

lemma not_temp_join: "plain_name n \<Longrightarrow> hd n \<noteq> CHR ''.'' \<Longrightarrow> \<not> is_temp (path_join D n)"
  by (cases n) (auto simp: is_temp_def path_file_name_join starts_with_iff)

lemma state_files_not_temp [simp]:
  "\<not> is_temp (gen_file D)" "\<not> is_temp (pre_file D)" "\<not> is_temp (cleanup_list D)"
  by (simp_all add: not_temp_join)

text \<open>The state as the next reader sees it.\<close>

definition v_gen :: "fs \<Rightarrow> string \<Rightarrow> string option" where
  "v_gen s D =
     (case file_at s (gen_file D) of
        None \<Rightarrow> None
      | Some c \<Rightarrow> opt_filter (\<lambda>t. t \<noteq> []) (Some (trim c)))"

definition v_pre :: "fs \<Rightarrow> string \<Rightarrow> env" where
  "v_pre s D = (case file_at s (pre_file D) of None \<Rightarrow> [] | Some c \<Rightarrow> parse_env_nul c)"

definition v_listed :: "fs \<Rightarrow> string \<Rightarrow> cleanup_entry list" where
  "v_listed s D = (case file_at s (cleanup_list D) of None \<Rightarrow> [] | Some c \<Rightarrow> parse_cleanup c)"

lemma std_read_Inr: "std_read s p = Inr c \<Longrightarrow> file_at s p = Some c"
  by (auto simp: std_read_def split: option.splits)

lemma std_read_NotFound:
  "std_read s p = Inl IoNotFound \<Longrightarrow> fs_rfail s p \<noteq> Some IoNotFound \<Longrightarrow> file_at s p = None"
  by (auto simp: std_read_def split: option.splits)

text \<open>A read error other than absence: the state's \<open>fs_rfail\<close> never reports absence.\<close>

definition rfail_ok :: "fs \<Rightarrow> bool" where
  "rfail_ok s \<longleftrightarrow> (\<forall>p. fs_rfail s p \<noteq> Some IoNotFound)"

lemma read_generation_view:
  "rfail_ok s \<Longrightarrow> read_generation s (gen_file D) = Inr g \<Longrightarrow> v_gen s D = g"
  using std_read_NotFound[of s "gen_file D"] std_read_Inr[of s "gen_file D"]
  by (auto simp: rfail_ok_def read_generation_def v_gen_def split: sum.splits if_splits)

lemma read_cleanup_view:
  "rfail_ok s \<Longrightarrow> read_cleanup_entries s (cleanup_list D) = Inr es \<Longrightarrow> v_listed s D = es"
  using std_read_NotFound[of s "cleanup_list D"] std_read_Inr[of s "cleanup_list D"]
  by (auto simp: rfail_ok_def read_cleanup_entries_def v_listed_def split: sum.splits if_splits)

lemma load_env_view:
  "rfail_ok s \<Longrightarrow> load_env s (pre_file D) = Inr m \<Longrightarrow> v_pre s D = m"
  using std_read_NotFound[of s "pre_file D"] std_read_Inr[of s "pre_file D"]
  by (auto simp: rfail_ok_def load_env_def v_pre_def split: sum.splits if_splits)

lemma bm_wf_v_pre [simp]: "bm_wf (v_pre s D)"
  by (simp add: v_pre_def split: option.split)

lemma v_pre_kept: "bm_get (v_pre s D) k \<noteq> None \<Longrightarrow> keep_name k"
  using parse_env_nul_kept by (auto simp: v_pre_def split: option.splits)

section \<open>Restoring the activation environment\<close>

definition restore_bus :: "'b state_ops \<Rightarrow> string list \<Rightarrow> env \<Rightarrow> ('b, unit) io" where
  "restore_bus bus listed env_pre =
     io_bind (so_vars bus) (\<lambda>vars.
     let to_unset = to_unset_names listed (bm_keys vars) (bm_keys env_pre)
     in io_bind (if to_unset \<noteq> [] then so_unset bus to_unset else io_return ()) (\<lambda>_.
        if env_pre \<noteq> [] then so_set bus env_pre else io_return ()))"

text \<open>The names a generation owns: what it listed and what every session owns, less the names that
  must never be removed.\<close>

definition owned :: "string list \<Rightarrow> string \<Rightarrow> bool" where
  "owned listed k \<longleftrightarrow>
     (k \<in> set listed \<or> k \<in> set always_cleanup) \<and> k \<notin> set never_cleanup \<and> keep_name k"

definition restored :: "string list \<Rightarrow> env \<Rightarrow> (string \<Rightarrow> string option) \<Rightarrow> string \<Rightarrow> string option" where
  "restored listed env_pre val k =
     (case bm_get env_pre k of
        Some v \<Rightarrow> Some v
      | None \<Rightarrow> if owned listed k then None else val k)"

text \<open>The contract of the three operations of a bus.\<close>

definition env_contract :: "'b state_ops \<Rightarrow> ('b \<Rightarrow> string \<Rightarrow> string option) \<Rightarrow> bool" where
  "env_contract bus val \<longleftrightarrow> env_service (so_vars bus) (so_set bus) (so_unset bus) val keep_name"

lemma session_bus_contract:
  "systemd_manager ops act \<Longrightarrow> env_contract (session_state_ops ops) act"
  unfolding env_contract_def session_state_ops_def by (simp add: systemd_manager.contract)

lemma to_unset_iff:
  "k \<in> set (to_unset_names listed sys pre) \<longleftrightarrow>
     (k \<in> set listed \<or> k \<in> set always_cleanup) \<and> k \<notin> set never_cleanup \<and> k \<in> set sys \<and>
     k \<notin> set pre"
  by (auto simp: to_unset_names_def)

lemma bm_keys_iff: "k \<in> set (bm_keys m) \<longleftrightarrow> bm_get m k \<noteq> None"
  by (simp add: bm_keys_def bm_get_None_iff)

lemma restore_bus_ok:
  assumes c: "env_contract bus val"
    and pre: "bm_wf env_pre" "\<forall>k. bm_get env_pre k \<noteq> None \<longrightarrow> keep_name k"
    and run: "restore_bus bus listed env_pre b = (Inr u, b')"
  shows "val b' k = restored listed env_pre (val b) k"
proof -
  note svc = c[unfolded env_contract_def]
  from run obtain vars b1 u2 b2 where v: "so_vars bus b = (Inr vars, b1)"
    and un: "(if to_unset_names listed (bm_keys vars) (bm_keys env_pre) \<noteq> []
        then so_unset bus (to_unset_names listed (bm_keys vars) (bm_keys env_pre))
        else io_return ()) b1 = (Inr u2, b2)"
    and st: "(if env_pre \<noteq> [] then so_set bus env_pre else io_return ()) b2 = (Inr u, b')"
    unfolding restore_bus_def Let_def io_bind_Inr_iff by blast
  let ?U = "to_unset_names listed (bm_keys vars) (bm_keys env_pre)"
  have vars: "bm_get vars n = (if keep_name n then val b n else None)" "val b1 = val b" for n
    using env_service.vars_read[OF svc v] by blast+
  have kept: "\<forall>n\<in>set ?U. keep_name n" by (auto simp: to_unset_iff bm_keys_iff vars split: if_splits)
  have "val b2 k = (if k \<in> set ?U then None else val b k)"
  proof (cases "?U = []")
    case False
    with un have "so_unset bus ?U b1 = (Inr u2, b2)" by simp
    from env_service.unset_vars_ok[OF svc kept this, of k] vars(2) show ?thesis by simp
  qed (use un vars(2) in simp)
  moreover have "val b' k = (case bm_get env_pre k of Some v \<Rightarrow> Some v | None \<Rightarrow> val b2 k)"
  proof (cases "env_pre = []")
    case False
    with st have "so_set bus env_pre b2 = (Inr u, b')" by simp
    from env_service.set_vars_ok[OF svc pre this, of k] show ?thesis .
  qed (use st in simp)
  moreover have "k \<in> set ?U \<longleftrightarrow> owned listed k \<and> val b k \<noteq> None \<and> bm_get env_pre k = None"
    by (auto simp: to_unset_iff bm_keys_iff vars owned_def)
  ultimately show ?thesis by (auto simp: restored_def split: option.splits)
qed

text \<open>However it ends, it only moves towards the restored environment.\<close>

lemma restore_bus_any:
  assumes c: "env_contract bus val"
    and pre: "bm_wf env_pre" "\<forall>k. bm_get env_pre k \<noteq> None \<longrightarrow> keep_name k"
    and run: "restore_bus bus listed env_pre b = (r, b')"
  shows "val b' k = val b k \<or> bm_get env_pre k \<noteq> None \<or> owned listed k"
proof (cases r)
  case (Inr u)
  with run have "restore_bus bus listed env_pre b = (Inr u, b')" by simp
  from restore_bus_ok[OF c pre this, of k] show ?thesis
    by (auto simp: restored_def split: option.splits)
next
  case (Inl e)
  note svc = c[unfolded env_contract_def]
  let ?U = "\<lambda>vars. to_unset_names listed (bm_keys vars) (bm_keys env_pre)"
  from run[unfolded Inl restore_bus_def io_bind_Inl_iff]
  consider (vars) "so_vars bus b = (Inl e, b')"
    | (ok) vars b1 where "so_vars bus b = (Inr vars, b1)"
      "(let to_unset = ?U vars
        in io_bind (if to_unset \<noteq> [] then so_unset bus to_unset else io_return ()) (\<lambda>_.
           if env_pre \<noteq> [] then so_set bus env_pre else io_return ())) b1 = (Inl e, b')"
    by blast
  then show ?thesis
  proof cases
    case vars
    then show ?thesis using env_service.vars_fail[OF svc] by simp
  next
    case ok
    have vars: "bm_get vars n = (if keep_name n then val b n else None)" "val b1 = val b" for n
      using env_service.vars_read[OF svc ok(1)] by blast+
    have kept: "\<forall>n\<in>set (?U vars). keep_name n"
      by (auto simp: to_unset_iff bm_keys_iff vars split: if_splits)
    have scope: "n \<in> set (?U vars) \<Longrightarrow> owned listed n" for n
      by (auto simp: to_unset_iff bm_keys_iff vars owned_def split: if_splits)
    obtain r2 b2 where un: "(if ?U vars \<noteq> [] then so_unset bus (?U vars) else io_return ()) b1 = (r2, b2)"
      by fastforce
    have b2: "val b2 k = val b k \<or> owned listed k"
      using un vars(2) env_service.unset_vars_any[OF svc kept, of b1 r2 b2 k] scope
      by (auto split: if_splits)
    show ?thesis
    proof (cases r2)
      case (Inl e2)
      with ok(2) un b2 show ?thesis by (auto simp: io_bind_def Let_def)
    next
      case (Inr u2)
      with ok(2) un have "(if env_pre \<noteq> [] then so_set bus env_pre else io_return ()) b2 = (Inl e, b')"
        by (simp add: io_bind_def Let_def)
      then have "so_set bus env_pre b2 = (Inl e, b')" by (simp split: if_splits)
      from env_service.set_vars_any[OF svc pre this, of k] b2 show ?thesis by auto
    qed
  qed
qed

text \<open>So a run that failed half-way and is repeated restores what a single run would have.\<close>

lemma restore_bus_retry:
  assumes c: "env_contract bus val"
    and pre: "bm_wf env_pre" "\<forall>k. bm_get env_pre k \<noteq> None \<longrightarrow> keep_name k"
    and first: "restore_bus bus listed env_pre b = (r, b1)"
    and second: "restore_bus bus listed env_pre b1 = (Inr u, b2)"
  shows "val b2 k = restored listed env_pre (val b) k"
  using restore_bus_any[OF c pre first, of k] restore_bus_ok[OF c pre second, of k]
  by (auto simp: restored_def split: option.splits)

section \<open>Removing the state files\<close>

definition clear_state :: "string list \<Rightarrow> ('b world, unit) io" where
  "clear_state ps =
     io_bind (io_each (\<lambda>f. on_fs (sys_ignore (std_remove_file f))) ps)
       (\<lambda>_. sweep_stray_prepare_vars)"

definition never_fails :: "('w, 'a) io \<Rightarrow> bool" where
  "never_fails m \<longleftrightarrow> (\<forall>w. \<exists>x. fst (m w) = Inr x)"

lemma never_fails_ignore [simp]: "never_fails (on_fs (sys_ignore m))"
  by (simp add: never_fails_def on_fs_def sys_ignore_def)

lemma never_failsD: "never_fails m \<Longrightarrow> m w \<noteq> (Inl e, w')"
  unfolding never_fails_def by (metis fst_conv Inl_Inr_False)

lemma never_fails_return [simp]: "never_fails (io_return x)"
  by (simp add: never_fails_def)

lemma never_fails_bind: "never_fails m \<Longrightarrow> (\<And>x. never_fails (f x)) \<Longrightarrow> never_fails (io_bind m f)"
  unfolding never_fails_def io_bind_def
  by (auto split: prod.splits sum.splits) (metis fst_conv Inl_Inr_False)

lemma never_fails_each: "(\<And>x. never_fails (f x)) \<Longrightarrow> never_fails (io_each f xs)"
  by (induction xs) (auto intro: never_fails_bind)

lemma sweep_cases:
  "sweep_stray_prepare_vars w = (Inr (), w) \<or>
   (\<exists>es. sweep_stray_prepare_vars w = io_each sweep_file es w)"
  by (auto simp: sweep_stray_prepare_vars_def split: sum.split)

lemma never_fails_sweep: "never_fails sweep_stray_prepare_vars"
  unfolding never_fails_def
proof
  fix w :: "'a world"
  have "never_fails (io_each sweep_file es :: ('a world, unit) io)" for es
    by (rule never_fails_each) (simp add: sweep_file_def)
  then show "\<exists>x. fst (sweep_stray_prepare_vars w) = Inr x"
    using sweep_cases[of w] by (auto simp: never_fails_def)
qed

lemma never_fails_clear: "never_fails (clear_state ps)"
  unfolding clear_state_def by (intro never_fails_bind never_fails_each never_fails_sweep) simp

lemma stable_sweep:
  fixes f :: "'b world \<Rightarrow> 'x"
  assumes "\<And>p. stable f (on_fs (sys_ignore (std_remove_file p)))"
  shows "stable f sweep_stray_prepare_vars"
  unfolding stable_def
proof
  fix w :: "'b world"
  have "stable f (io_each sweep_file es)" for es
    unfolding sweep_file_def by (intro stable_intros assms)
  then show "f (snd (sweep_stray_prepare_vars w)) = f w"
    using sweep_cases[of w] by (auto simp: stable_def)
qed

lemma stable_clear:
  assumes "\<And>p. stable f (on_fs (sys_ignore (std_remove_file p)))"
  shows "stable f (clear_state ps)"
  unfolding clear_state_def by (intro stable_intros assms stable_sweep)

text \<open>A file is never changed by this phase, only possibly removed.\<close>

definition only_removes :: "('b world, 'a) io \<Rightarrow> bool" where
  "only_removes m \<longleftrightarrow> (\<forall>w p. wfile p (snd (m w)) = wfile p w \<or> wfile p (snd (m w)) = None)"

lemma only_removes_bind:
  assumes "only_removes m" "\<And>x. only_removes (f x)"
  shows "only_removes (io_bind m f)"
  unfolding only_removes_def
proof (intro allI)
  fix w p
  obtain r w1 where m: "m w = (r, w1)" by (cases "m w")
  then have w1: "wfile p w1 = wfile p w \<or> wfile p w1 = None"
    using assms(1) unfolding only_removes_def by (metis snd_conv)
  show "wfile p (snd (io_bind m f w)) = wfile p w \<or> wfile p (snd (io_bind m f w)) = None"
  proof (cases r)
    case (Inr x)
    have "wfile p (snd (f x w1)) = wfile p w1 \<or> wfile p (snd (f x w1)) = None"
      using assms(2)[of x] unfolding only_removes_def by (elim allE)
    with w1 m Inr show ?thesis by (auto simp: io_bind_def)
  qed (use m w1 in \<open>simp add: io_bind_def\<close>)
qed

lemma only_removes_return [simp]: "only_removes (io_return x)"
  by (simp add: only_removes_def)

lemma only_removes_remove [simp]: "only_removes (on_fs (sys_ignore (std_remove_file p)))"
  using file_at_remove_cases
  by (fastforce simp: only_removes_def wfile_def on_fs_def sys_ignore_def)

lemma only_removes_each: "(\<And>x. only_removes (f x)) \<Longrightarrow> only_removes (io_each f xs)"
  by (induction xs) (auto intro: only_removes_bind)

lemma only_removes_sweep: "only_removes (sweep_stray_prepare_vars :: ('b world, unit) io)"
  unfolding only_removes_def
proof (intro allI)
  fix w :: "'b world" and p
  have "only_removes (io_each sweep_file es :: ('b world, unit) io)" for es
    by (rule only_removes_each) (simp add: sweep_file_def)
  then show "wfile p (snd (sweep_stray_prepare_vars w)) = wfile p w \<or>
      wfile p (snd (sweep_stray_prepare_vars w)) = None"
    using sweep_cases[of w] unfolding only_removes_def by (metis snd_conv)
qed

lemma only_removes_clear: "only_removes (clear_state ps)"
  unfolding clear_state_def
  by (intro only_removes_bind only_removes_each only_removes_sweep) simp

section \<open>The operations\<close>

definition state_present :: "fs \<Rightarrow> string \<Rightarrow> bool" where
  "state_present s D \<longleftrightarrow>
     path_exists s (gen_file D) \<or> path_exists s (cleanup_list D) \<or> path_exists s (pre_file D)"

abbreviation state_files :: "string \<Rightarrow> string list" where
  "state_files D \<equiv> [cleanup_list D, pre_file D, gen_file D]"

lemma restore_tail:
  "io_bind (on_bus (so_vars bus)) (\<lambda>vars.
     let to_unset = to_unset_names listed (bm_keys vars) (bm_keys env_pre)
     in io_bind (if to_unset \<noteq> [] then on_bus (so_unset bus to_unset) else io_return ()) (\<lambda>_.
        io_bind (if env_pre \<noteq> [] then on_bus (so_set bus env_pre) else io_return ()) (\<lambda>_.
        io_bind (io_each (\<lambda>f. on_fs (sys_ignore (std_remove_file f))) ps)
          (\<lambda>_. sweep_stray_prepare_vars)))) =
   io_bind (on_bus (restore_bus bus listed env_pre)) (\<lambda>_. clear_state ps)"
  by (simp only: restore_bus_def clear_state_def Let_def on_bus_bind io_bind_assoc on_bus_return
      on_bus_if)

text \<open>What is read first, before anything is changed.\<close>

definition read_state :: "string \<Rightarrow> fs \<Rightarrow> (string list \<times> env) result" where
  "read_state D s =
     rbind (read_generation s (gen_file D)) (\<lambda>current.
     rbind (case current of
              Some g \<Rightarrow> rbind (read_cleanup_entries s (cleanup_list D)) (\<lambda>es. Inr (listed_names current es))
            | None \<Rightarrow> Inr []) (\<lambda>listed.
     rbind (load_env s (pre_file D)) (\<lambda>env_pre. Inr (listed, env_pre))))"

lemma restore_unfold:
  assumes "session_dir (w_env w) = Inr D"
  shows "restore_and_clear_locked bus w =
    (if \<not> state_present (w_fs w) D then (Inr (), w)
     else (case read_state D (w_fs w) of
             Inl e \<Rightarrow> (Inl e, w)
           | Inr (listed, env_pre) \<Rightarrow>
               io_bind (on_bus (restore_bus bus listed env_pre)) (\<lambda>_. clear_state (state_files D)) w))"
  using session_dirD(3)[OF assms]
  unfolding restore_and_clear_locked_def restore_tail
  by (simp add: wpath_def io_bind_ask_env
      state_present_def io_bind_ask_fs read_state_def rbind_def io_bind_assoc
      split: sum.split option.split)

abbreviation listed_now :: "fs \<Rightarrow> string \<Rightarrow> string list" where
  "listed_now s D \<equiv> listed_names (v_gen s D) (v_listed s D)"

lemma read_state_view:
  assumes rf: "rfail_ok s" and r: "read_state D s = Inr (listed, env_pre)"
  shows "listed = listed_now s D \<and> env_pre = v_pre s D"
proof -
  from r obtain current where g: "read_generation s (gen_file D) = Inr current"
    and l: "(case current of
              Some g \<Rightarrow> rbind (read_cleanup_entries s (cleanup_list D)) (\<lambda>es. Inr (listed_names current es))
            | None \<Rightarrow> Inr []) = (Inr listed :: string list result)"
    and e: "load_env s (pre_file D) = Inr env_pre"
    by (auto simp: read_state_def rbind_Inr_iff)
  from l have "listed = listed_names current (v_listed s D)"
    by (cases current)
       (auto simp: rbind_Inr_iff listed_names_def dest: read_cleanup_view[OF rf])
  with read_generation_view[OF rf g] load_env_view[OF rf e] show ?thesis by simp
qed

lemma restore_ok:
  assumes D: "session_dir (w_env w) = Inr D" and rf: "rfail_ok (w_fs w)"
    and p: "state_present (w_fs w) D"
    and run: "restore_and_clear_locked bus w = (Inr u, w')"
  obtains b' where
    "restore_bus bus (listed_now (w_fs w) D) (v_pre (w_fs w) D) (w_bus w) = (Inr (), b')"
    "w' = snd (clear_state (state_files D) (w\<lparr>w_bus := b'\<rparr>))"
proof -
  from run p obtain listed pre where r: "read_state D (w_fs w) = Inr (listed, pre)"
    and b: "io_bind (on_bus (restore_bus bus listed pre)) (\<lambda>_. clear_state (state_files D)) w = (Inr u, w')"
    by (auto simp: restore_unfold[OF D] split: sum.splits prod.splits)
  from b obtain b' where "restore_bus bus listed pre (w_bus w) = (Inr (), b')"
    "clear_state (state_files D) (w\<lparr>w_bus := b'\<rparr>) = (Inr u, w')"
    by (auto simp: io_bind_Inr_iff on_bus_iff)
  with read_state_view[OF rf r] that show ?thesis by simp
qed

text \<open>A restore that reports an error has removed nothing and can be run again.\<close>

lemma restore_err:
  assumes D: "session_dir (w_env w) = Inr D" and rf: "rfail_ok (w_fs w)"
    and run: "restore_and_clear_locked bus w = (Inl e, w')"
  shows "w_fs w' = w_fs w \<and> w_env w' = w_env w \<and>
    (w_bus w' = w_bus w \<or>
     restore_bus bus (listed_now (w_fs w) D) (v_pre (w_fs w) D) (w_bus w) = (Inl e, w_bus w'))"
proof -
  from run have p: "state_present (w_fs w) D" by (auto simp: restore_unfold[OF D] split: if_splits)
  show ?thesis
  proof (cases "read_state D (w_fs w)")
    case (Inl e')
    with run p show ?thesis by (simp add: restore_unfold[OF D])
  next
    case (Inr lp)
    obtain listed pre where lp: "lp = (listed, pre)" by (cases lp)
    with run p Inr
    have "io_bind (on_bus (restore_bus bus listed pre)) (\<lambda>_. clear_state (state_files D)) w = (Inl e, w')"
      by (simp add: restore_unfold[OF D])
    then have "on_bus (restore_bus bus listed pre) w = (Inl e, w')"
      unfolding io_bind_Inl_iff using never_failsD[OF never_fails_clear] by blast
    with read_state_view[OF rf Inr[unfolded lp]] show ?thesis by (auto simp: on_bus_iff)
  qed
qed

subsection \<open>The lock\<close>

lemma length_ancestors: "q \<in> set (path_ancestors p) \<Longrightarrow> length q < length p"
proof (induction p rule: path_ancestors.induct)
  case (1 p)
  show ?case
  proof (cases "path_parent p")
    case None
    with "1.prems" show ?thesis by (simp add: path_ancestors.simps[of p])
  next
    case (Some x)
    with "1.prems" have "q = x \<or> q \<in> set (path_ancestors x)"
      by (simp add: path_ancestors.simps[of p])
    with "1.IH"[OF Some] length_path_parent[OF Some] show ?thesis by auto
  qed
qed

lemma is_dir_create_dir_all:
  "length p < length q \<Longrightarrow> is_dir (snd (std_create_dir_all p s)) q = is_dir s q"
  using length_ancestors[of q p]
  by (auto simp: std_create_dir_all_def sys_call_def Let_def is_dir_def split: option.split)

lemma is_dir_lock_calls [simp]:
  "is_dir (snd (std_open_create p s)) q = is_dir s q"
  "is_dir (snd (std_flock p s)) q = is_dir s q"
  by (auto simp: std_open_create_def std_flock_def sys_call_def Let_def split: option.split)

lemma lock_unfold:
  assumes "session_dir (w_env w) = Inr D"
  shows "lock w = on_fs (io_bind (sys_io D (std_create_dir_all D)) (\<lambda>_.
    io_bind (sys_io (lock_file D) (std_open_create (lock_file D))) (\<lambda>_.
    sys_io (lock_file D) (std_flock (lock_file D))))) w"
  using session_dirD[OF assms]
  by (simp add: lock_def wpath_def io_bind_ask_env on_fs_bind path_parent_join)

text \<open>What the lock leaves alone: everything but its own file.\<close>

lemma lock_frame:
  assumes D: "session_dir (w_env w) = Inr D" and run: "lock w = (r, w')"
  shows "w_bus w' = w_bus w" "w_env w' = w_env w" "fs_rfail (w_fs w') = fs_rfail (w_fs w)"
    "p \<noteq> lock_file D \<Longrightarrow> file_at (w_fs w') p = file_at (w_fs w) p"
    "length D < length p \<Longrightarrow> is_dir (w_fs w') p = is_dir (w_fs w) p"
    "w_draws w' = w_draws w" "w_urandom w' = w_urandom w"
proof -
  let ?m = "io_bind (sys_io D (std_create_dir_all D)) (\<lambda>_.
    io_bind (sys_io (lock_file D) (std_open_create (lock_file D))) (\<lambda>_.
    sys_io (lock_file D) (std_flock (lock_file D))))"
  obtain s where m: "?m (w_fs w) = (r, s)" and w': "w' = w\<lparr>w_fs := s\<rparr>"
    using run by (auto simp: lock_unfold[OF D] on_fs_iff)
  have st: "f s = f (w_fs w)" if "stable f ?m" for f :: "fs \<Rightarrow> 'z"
    by (rule stableD[OF that m])
  from w' show "w_bus w' = w_bus w" "w_env w' = w_env w" "w_draws w' = w_draws w"
    "w_urandom w' = w_urandom w" by simp_all
  have "stable fs_rfail ?m" by (intro stable_intros stable_sys_io) simp_all
  with st w' show "fs_rfail (w_fs w') = fs_rfail (w_fs w)" by fastforce
  have "stable (\<lambda>s. file_at s p) ?m" if "p \<noteq> lock_file D"
    by (intro stable_intros stable_sys_io) (simp_all add: file_at_frame that)
  with st[of "\<lambda>s. file_at s p"] w'
  show "p \<noteq> lock_file D \<Longrightarrow> file_at (w_fs w') p = file_at (w_fs w) p" by simp
  have "stable (\<lambda>s. is_dir s p) ?m" if "length D < length p"
    by (intro stable_intros stable_sys_io) (simp_all add: is_dir_create_dir_all that)
  with st[of "\<lambda>s. is_dir s p"] w'
  show "length D < length p \<Longrightarrow> is_dir (w_fs w') p = is_dir (w_fs w) p" by simp
qed

lemma length_state_file: "plain_name n \<Longrightarrow> D \<noteq> [] \<Longrightarrow> last D \<noteq> SLASH \<Longrightarrow> length D < length (path_join D n)"
  using plain_name_hd[of n] by (auto simp: path_join_def)

lemma lock_views:
  assumes D: "session_dir (w_env w) = Inr D" and run: "lock w = (r, w')"
  shows "v_gen (w_fs w') D = v_gen (w_fs w) D" "v_pre (w_fs w') D = v_pre (w_fs w) D"
    "v_listed (w_fs w') D = v_listed (w_fs w) D" "rfail_ok (w_fs w') = rfail_ok (w_fs w)"
    "state_present (w_fs w') D = state_present (w_fs w) D" "session_dir (w_env w') = Inr D"
  using lock_frame[OF D run] length_state_file[of _ D] session_dirD(1,2)[OF D] D
  by (simp_all add: v_gen_def v_pre_def v_listed_def rfail_ok_def state_present_def path_exists_def)

subsection \<open>Ending a generation\<close>

lemma end_generation_ok:
  assumes c: "env_contract bus val" and D: "session_dir (w_env w) = Inr D"
    and rf: "rfail_ok (w_fs w)" and p: "state_present (w_fs w) D"
    and run: "end_generation bus w = (Inr u, w')"
  shows "val (w_bus w') k =
    restored (listed_now (w_fs w) D) (v_pre (w_fs w) D) (val (w_bus w)) k"
proof -
  from run obtain u1 w1 where l: "lock w = (Inr u1, w1)"
    and r: "restore_and_clear_locked bus w1 = (Inr u, w')"
    by (auto simp: end_generation_def io_bind_Inr_iff)
  note v = lock_views[OF D l]
  from restore_ok[OF v(6) _ _ r] rf p v obtain b'
    where b: "restore_bus bus (listed_now (w_fs w) D) (v_pre (w_fs w) D) (w_bus w1) = (Inr (), b')"
      and w': "w' = snd (clear_state (state_files D) (w1\<lparr>w_bus := b'\<rparr>))"
    by auto
  have "w_bus w' = b'"
    unfolding w' by (simp add: stable_snd[OF stable_clear[OF stable_bus_on_fs]])
  with restore_bus_ok[OF c _ _ b, of k] v_pre_kept lock_frame(1)[OF D l] show ?thesis
    by simp
qed

lemma end_generation_err:
  assumes c: "env_contract bus val" and D: "session_dir (w_env w) = Inr D"
    and rf: "rfail_ok (w_fs w)"
    and run: "end_generation bus w = (Inl e, w')"
  shows "v_gen (w_fs w') D = v_gen (w_fs w) D" "v_pre (w_fs w') D = v_pre (w_fs w) D"
    "v_listed (w_fs w') D = v_listed (w_fs w) D" "rfail_ok (w_fs w')"
    "state_present (w_fs w') D = state_present (w_fs w) D" "session_dir (w_env w') = Inr D"
    "val (w_bus w') k = val (w_bus w) k \<or> bm_get (v_pre (w_fs w) D) k \<noteq> None \<or>
       owned (listed_now (w_fs w) D) k"
proof -
  from run consider (lock) "lock w = (Inl e, w')"
    | (restore) u1 w1 where "lock w = (Inr u1, w1)" "restore_and_clear_locked bus w1 = (Inl e, w')"
    by (auto simp: end_generation_def io_bind_Inl_iff)
  then have "v_gen (w_fs w') D = v_gen (w_fs w) D \<and> v_pre (w_fs w') D = v_pre (w_fs w) D \<and>
    v_listed (w_fs w') D = v_listed (w_fs w) D \<and> rfail_ok (w_fs w') \<and>
    state_present (w_fs w') D = state_present (w_fs w) D \<and> session_dir (w_env w') = Inr D \<and>
    (val (w_bus w') k = val (w_bus w) k \<or> bm_get (v_pre (w_fs w) D) k \<noteq> None \<or>
       owned (listed_now (w_fs w) D) k)"
  proof cases
    case lock
    from lock_views[OF D lock] lock_frame(1)[OF D lock] rf show ?thesis by simp
  next
    case restore
    note v = lock_views[OF D restore(1)]
    from restore_err[OF v(6) _ restore(2)] v(4) rf
    have x: "w_fs w' = w_fs w1" "w_env w' = w_env w1"
      "w_bus w' = w_bus w1 \<or> restore_bus bus (listed_now (w_fs w1) D) (v_pre (w_fs w1) D) (w_bus w1) =
        (Inl e, w_bus w')" by auto
    have "val (w_bus w') k = val (w_bus w1) k \<or> bm_get (v_pre (w_fs w) D) k \<noteq> None \<or>
       owned (listed_now (w_fs w) D) k"
      using x(3) restore_bus_any[OF c _ _, of "v_pre (w_fs w) D" "listed_now (w_fs w) D" "w_bus w1"]
        v_pre_kept v(1-3) by auto
    with x(1,2) v rf lock_frame(1)[OF D restore(1)] show ?thesis by simp
  qed
  then show "v_gen (w_fs w') D = v_gen (w_fs w) D" "v_pre (w_fs w') D = v_pre (w_fs w) D"
    "v_listed (w_fs w') D = v_listed (w_fs w) D" "rfail_ok (w_fs w')"
    "state_present (w_fs w') D = state_present (w_fs w) D" "session_dir (w_env w') = Inr D"
    "val (w_bus w') k = val (w_bus w) k \<or> bm_get (v_pre (w_fs w) D) k \<noteq> None \<or>
       owned (listed_now (w_fs w) D) k"
    by simp_all
qed

lemma end_generation_retry:
  assumes c: "env_contract bus val" and D: "session_dir (w_env w) = Inr D"
    and rf: "rfail_ok (w_fs w)" and p: "state_present (w_fs w) D"
    and first: "end_generation bus w = (Inl e, w1)" and second: "end_generation bus w1 = (Inr u, w2)"
  shows "val (w_bus w2) k =
    restored (listed_now (w_fs w) D) (v_pre (w_fs w) D) (val (w_bus w)) k"
proof -
  note err = end_generation_err[OF c D rf first]
  have "val (w_bus w2) k = restored (listed_now (w_fs w1) D) (v_pre (w_fs w1) D) (val (w_bus w1)) k"
    using end_generation_ok[OF c err(6) err(4) _ second] p err(5) by simp
  with err(1-3) err(7)[of k] show ?thesis by (auto simp: restored_def split: option.splits)
qed

subsection \<open>Recording names for clean-up\<close>

lemma append_loop_set:
  "append_loop g es added ns = (es', added') \<Longrightarrow>
   set es' = set es \<union> {CleanupEntry g n |n. n \<in> set ns \<and> keep_name n} \<and>
   (added' \<longleftrightarrow> added \<or> set es' \<noteq> set es)"
proof (induction g es added ns arbitrary: es' added' rule: append_loop.induct)
  case (2 g es added n ns)
  show ?case
  proof (cases "keep_name n \<and> CleanupEntry g n \<notin> set es")
    case True
    with "2.IH"(1)[OF True, of es' added'] "2.prems" show ?thesis by auto
  next
    case False
    with "2.IH"(2)[OF False, of es' added'] "2.prems" show ?thesis by auto
  qed
qed auto

lemma bs_wf_append_loop:
  "bs_wf es \<Longrightarrow> append_loop g es added ns = (es', added') \<Longrightarrow> bs_wf es'"
  by (induction g es added ns arbitrary: es' added' rule: append_loop.induct)
     (auto split: if_splits)

lemma parse_cleanup_ok: "cleanup_ok (parse_cleanup c)"
proof -
  have "gen_ok (ce_generation e)" if "e \<in> set (parse_cleanup c)" for e
  proof -
    from that obtain l where l: "l \<in> set (lines c)" "parse_cleanup_line l = Some e"
      by (auto simp: parse_cleanup_def map_filter_def)
    then obtain g n where "split_once (CHR '' '') l = Some (g, n)" "g \<noteq> []" "ce_generation e = g"
      by (auto simp: parse_cleanup_line_def split: option.splits prod.splits if_splits)
    then have "l = g @ CHR '' '' # n" "CHR '' '' \<notin> set g" "g \<noteq> []" "ce_generation e = g"
      by (simp_all add: split_once_Some_iff)
    moreover have "NL \<notin> set l" using l(1) lines_no_newline by blast
    ultimately show ?thesis by (auto simp: gen_ok_def)
  qed
  then show ?thesis using parse_cleanup_sound by (auto simp: cleanup_ok_def)
qed

text \<open>One atomic write of a state file, seen from the world.\<close>

lemma write_state_file:
  assumes D: "session_dir (w_env w) = Inr D" and n: "plain_name n"
    and run: "on_fs (atomic_write_path (path_join D n) c) w = (r, w')"
  shows "file_at (w_fs w') (path_join D n) =
      (if is_ok r then Some c else file_at (w_fs w) (path_join D n))"
    "p \<noteq> path_join D n \<Longrightarrow> \<not> is_temp p \<Longrightarrow> file_at (w_fs w') p = file_at (w_fs w) p"
    "w_bus w' = w_bus w" "w_env w' = w_env w" "fs_rfail (w_fs w') = fs_rfail (w_fs w)"
proof -
  note st = atomic_write_path_join[OF n session_dirD(1,2)[OF D], of c]
  obtain s where s: "disk_store (D, n) c (w_fs w) = (r, s)" and w': "w' = w\<lparr>w_fs := s\<rparr>"
    using run st by (auto simp: on_fs_iff)
  have l: "disk_loc (D, n) = path_join D n" by (simp add: disk_loc_def)
  show "file_at (w_fs w') (path_join D n) =
      (if is_ok r then Some c else file_at (w_fs w) (path_join D n))"
    using disk.store_ok[of "(D, n)" c "w_fs w"] disk.store_err[of "(D, n)" c "w_fs w"] s w' l
    by (cases r) auto
  show "p \<noteq> path_join D n \<Longrightarrow> \<not> is_temp p \<Longrightarrow> file_at (w_fs w') p = file_at (w_fs w) p"
    using disk.store_frame_run[OF s, of p] w' l by simp
  show "w_bus w' = w_bus w" "w_env w' = w_env w" using w' by simp_all
  show "fs_rfail (w_fs w') = fs_rfail (w_fs w)"
    using stableD[OF rfail_atomic_write_path, of "path_join D n" c "w_fs w" r s] s st w' by simp
qed

definition append_locked :: "string \<Rightarrow> string list \<Rightarrow> ('b world, unit) io" where
  "append_locked D names w1 =
     (case read_generation (w_fs w1) (gen_file D) of
        Inl e \<Rightarrow> (Inl e, w1)
      | Inr None \<Rightarrow>
          (Inl (Resolve ''no active wsmr session generation; refusing to record cleanup state''), w1)
      | Inr (Some g) \<Rightarrow>
          (case read_cleanup_entries (w_fs w1) (cleanup_list D) of
             Inl e \<Rightarrow> (Inl e, w1)
           | Inr es \<Rightarrow>
               if snd (append_loop g es False names)
               then on_fs (write_cleanup_entries (cleanup_list D) (fst (append_loop g es False names))) w1
               else (Inr (), w1)))"

lemma append_cleanup_unfold:
  assumes D: "session_dir (w_env w) = Inr D"
  shows "append_cleanup names w = io_bind lock (\<lambda>_. append_locked D names) w"
proof -
  obtain r w1 where l: "lock w = (r, w1)" by (cases "lock w")
  have "session_dir (w_env w1) = Inr D" using lock_views(6)[OF D l] .
  note rp = session_dirD(3)[OF this]
  show ?thesis
    unfolding append_cleanup_def io_bind_def[of lock] l
    by (cases r)
       (auto simp: append_locked_def wpath_def io_bind_ask_env io_bind_ask_fs rp split: sum.split option.split prod.split)
qed

lemma append_cleanup_ok:
  assumes D: "session_dir (w_env w) = Inr D" and rf: "rfail_ok (w_fs w)"
    and run: "append_cleanup names w = (Inr u, w')"
  obtains g where "v_gen (w_fs w) D = Some g" "v_gen (w_fs w') D = Some g"
    "v_pre (w_fs w') D = v_pre (w_fs w) D" "w_bus w' = w_bus w" "w_env w' = w_env w"
    "rfail_ok (w_fs w')"
    "gen_ok g \<Longrightarrow> set (v_listed (w_fs w') D) =
       set (v_listed (w_fs w) D) \<union> {CleanupEntry g n |n. n \<in> set names \<and> keep_name n}"
proof -
  from run obtain u1 w1 where l: "lock w = (Inr u1, w1)"
    and body: "append_locked D names w1 = (Inr u, w')"
    by (auto simp: append_cleanup_unfold[OF D] io_bind_Inr_iff)
  from body obtain g es where g: "read_generation (w_fs w1) (gen_file D) = Inr (Some g)"
    and es: "read_cleanup_entries (w_fs w1) (cleanup_list D) = Inr es"
    and wr: "(if snd (append_loop g es False names)
      then on_fs (write_cleanup_entries (cleanup_list D) (fst (append_loop g es False names))) w1
      else (Inr (), w1)) = (Inr u, w')"
    by (auto simp: append_locked_def split: sum.splits option.splits)
  note v = lock_views[OF D l]
  note f = lock_frame[OF D l]
  have rf1: "rfail_ok (w_fs w1)" using v(4) rf by simp
  have g1: "v_gen (w_fs w1) D = Some g" using read_generation_view[OF rf1 g] .
  have es1: "v_listed (w_fs w1) D = es" using read_cleanup_view[OF rf1 es] .
  obtain es' added where al: "append_loop g es False names = (es', added)" by fastforce
  note set = append_loop_set[OF al]
  show ?thesis
  proof (cases added)
    case False
    with wr al have "w' = w1" by simp
    moreover from False set have "set es' = set es" by simp
    ultimately show ?thesis
      using that[of g] g1 es1 v f(1,2) rf set by simp
  next
    case True
    with wr al have "on_fs (atomic_write_path (cleanup_list D) (cleanup_body es')) w1 = (Inr u, w')"
      by (simp add: write_cleanup_entries_def)
    note w = write_state_file[OF v(6) plain_state_names(3) this]
    have "set (v_listed (w_fs w') D) = set es'" if "gen_ok g"
    proof -
      have "cleanup_ok es"
        using es1 parse_cleanup_ok by (auto simp: v_listed_def cleanup_ok_def split: option.splits)
      then have "\<forall>e\<in>set es'. gen_ok (ce_generation e) \<and> keep_name (ce_name e)"
        using set that by (auto simp: cleanup_ok_def)
      then show ?thesis using w(1) by (simp add: v_listed_def parse_cleanup_print)
    qed
    moreover have "v_gen (w_fs w') D = v_gen (w_fs w1) D" "v_pre (w_fs w') D = v_pre (w_fs w1) D"
      using w(2) by (simp_all add: v_gen_def v_pre_def)
    moreover have "rfail_ok (w_fs w')" using w(5) rf1 by (simp add: rfail_ok_def)
    ultimately show ?thesis using that[of g] g1 es1 v f(1,2) w(3,4) set by simp
  qed
qed

lemma append_cleanup_err:
  assumes D: "session_dir (w_env w) = Inr D" and rf: "rfail_ok (w_fs w)"
    and run: "append_cleanup names w = (Inl e, w')"
  shows "v_gen (w_fs w') D = v_gen (w_fs w) D \<and> v_pre (w_fs w') D = v_pre (w_fs w) D \<and>
    v_listed (w_fs w') D = v_listed (w_fs w) D \<and> w_bus w' = w_bus w \<and> w_env w' = w_env w \<and>
    rfail_ok (w_fs w')"
proof -
  from run obtain r1 w1 where l: "lock w = (r1, w1)"
    and body: "w' = w1 \<or> append_locked D names w1 = (Inl e, w')"
    by (auto simp: append_cleanup_unfold[OF D] io_bind_Inl_iff)
  have cs: "w' = w1 \<or> (\<exists>es. on_fs (atomic_write_path (cleanup_list D) (cleanup_body es)) w1 = (Inl e, w'))"
    using body
    by (auto simp: append_locked_def write_cleanup_entries_def
        split: sum.splits option.splits if_splits)
  note v = lock_views[OF D l]
  note f = lock_frame[OF D l]
  from cs show ?thesis
  proof
    assume "\<exists>es. on_fs (atomic_write_path (cleanup_list D) (cleanup_body es)) w1 = (Inl e, w')"
    then obtain es where "on_fs (atomic_write_path (cleanup_list D) (cleanup_body es)) w1 = (Inl e, w')" ..
    note w = write_state_file[OF v(6) plain_state_names(3) this]
    have "v_gen (w_fs w') D = v_gen (w_fs w1) D" "v_pre (w_fs w') D = v_pre (w_fs w1) D"
      "v_listed (w_fs w') D = v_listed (w_fs w1) D"
      using w(1,2) by (simp_all add: v_gen_def v_pre_def v_listed_def)
    with v f(1,2) w(3-5) rf show ?thesis by (simp add: rfail_ok_def)
  qed (use v f(1,2) rf in simp)
qed

subsection \<open>Beginning a generation\<close>

lemma graphic_digit_char: "n < 16 \<Longrightarrow> graphic (digit_char n)"
proof -
  assume "n < 16"
  then have "n \<in> set [0..<16]" by simp
  moreover have "list_all (\<lambda>n. graphic (digit_char n)) [0..<16]" by code_simp
  ultimately show ?thesis unfolding list_all_iff by blast
qed

lemma graphic_hex2: "c \<in> set (hex2 b) \<Longrightarrow> graphic c"
  using nat_of_char_less_256[of b]
  by (auto simp: hex2_def intro!: graphic_digit_char) (simp add: less_mult_imp_div_less)

lemma random_hex_id_ok:
  assumes "random_hex_id w = (Inr i, w')"
  shows "i \<noteq> []" "\<forall>c\<in>set i. graphic c" "w' = w\<lparr>w_draws := Suc (w_draws w)\<rparr>" "length i = 16"
proof -
  define buf where "buf = (case w_urandom w (w_draws w) of
                   Some bytes \<Rightarrow> take 8 (bytes @ replicate 8 NUL)
                 | None \<Rightarrow> le_bytes64 (fs_nanos (w_fs w) (fs_calls (w_fs w))))"
  from assms have i: "i = concat (map hex2 buf)" and "w' = w\<lparr>w_draws := Suc (w_draws w)\<rparr>"
    by (auto simp: random_hex_id_def buf_def Let_def)
  then show "w' = w\<lparr>w_draws := Suc (w_draws w)\<rparr>" by simp
  have len: "length buf = 8"
    by (auto simp: buf_def le_bytes64_def split: option.split)
  have "length (concat (map hex2 xs)) = 2 * length xs" for xs
    by (induction xs) (simp_all add: hex2_def)
  with i len show "length i = 16" by simp
  then show "i \<noteq> []" by auto
  show "\<forall>c\<in>set i. graphic c" using i graphic_hex2 by auto
qed

lemma random_hex_id_never_fails: "random_hex_id w \<noteq> (Inl e, w')"
  by (simp add: random_hex_id_def Let_def)

lemma graphic_gen_ok: "i \<noteq> [] \<Longrightarrow> \<forall>c\<in>set i. graphic c \<Longrightarrow> gen_ok i"
  by (auto simp: gen_ok_def graphic_def)

lemma ws_len_rev_NL [simp]: "ws_len_rev (NL # s) = 1"
  by (cases "NL # s" rule: ws_len_rev.cases) (simp_all add: is_ascii_ws_def)

lemma trim_line:
  assumes "i \<noteq> []" "\<forall>c\<in>set i. graphic c"
  shows "trim (i @ [NL]) = i"
proof -
  obtain c t where i: "i = c # t" using assms(1) by (cases i) auto
  have "trim_start (i @ [NL]) = i @ [NL]"
    using assms(2) i by (simp add: trim_start_id ws_len_graphic)
  moreover have "trim_rev (NL # rev i) = trim_rev (rev i)"
    by (subst trim_rev.simps) simp
  moreover have "trim_rev (rev i) = rev i"
  proof (cases "rev i")
    case (Cons d r)
    then have "d \<in> set i" by (metis list.set_intros(1) set_rev)
    with assms(2) Cons show ?thesis by (simp add: trim_rev_id ws_len_rev_graphic)
  qed (simp add: trim_rev_id)
  ultimately show ?thesis by (simp add: trim_def trim_end_def)
qed

text \<open>The state file writes of a new generation, from the state the restore left.\<close>

definition write_generation :: "string \<Rightarrow> string \<Rightarrow> env \<Rightarrow> ('b world, string) io" where
  "write_generation D i pre =
     io_bind (on_fs (atomic_write_path (gen_file D) (i @ [NL]))) (\<lambda>_.
     io_bind (on_fs (atomic_write_path (pre_file D) (serialize_env pre Nul))) (\<lambda>_.
     io_bind (on_fs (atomic_write_path (cleanup_list D) [])) (\<lambda>_.
     io_return i)))"

lemma cleanup_body_Nil [simp]: "cleanup_body [] = []"
  by (simp add: cleanup_body_def)

lemma restore_env_same:
  assumes D: "session_dir (w_env w) = Inr D"
    and run: "restore_and_clear_locked bus w = (r, w')"
  shows "w_env w' = w_env w" "fs_rfail (w_fs w') = fs_rfail (w_fs w)"
proof -
  have "stable w_env (clear_state ps)" for ps
    by (intro stable_clear stable_intros)
  then have "stable w_env (io_bind (on_bus m) (\<lambda>_. clear_state ps))" for m :: "('b, unit) io" and ps
    by (intro stable_intros)
  from stableD[OF this] run show "w_env w' = w_env w"
    by (auto simp: restore_unfold[OF D] split: if_splits sum.splits prod.splits)
  have "stable (\<lambda>w. fs_rfail (w_fs w)) (clear_state ps)" for ps
    by (intro stable_clear stable_on_fs stable_sys_ignore) simp
  then have "stable (\<lambda>w. fs_rfail (w_fs w)) (io_bind (on_bus m) (\<lambda>_. clear_state ps))"
    for m :: "('b, unit) io" and ps
    by (intro stable_bind) (simp_all add: stable_def on_bus_def split: prod.split)
  from stableD[OF this] run show "fs_rfail (w_fs w') = fs_rfail (w_fs w)"
    by (auto simp: restore_unfold[OF D] split: if_splits sum.splits prod.splits)
qed

lemma begin_generation_cases:
  assumes D: "session_dir (w_env w) = Inr D" and run: "begin_generation bus pre w = (r, w')"
  obtains e where "lock w = (Inl e, w')" "r = Inl e"
  | e u w1 where "lock w = (Inr u, w1)"
      "restore_and_clear_locked bus w1 = (Inl e, w')" "r = Inl e"
  | u w1 u2 w2 i w3 where "lock w = (Inr u, w1)"
      "restore_and_clear_locked bus w1 = (Inr u2, w2)" "random_hex_id w2 = (Inr i, w3)"
      "write_generation D i pre w3 = (r, w')"
proof -
  obtain r1 w1 where l: "lock w = (r1, w1)" by (cases "lock w")
  show ?thesis
  proof (cases r1)
    case (Inl e)
    with run l show ?thesis by (auto simp: begin_generation_def io_bind_def intro: that(1))
  next
    case (Inr u)
    have D1: "session_dir (w_env w1) = Inr D" using lock_views(6)[OF D l] .
    obtain r2 w2 where rs: "restore_and_clear_locked bus w1 = (r2, w2)"
      by (cases "restore_and_clear_locked bus w1")
    show ?thesis
    proof (cases r2)
      case (Inl e)
      with run l \<open>r1 = Inr u\<close> rs show ?thesis
        by (auto simp: begin_generation_def io_bind_def intro: that(2))
    next
      case (Inr u2)
      obtain i w3 where id: "random_hex_id w2 = (Inr i, w3)"
        using random_hex_id_never_fails[of w2] by (cases "random_hex_id w2"; cases "fst (random_hex_id w2)") auto
      have env: "w_env w3 = w_env w1"
        using restore_env_same(1)[OF D1 rs] random_hex_id_ok(3)[OF id] by simp
      have w: "wpath n w4 = (Inr (path_join D n), w4)" if "w_env w4 = w_env w1" for n w4
        using that session_dirD(3)[OF D1] by (simp add: wpath_def)
      have st: "w_env w5 = w_env w4" if "on_fs m w4 = (q, w5)" for m :: "(fs, unit) io" and w4 w5 q
        using that stableD[OF stable_env_on_fs] by metis
      have "write_generation D i pre w3 = (r, w')"
        using run l \<open>r1 = Inr u\<close> rs Inr id env
        by (auto simp: begin_generation_def write_generation_def io_bind_def w st save_env_def
            write_cleanup_entries_def split: prod.splits sum.splits)
      with l \<open>r1 = Inr u\<close> rs Inr id show ?thesis by (auto intro: that(3))
    qed
  qed
qed

lemma restore_views:
  assumes D: "session_dir (w_env w) = Inr D" and rf: "rfail_ok (w_fs w)"
    and run: "restore_and_clear_locked bus w = (Inr u, w')"
  shows "wfile p w' = wfile p w \<or> wfile p w' = None"
proof (cases "state_present (w_fs w) D")
  case False
  with run show ?thesis by (simp add: restore_unfold[OF D])
next
  case True
  from restore_ok[OF D rf True run] obtain b' where
    "w' = snd (clear_state (state_files D) (w\<lparr>w_bus := b'\<rparr>))" by blast
  moreover have "wfile p (w\<lparr>w_bus := b'\<rparr>) = wfile p w" by (simp add: wfile_def)
  ultimately show ?thesis using only_removes_clear[of "state_files D"]
    unfolding only_removes_def by metis
qed

lemma begin_generation_ok:
  assumes c: "env_contract bus val" and D: "session_dir (w_env w) = Inr D"
    and rf: "rfail_ok (w_fs w)" and pre: "bm_wf pre" "nul_free pre"
    and run: "begin_generation bus pre w = (Inr i, w')"
  shows "v_gen (w_fs w') D = Some i" "gen_ok i" "v_pre (w_fs w') D = filter_map pre"
    "v_listed (w_fs w') D = []" "w_env w' = w_env w" "rfail_ok (w_fs w')"
    "val (w_bus w') k =
      (if state_present (w_fs w) D
       then restored (listed_now (w_fs w) D) (v_pre (w_fs w) D) (val (w_bus w)) k
       else val (w_bus w) k)"
proof -
  from begin_generation_cases[OF D run] obtain u w1 u2 w2 j w3 where l: "lock w = (Inr u, w1)"
    and rs: "restore_and_clear_locked bus w1 = (Inr u2, w2)"
    and id: "random_hex_id w2 = (Inr j, w3)" and wr: "write_generation D j pre w3 = (Inr i, w')"
    by (metis Inl_Inr_False)
  note v1 = lock_views[OF D l]
  note f1 = lock_frame[OF D l]
  note s2 = restore_env_same[OF v1(6) rs]
  note i3 = random_hex_id_ok[OF id]
  from wr obtain u4 w4 u5 w5 u6 where ji: "j = i"
    and a: "on_fs (atomic_write_path (gen_file D) (i @ [NL])) w3 = (Inr u4, w4)"
    and b: "on_fs (atomic_write_path (pre_file D) (serialize_env pre Nul)) w4 = (Inr u5, w5)"
    and d: "on_fs (atomic_write_path (cleanup_list D) []) w5 = (Inr u6, w')"
    by (auto simp: write_generation_def io_bind_Inr_iff)
  have D3: "session_dir (w_env w3) = Inr D" using s2(1) v1(6) i3(3) by simp
  note A = write_state_file[OF D3 plain_state_names(1) a]
  have D4: "session_dir (w_env w4) = Inr D" using A(4) D3 by simp
  note B = write_state_file[OF D4 plain_state_names(2) b]
  have D5: "session_dir (w_env w5) = Inr D" using B(4) D4 by simp
  note C = write_state_file[OF D5 plain_state_names(3) d]
  have g: "file_at (w_fs w') (gen_file D) = Some (i @ [NL])" using A(1) B(2) C(2) by simp
  have p: "file_at (w_fs w') (pre_file D) = Some (serialize_env pre Nul)" using B(1) C(2) by simp
  have cl: "file_at (w_fs w') (cleanup_list D) = Some []" using C(1) by simp
  show "gen_ok i" using i3(1,2) ji by (simp add: graphic_gen_ok)
  show "v_gen (w_fs w') D = Some i" using g i3(1,2) ji by (simp add: v_gen_def trim_line)
  show "v_pre (w_fs w') D = filter_map pre" using p pre by (simp add: v_pre_def parse_serialize_env)
  show "v_listed (w_fs w') D = []" using cl by (simp add: v_listed_def parse_cleanup_def map_filter_simps bs_of_list_def)
  show "w_env w' = w_env w" using A(4) B(4) C(4) s2(1) i3(3) f1(2) by simp
  show "rfail_ok (w_fs w')" using A(5) B(5) C(5) s2(2) i3(3) f1(3) rf by (simp add: rfail_ok_def)
  have bus: "w_bus w' = w_bus w2" using A(3) B(3) C(3) i3(3) by simp
  show "val (w_bus w') k =
      (if state_present (w_fs w) D
       then restored (listed_now (w_fs w) D) (v_pre (w_fs w) D) (val (w_bus w)) k
       else val (w_bus w) k)"
  proof (cases "state_present (w_fs w) D")
    case False
    with rs v1(5) have "w2 = w1" by (simp add: restore_unfold[OF v1(6)])
    with bus f1(1) False show ?thesis by simp
  next
    case True
    from restore_ok[OF v1(6) _ _ rs] rf True v1 obtain b'
      where r: "restore_bus bus (listed_now (w_fs w) D) (v_pre (w_fs w) D) (w_bus w1) = (Inr (), b')"
        and w2: "w2 = snd (clear_state (state_files D) (w1\<lparr>w_bus := b'\<rparr>))"
      by auto
    have "w_bus w2 = b'"
      unfolding w2 by (simp add: stable_snd[OF stable_clear[OF stable_bus_on_fs]])
    with restore_bus_ok[OF c _ _ r, of k] v_pre_kept f1(1) bus True show ?thesis by simp
  qed
qed

end
