(* ===== verification/SessProps.thy ===== *)
theory SessProps
  imports SessState
begin

text \<open>
  What the session state promises, stated for the session bus: the theorems about theory
  \<open>SessState\<close>'s operations for any systemd manager that behaves as documented, each with a run
  on the reference manager.
\<close>

section \<open>A recorded session\<close>

text \<open>Generation \<open>g1\<close> recorded \<open>BAR\<close>; before it \<open>FOO\<close> was \<open>old\<close>.\<close>

definition demo_fs :: fs where
  "demo_fs = ref_fs\<lparr>
     fs_files := [(''/run/wsmr/generation'', ''g1'' @ [NL]), (''/run/wsmr/env_pre'', ''FOO=old''),
                  (''/run/wsmr/env_cleanup.list'', ''g1 BAR'' @ [NL])],
     fs_dirs := [''/run/wsmr'', ''/run'', ''/'']\<rparr>"

definition demo_bus :: sbus where
  "demo_bus = ref_bus [(''FOO'', ''new''), (''BAR'', ''x''), (''BAZ'', ''y'')]"

definition demo_world :: "sbus world" where
  "demo_world = ref_world demo_fs demo_bus"

abbreviation demo_ops :: "sbus state_ops" where
  "demo_ops \<equiv> session_state_ops ref_ops"

abbreviation demo_dir :: string where
  "demo_dir \<equiv> ''/run/wsmr''"

lemma demo_dir: "session_dir (w_env demo_world) = Inr demo_dir"
  by code_simp

lemma demo_present: "state_present (w_fs demo_world) demo_dir"
  by code_simp

lemma demo_rfail: "rfail_ok (w_fs demo_world)"
  by (simp add: rfail_ok_def demo_world_def ref_world_def demo_fs_def ref_fs_def)

lemma demo_state: "read_state demo_dir (w_fs demo_world) = Inr ([''BAR''], [(''FOO'', ''old'')])"
  by code_simp

lemma demo_names: "keep_name ''FOO''" "keep_name ''BAR''" "keep_name ''BAZ''"
  by code_simp+

lemma demo_unset: "to_unset_names [''BAR''] [''BAR'', ''BAZ'', ''FOO''] [''FOO''] = [''BAR'']"
  by code_simp

lemma demo_restore:
  "restore_bus demo_ops [''BAR''] [(''FOO'', ''old'')] demo_bus =
     (Inr (), demo_bus\<lparr>sb_calls := 9,
        sb_env := [(''FOO'', ''old''), (''FOO'', ''new''), (''BAZ'', ''y'')],
        sb_dbus := [(''BAR'', ''''), (''FOO'', ''old'')]\<rparr>)"
  by (simp add: restore_bus_def session_state_ops_def demo_bus_def bus_run_simps demo_names demo_unset
      bm_keys_def bm_of_list_def map_filter_simps cong: run_congs)

lemma demo_lock: "\<exists>w1. lock demo_world = (Inr (), w1)"
proof -
  have "fst (lock demo_world) = Inr ()" by code_simp
  then show ?thesis by (metis prod.collapse)
qed

text \<open>A restore whose bus part succeeds, succeeds.\<close>

lemma end_generation_runs:
  assumes D: "session_dir (w_env w) = Inr D" and l: "lock w = (Inr u, w1)"
    and r: "read_state D (w_fs w1) = Inr (listed, pre)"
    and b: "restore_bus bus listed pre (w_bus w) = (Inr (), b')"
  shows "\<exists>w'. end_generation bus w = (Inr (), w')"
proof -
  have D1: "session_dir (w_env w1) = Inr D" using lock_views(6)[OF D l] .
  have "on_bus (restore_bus bus listed pre) w1 = (Inr (), w1\<lparr>w_bus := b'\<rparr>)"
    using b lock_frame(1)[OF D l] by (simp add: on_bus_def)
  moreover obtain x w2 where "clear_state (state_files D) (w1\<lparr>w_bus := b'\<rparr>) = (Inr x, w2)"
    using never_fails_clear[of "state_files D"] unfolding never_fails_def by (metis prod.collapse)
  ultimately have "restore_and_clear_locked bus w1 = (Inr x, w2) \<or>
      restore_and_clear_locked bus w1 = (Inr (), w1)"
    using r by (simp add: restore_unfold[OF D1] io_bind_Inr)
  with l show ?thesis by (auto simp: end_generation_def io_bind_Inr)
qed

lemma end_generation_fails:
  assumes D: "session_dir (w_env w) = Inr D" and l: "lock w = (Inr u, w1)"
    and p: "state_present (w_fs w) D"
    and r: "read_state D (w_fs w1) = Inr (listed, pre)"
    and b: "restore_bus bus listed pre (w_bus w) = (Inl e, b')"
  shows "end_generation bus w = (Inl e, w1\<lparr>w_bus := b'\<rparr>)"
proof -
  have D1: "session_dir (w_env w1) = Inr D" using lock_views(6)[OF D l] .
  have "on_bus (restore_bus bus listed pre) w1 = (Inl e, w1\<lparr>w_bus := b'\<rparr>)"
    using b lock_frame(1)[OF D l] by (simp add: on_bus_def)
  with r p lock_views(5)[OF D l] have "restore_and_clear_locked bus w1 = (Inl e, w1\<lparr>w_bus := b'\<rparr>)"
    by (simp add: restore_unfold[OF D1] io_bind_Inl)
  with l show ?thesis by (simp add: end_generation_def io_bind_Inr)
qed

lemma lock_read_state:
  assumes D: "session_dir (w_env w) = Inr D" and l: "lock w = (r, w1)"
  shows "read_state D (w_fs w1) = read_state D (w_fs w)"
proof -
  have "std_read (w_fs w1) p = std_read (w_fs w) p" if "p \<noteq> lock_file D" for p
    using lock_frame(3)[OF D l] lock_frame(4)[OF D l that]
    by (simp add: std_read_def split: option.split)
  then have "read_generation (w_fs w1) (gen_file D) = read_generation (w_fs w) (gen_file D)"
    "read_cleanup_entries (w_fs w1) (cleanup_list D) = read_cleanup_entries (w_fs w) (cleanup_list D)"
    "load_env (w_fs w1) (pre_file D) = load_env (w_fs w) (pre_file D)"
    by (simp_all add: read_generation_def read_cleanup_entries_def load_env_def)
  then show ?thesis by (simp only: read_state_def)
qed

lemma demo_end: "\<exists>w'. end_generation demo_ops demo_world = (Inr (), w')"
proof -
  obtain w1 where l: "lock demo_world = (Inr (), w1)" using demo_lock by blast
  have "read_state demo_dir (w_fs w1) = Inr ([''BAR''], [(''FOO'', ''old'')])"
    using lock_read_state[OF demo_dir l] demo_state by simp
  moreover have "w_bus demo_world = demo_bus" by (simp add: demo_world_def ref_world_def)
  ultimately show ?thesis using end_generation_runs[OF demo_dir l _ demo_restore[folded \<open>w_bus demo_world = demo_bus\<close>]] by blast
qed

section \<open>Properties\<close>

text \<open>
  C5: ending a generation restores the activation environment. Whatever the session did, after a
  successful \<open>end_generation\<close> every variable of the pre-session snapshot has its old value again,
  every other variable the generation recorded (or that every session owns) is gone unless policy
  keeps it, and no other variable has changed.
\<close>

theorem end_generation_restores:
  assumes "systemd_manager ops act" "session_dir (w_env w) = Inr D" "rfail_ok (w_fs w)"
    "state_present (w_fs w) D" "end_generation (session_state_ops ops) w = (Inr u, w')"
  shows "act (w_bus w') k =
    restored (listed_now (w_fs w) D) (v_pre (w_fs w) D) (act (w_bus w)) k"
  by (rule end_generation_ok[OF session_bus_contract[OF assms(1)] assms(2-5)])

theorem end_generation_restores_witness:
  "\<exists>w'. end_generation demo_ops demo_world = (Inr (), w') \<and>
     sb_act (w_bus w') ''FOO'' = Some ''old'' \<and> sb_act (w_bus w') ''BAR'' = None \<and>
     sb_act (w_bus w') ''BAZ'' = Some ''y''"
proof -
  obtain w' where e: "end_generation demo_ops demo_world = (Inr (), w')" using demo_end by blast
  note t = end_generation_restores[OF ref.systemd_manager_axioms demo_dir demo_rfail demo_present e]
  have "restored (listed_now (w_fs demo_world) demo_dir) (v_pre (w_fs demo_world) demo_dir)
      (sb_act (w_bus demo_world)) ''FOO'' = Some ''old''"
    "restored (listed_now (w_fs demo_world) demo_dir) (v_pre (w_fs demo_world) demo_dir)
      (sb_act (w_bus demo_world)) ''BAR'' = None"
    "restored (listed_now (w_fs demo_world) demo_dir) (v_pre (w_fs demo_world) demo_dir)
      (sb_act (w_bus demo_world)) ''BAZ'' = Some ''y''"
    by code_simp+
  with e t show ?thesis by auto
qed

text \<open>
  C9: an interrupted clean-up can be repeated. If \<open>end_generation\<close> fails at any point, a later
  successful run restores exactly what a single successful run would have restored: nothing the
  second run needs was lost by the first.
\<close>

theorem end_generation_retry_restores:
  assumes "systemd_manager ops act" "session_dir (w_env w) = Inr D" "rfail_ok (w_fs w)"
    "state_present (w_fs w) D" "end_generation (session_state_ops ops) w = (Inl e, w1)"
    "end_generation (session_state_ops ops) w1 = (Inr u, w2)"
  shows "act (w_bus w2) k =
    restored (listed_now (w_fs w) D) (v_pre (w_fs w) D) (act (w_bus w)) k"
  by (rule end_generation_retry[OF session_bus_contract[OF assms(1)] assms(2-6)])

text \<open>A manager whose third call fails: the read of the environment succeeds, the first look at the
  D-Bus daemon does not.\<close>

definition flaky_bus :: sbus where
  "flaky_bus = demo_bus\<lparr>sb_faults := (\<lambda>n. if n = 1 then Some (ZbusOther ''gone'') else None)\<rparr>"

definition flaky_world :: "sbus world" where
  "flaky_world = ref_world demo_fs flaky_bus"

lemma flaky_facts:
  "session_dir (w_env flaky_world) = Inr demo_dir" "state_present (w_fs flaky_world) demo_dir"
  by code_simp+

lemma flaky_first:
  "restore_bus demo_ops [''BAR''] [(''FOO'', ''old'')] flaky_bus =
     (Inl (Dbus (ZbusOther ''gone'')), flaky_bus\<lparr>sb_calls := 2\<rparr>)"
  by (simp add: restore_bus_def session_state_ops_def flaky_bus_def demo_bus_def bus_run_simps demo_names
      demo_unset bm_keys_def bm_of_list_def map_filter_simps cong: run_congs)

lemma flaky_second:
  "\<exists>b. restore_bus demo_ops [''BAR''] [(''FOO'', ''old'')] (flaky_bus\<lparr>sb_calls := 2\<rparr>) = (Inr (), b)"
  by (simp add: restore_bus_def session_state_ops_def flaky_bus_def demo_bus_def bus_run_simps demo_names
      demo_unset bm_keys_def bm_of_list_def map_filter_simps cong: run_congs)

definition flaky_after :: "sbus world" where
  "flaky_after = (snd (lock flaky_world))\<lparr>w_bus := flaky_bus\<lparr>sb_calls := 2\<rparr>\<rparr>"

lemma flaky_locks: "fst (lock flaky_world) = Inr ()" "fst (lock flaky_after) = Inr ()"
  by code_simp+

lemma flaky_runs:
  "end_generation demo_ops flaky_world = (Inl (Dbus (ZbusOther ''gone'')), flaky_after)"
  "\<exists>w2. end_generation demo_ops flaky_after = (Inr (), w2)"
proof -
  have l1: "lock flaky_world = (Inr (), snd (lock flaky_world))"
    using flaky_locks(1) by (metis prod.collapse)
  have l2: "lock flaky_after = (Inr (), snd (lock flaky_after))"
    using flaky_locks(2) by (metis prod.collapse)
  have fs: "w_fs flaky_after = w_fs (snd (lock flaky_world))" "w_fs flaky_world = w_fs demo_world"
    "w_env flaky_after = w_env (snd (lock flaky_world))"
    by (simp_all add: flaky_after_def flaky_world_def demo_world_def ref_world_def)
  have D2: "session_dir (w_env flaky_after) = Inr demo_dir"
    using lock_views(6)[OF flaky_facts(1) l1] fs(3) by simp
  have r1: "read_state demo_dir (w_fs (snd (lock flaky_world))) = Inr ([''BAR''], [(''FOO'', ''old'')])"
    using lock_read_state[OF flaky_facts(1) l1] demo_state fs(2) by simp
  have r2: "read_state demo_dir (w_fs (snd (lock flaky_after))) = Inr ([''BAR''], [(''FOO'', ''old'')])"
    using lock_read_state[OF D2 l2] r1 fs(1) by simp
  have b: "w_bus flaky_world = flaky_bus" "w_bus flaky_after = flaky_bus\<lparr>sb_calls := 2\<rparr>"
    by (simp_all add: flaky_world_def ref_world_def flaky_after_def)
  show "end_generation demo_ops flaky_world = (Inl (Dbus (ZbusOther ''gone'')), flaky_after)"
    using end_generation_fails[OF flaky_facts(1) l1 flaky_facts(2) r1 flaky_first[folded b(1)]]
    by (simp add: flaky_after_def b(1))
  obtain b2 where "restore_bus demo_ops [''BAR''] [(''FOO'', ''old'')] (w_bus flaky_after) = (Inr (), b2)"
    using flaky_second b(2) by auto
  from end_generation_runs[OF D2 l2 r2 this]
  show "\<exists>w2. end_generation demo_ops flaky_after = (Inr (), w2)" .
qed

theorem end_generation_retry_restores_witness:
  "\<exists>w1 w2 e. end_generation demo_ops flaky_world = (Inl e, w1) \<and>
     end_generation demo_ops w1 = (Inr (), w2) \<and> sb_act (w_bus w2) ''BAR'' = None"
proof -
  obtain w2 where w2: "end_generation demo_ops flaky_after = (Inr (), w2)" using flaky_runs(2) by blast
  have rf: "rfail_ok (w_fs flaky_world)"
    by (simp add: rfail_ok_def flaky_world_def ref_world_def demo_fs_def ref_fs_def)
  have "restored (listed_now (w_fs flaky_world) demo_dir) (v_pre (w_fs flaky_world) demo_dir)
      (sb_act (w_bus flaky_world)) ''BAR'' = None"
    by code_simp
  with flaky_runs(1) w2
    end_generation_retry_restores[OF ref.systemd_manager_axioms flaky_facts(1) rf flaky_facts(2)
      flaky_runs(1) w2]
  show ?thesis by auto
qed

text \<open>
  C20: recording names for clean-up. A successful \<open>append_cleanup\<close> found a current generation,
  adds exactly the valid names under that generation's identifier and keeps every entry, of any
  generation, that was there; a failed one leaves the recorded state as it was. Neither touches the
  activation environment.
\<close>

theorem append_cleanup_records:
  assumes "session_dir (w_env w) = Inr D" "rfail_ok (w_fs w)" "v_gen (w_fs w) D = Some g" "gen_ok g"
    "append_cleanup names w = (r, w')"
  shows "w_bus w' = w_bus w \<and> v_gen (w_fs w') D = Some g \<and> v_pre (w_fs w') D = v_pre (w_fs w) D \<and>
    set (v_listed (w_fs w') D) = set (v_listed (w_fs w) D) \<union>
      (if is_ok r then {CleanupEntry g n |n. n \<in> set names \<and> keep_name n} else {})"
proof (cases r)
  case (Inl e)
  with append_cleanup_err[OF assms(1,2), of names e w'] assms(3,5) show ?thesis by simp
next
  case (Inr u)
  with assms(5) have "append_cleanup names w = (Inr u, w')" by simp
  from append_cleanup_ok[OF assms(1,2) this] assms(3,4) Inr show ?thesis by auto
qed

definition demo_append :: "sbus world" where
  "demo_append = snd (append_cleanup [''QUX'', ''a-b''] demo_world)"

theorem append_cleanup_records_witness:
  "set (v_listed (w_fs demo_append) demo_dir) =
     {CleanupEntry ''g1'' ''BAR'', CleanupEntry ''g1'' ''QUX''}"
proof -
  have g: "v_gen (w_fs demo_world) demo_dir = Some ''g1''" "gen_ok ''g1''" by code_simp+
  have s: "v_listed (w_fs demo_world) demo_dir = [CleanupEntry ''g1'' ''BAR'']" by code_simp
  have ok: "is_ok (fst (append_cleanup [''QUX'', ''a-b''] demo_world))" by code_simp
  have k: "keep_name ''QUX''" "\<not> keep_name ''a-b''" by code_simp+
  have "{CleanupEntry ''g1'' n |n. n \<in> set [''QUX'', ''a-b''] \<and> keep_name n} =
      {CleanupEntry ''g1'' ''QUX''}"
    using k by auto
  with append_cleanup_records[OF demo_dir demo_rfail g, of "[''QUX'', ''a-b'']"
      "fst (append_cleanup [''QUX'', ''a-b''] demo_world)" demo_append] s ok
  show ?thesis by (auto simp: demo_append_def)
qed









end
