(* ===== verification/SessRefine.thy ===== *)
theory SessRefine
  imports SessProps
begin

text \<open>
  An abstract session and the refinement of it by src/session/state.rs. The abstract state is the
  activation environment and, while a generation is on disk, the old values it would put back and
  the names it recorded; beginning, recording and ending are transitions of that state. The mediator
  \<open>abs_session\<close> forgets the files, the lock and the identifiers.
\<close>

section \<open>The abstract session\<close>

type_synonym act_env = "string \<Rightarrow> string option"

record session_spec =
  sp_env :: act_env
  sp_live :: "(act_env \<times> string set) option"

datatype session_event = Begin env | Append "string list" | Finish

definition put_back :: "act_env \<Rightarrow> string set \<Rightarrow> act_env \<Rightarrow> act_env" where
  "put_back old names e k =
     (case old k of
        Some v \<Rightarrow> Some v
      | None \<Rightarrow>
          if (k \<in> names \<or> k \<in> set always_cleanup) \<and> k \<notin> set never_cleanup \<and> keep_name k then None
          else e k)"

definition settled :: "session_spec \<Rightarrow> act_env" where
  "settled s = (case sp_live s of None \<Rightarrow> sp_env s | Some (old, names) \<Rightarrow> put_back old names (sp_env s))"

text \<open>Files that could not be removed at the end leave at most what was there.\<close>

definition leftover :: "(act_env \<times> string set) option \<Rightarrow> (act_env \<times> string set) option \<Rightarrow> bool" where
  "leftover live live' \<longleftrightarrow>
     live' = None \<or>
     (\<exists>old names old' names'. live = Some (old, names) \<and> live' = Some (old', names') \<and>
        old' \<in> {old, (\<lambda>_. None)} \<and> names' \<subseteq> names)"

inductive spec_step :: "session_spec \<Rightarrow> session_event \<Rightarrow> session_spec \<Rightarrow> bool" where
  begins: "spec_step s (Begin pre)
    \<lparr>sp_env = settled s, sp_live = Some ((\<lambda>k. if keep_name k then bm_get pre k else None), {})\<rparr>"
| records: "sp_live s = Some (old, names) \<Longrightarrow>
    spec_step s (Append ns) (s\<lparr>sp_live := Some (old, names \<union> {n \<in> set ns. keep_name n})\<rparr>)"
| finishes: "leftover (sp_live s) live \<Longrightarrow> spec_step s Finish \<lparr>sp_env = settled s, sp_live = live\<rparr>"

inductive spec_trace :: "session_spec \<Rightarrow> session_event list \<Rightarrow> session_spec \<Rightarrow> bool" where
  nil: "spec_trace s [] s"
| cons: "spec_step s e s1 \<Longrightarrow> spec_trace s1 es s2 \<Longrightarrow> spec_trace s (e # es) s2"

inductive_simps spec_step_simps:
  "spec_step s (Begin pre) s'" "spec_step s (Append ns) s'" "spec_step s Finish s'"

section \<open>The code's runs\<close>

definition run_event :: "'b bus_ops \<Rightarrow> session_event \<Rightarrow> ('b world, unit) io" where
  "run_event ops e =
     (case e of
        Begin pre \<Rightarrow> io_bind (begin_generation (session_state_ops ops) pre) (\<lambda>_. io_return ())
      | Append ns \<Rightarrow> append_cleanup ns
      | Finish \<Rightarrow> end_generation (session_state_ops ops))"

fun run_events :: "'b bus_ops \<Rightarrow> session_event list \<Rightarrow> ('b world, unit) io" where
  "run_events ops [] = io_return ()"
| "run_events ops (e # es) = io_bind (run_event ops e) (\<lambda>_. run_events ops es)"

fun event_ok :: "session_event \<Rightarrow> bool" where
  "event_ok (Begin pre) = (bm_wf pre \<and> nul_free pre)"
| "event_ok _ = True"

definition abs_session :: "string \<Rightarrow> ('b \<Rightarrow> act_env) \<Rightarrow> 'b world \<Rightarrow> session_spec" where
  "abs_session D act w =
     \<lparr>sp_env = act (w_bus w),
      sp_live = (if state_present (w_fs w) D
                 then Some (bm_get (v_pre (w_fs w) D), set (listed_now (w_fs w) D)) else None)\<rparr>"

text \<open>What holds between the calls: the processes agree on the directory and the generation file is
  one that \<open>begin_generation\<close> wrote.\<close>

definition steady :: "string \<Rightarrow> 'b world \<Rightarrow> bool" where
  "steady D w \<longleftrightarrow>
     session_dir (w_env w) = Inr D \<and> rfail_ok (w_fs w) \<and>
     (\<forall>g. v_gen (w_fs w) D = Some g \<longrightarrow> gen_ok g)"

lemma settled_abs:
  "settled (abs_session D act w) k =
     (if state_present (w_fs w) D
      then restored (listed_now (w_fs w) D) (v_pre (w_fs w) D) (act (w_bus w)) k
      else act (w_bus w) k)"
  by (auto simp: settled_def abs_session_def put_back_def restored_def owned_def split: option.splits)

lemma gen_present: "v_gen s D = Some g \<Longrightarrow> state_present s D"
  by (auto simp: v_gen_def state_present_def path_exists_def split: option.splits)

lemma listed_iff: "n \<in> set (listed_names (Some g) es) \<longleftrightarrow> CleanupEntry g n \<in> set es"
proof
  assume "n \<in> set (listed_names (Some g) es)"
  then obtain e where "e \<in> set es" "ce_generation e = g" "ce_name e = n"
    by (auto simp: listed_names_def)
  moreover have "e = CleanupEntry (ce_generation e) (ce_name e)" by simp
  ultimately show "CleanupEntry g n \<in> set es" by metis
next
  assume "CleanupEntry g n \<in> set es"
  then show "n \<in> set (listed_names (Some g) es)"
    by (auto simp: listed_names_def intro!: image_eqI[of _ _ "CleanupEntry g n"])
qed

section \<open>The simulation\<close>

lemma begin_simulated:
  assumes c: "systemd_manager ops act" and s: "steady D w" and pre: "bm_wf pre" "nul_free pre"
    and run: "begin_generation (session_state_ops ops) pre w = (Inr i, w')"
  shows "spec_step (abs_session D act w) (Begin pre) (abs_session D act w') \<and> steady D w'"
proof -
  from s have D: "session_dir (w_env w) = Inr D" "rfail_ok (w_fs w)" by (simp_all add: steady_def)
  note b = begin_generation_ok[OF session_bus_contract[OF c] D pre run]
  have env: "act (w_bus w') = settled (abs_session D act w)" by (rule ext) (simp add: settled_abs b(7))
  have "bm_get (v_pre (w_fs w') D) = (\<lambda>k. if keep_name k then bm_get pre k else None)"
    using pre(1) by (simp add: b(3) bm_get_filter_map fun_eq_iff)
  moreover have "listed_now (w_fs w') D = []" by (simp add: b(1,4) listed_names_def bs_of_list_def)
  ultimately have "abs_session D act w' = \<lparr>sp_env = settled (abs_session D act w),
      sp_live = Some ((\<lambda>k. if keep_name k then bm_get pre k else None), {})\<rparr>"
    using gen_present[OF b(1)] env by (simp add: abs_session_def)
  moreover have "steady D w'" using b(1,2,5,6) D(1) by (simp add: steady_def)
  ultimately show ?thesis by (simp add: spec_step.begins)
qed

lemma append_simulated:
  assumes s: "steady D w" and run: "append_cleanup ns w = (Inr u, w')"
  shows "spec_step (abs_session D act w) (Append ns) (abs_session D act w') \<and> steady D w'"
proof -
  from s have D: "session_dir (w_env w) = Inr D" "rfail_ok (w_fs w)" by (simp_all add: steady_def)
  show ?thesis
  proof (rule append_cleanup_ok[OF D run])
    fix g
    assume g: "v_gen (w_fs w) D = Some g" "v_gen (w_fs w') D = Some g"
      and same: "v_pre (w_fs w') D = v_pre (w_fs w) D" "w_bus w' = w_bus w" "w_env w' = w_env w"
        "rfail_ok (w_fs w')"
      and al: "gen_ok g \<Longrightarrow> set (v_listed (w_fs w') D) =
         set (v_listed (w_fs w) D) \<union> {CleanupEntry g n |n. n \<in> set ns \<and> keep_name n}"
    have ok: "gen_ok g" using s g(1) by (simp add: steady_def)
    have "set (listed_now (w_fs w') D) = set (listed_now (w_fs w) D) \<union> {n \<in> set ns. keep_name n}"
      unfolding g using al[OF ok] by (auto simp: listed_iff)
    moreover have "steady D w'" using g ok same D(1) by (simp add: steady_def)
    ultimately show ?thesis
      using gen_present[OF g(1)] gen_present[OF g(2)] same
      by (simp add: abs_session_def spec_step_simps)
  qed
qed

lemma end_simulated:
  assumes c: "systemd_manager ops act" and s: "steady D w"
    and run: "end_generation (session_state_ops ops) w = (Inr u, w')"
  shows "spec_step (abs_session D act w) Finish (abs_session D act w') \<and> steady D w'"
proof -
  let ?b = "session_state_ops ops"
  from s have D: "session_dir (w_env w) = Inr D" "rfail_ok (w_fs w)" by (simp_all add: steady_def)
  from run obtain u1 w1 where l: "lock w = (Inr u1, w1)"
    and r: "restore_and_clear_locked ?b w1 = (Inr u, w')"
    by (auto simp: end_generation_def io_bind_Inr_iff)
  note v = lock_views[OF D(1) l]
  have rf1: "rfail_ok (w_fs w1)" using v(4) D(2) by simp
  note e = restore_env_same[OF v(6) r]
  have f: "file_at (w_fs w') p = file_at (w_fs w1) p \<or> file_at (w_fs w') p = None" for p
    using restore_views[OF v(6) rf1 r, of p] by (simp add: wfile_def)
  have gen: "v_gen (w_fs w') D = v_gen (w_fs w) D \<or> v_gen (w_fs w') D = None"
    using f[of "gen_file D"] v(1) by (auto simp: v_gen_def)
  have pre: "v_pre (w_fs w') D = v_pre (w_fs w) D \<or> v_pre (w_fs w') D = []"
    using f[of "pre_file D"] v(2) by (auto simp: v_pre_def)
  have lst: "v_listed (w_fs w') D = v_listed (w_fs w) D \<or> v_listed (w_fs w') D = []"
    using f[of "cleanup_list D"] v(3) by (auto simp: v_listed_def)
  have names: "set (listed_now (w_fs w') D) \<subseteq> set (listed_now (w_fs w) D)"
    using gen lst by (auto simp: listed_names_def split: option.splits)
  have gone: "\<not> state_present (w_fs w') D" if "\<not> state_present (w_fs w) D"
    using r v(5) that by (simp add: restore_unfold[OF v(6)])
  have "leftover (sp_live (abs_session D act w)) (sp_live (abs_session D act w'))"
    using gone pre names by (auto simp: leftover_def abs_session_def)
  moreover have "sp_env (abs_session D act w') = settled (abs_session D act w)"
  proof
    fix k
    show "sp_env (abs_session D act w') k = settled (abs_session D act w) k"
    proof (cases "state_present (w_fs w) D")
      case True
      from end_generation_ok[OF session_bus_contract[OF c] D True run, of k] True show ?thesis
        by (simp add: settled_abs) (simp add: abs_session_def)
    next
      case False
      with r v(5) have "w' = w1" by (simp add: restore_unfold[OF v(6)])
      with False lock_frame(1)[OF D(1) l] show ?thesis
        by (simp add: settled_abs) (simp add: abs_session_def)
    qed
  qed
  moreover have "steady D w'"
    using gen e v(6) rf1 s by (auto simp: steady_def rfail_ok_def)
  ultimately show ?thesis
    by (cases "abs_session D act w'") (auto simp: spec_step_simps)
qed

lemma event_simulated:
  assumes "systemd_manager ops act" "steady D w" "event_ok e" "run_event ops e w = (Inr u, w')"
  shows "spec_step (abs_session D act w) e (abs_session D act w') \<and> steady D w'"
proof (cases e)
  case (Begin pre)
  with assms(4) obtain i w1 where "begin_generation (session_state_ops ops) pre w = (Inr i, w')"
    by (auto simp: run_event_def io_bind_Inr_iff)
  from begin_simulated[OF assms(1,2) _ _ this] Begin assms(3) show ?thesis by simp
next
  case (Append ns)
  with append_simulated[OF assms(2), of ns u w'] assms(4) show ?thesis by (simp add: run_event_def)
next
  case Finish
  with end_simulated[OF assms(1,2), of u w'] assms(4) show ?thesis by (simp add: run_event_def)
qed

text \<open>A call that fails leaves the abstract state as it was, except that a failed end or begin may
  have put back some of the variables.\<close>

lemma append_fails_simulated:
  assumes s: "steady D w" and run: "append_cleanup ns w = (Inl e, w')"
  shows "sp_env (abs_session D act w') = sp_env (abs_session D act w) \<and>
    v_gen (w_fs w') D = v_gen (w_fs w) D \<and> listed_now (w_fs w') D = listed_now (w_fs w) D \<and>
    steady D w'"
proof -
  from s have D: "session_dir (w_env w) = Inr D" "rfail_ok (w_fs w)" by (simp_all add: steady_def)
  from append_cleanup_err[OF D run] s show ?thesis by (simp add: abs_session_def steady_def)
qed

text \<open>
  C2: the session state refines its abstract specification. Every sequence of successful calls to begin
  a generation, record names and end it is, through the mediator, a trace of the abstract session:
  beginning first puts back what an unfinished session left and then remembers the given values with
  nothing recorded, recording adds the exportable names, and ending puts back the remembered values
  and unsets the recorded names that policy allows, leaving every other variable alone.
\<close>

theorem session_state_refines:
  assumes "systemd_manager ops act" "steady D w" "list_all event_ok es" "run_events ops es w = (Inr u, w')"
  shows "spec_trace (abs_session D act w) es (abs_session D act w') \<and> steady D w'"
  using assms(2-4)
proof (induction es arbitrary: w)
  case Nil
  then show ?case by (auto intro: spec_trace.nil)
next
  case (Cons e es)
  then obtain u1 w1 where e: "run_event ops e w = (Inr u1, w1)"
    and es: "run_events ops es w1 = (Inr u, w')"
    by (auto simp: io_bind_Inr_iff)
  from event_simulated[OF assms(1) Cons.prems(1) _ e] Cons.prems(2)
  have s: "spec_step (abs_session D act w) e (abs_session D act w1)" "steady D w1" by simp_all
  from Cons.IH[OF s(2) _ es] Cons.prems(2) s(1) show ?case by (auto intro: spec_trace.cons)
qed

text \<open>A new session over the recorded one, with one more name, and its end.\<close>

definition demo_events :: "session_event list" where
  "demo_events = [Begin [(''FOO'', ''new'')], Append [''BAZ''], Finish]"

lemma demo_events_run: "fst (run_events ref_ops demo_events demo_world) = Inr ()"
  by code_simp

theorem session_state_refines_witness:
  "\<exists>w'. run_events ref_ops demo_events demo_world = (Inr (), w') \<and>
     spec_trace (abs_session demo_dir sb_act demo_world) demo_events (abs_session demo_dir sb_act w')"
proof -
  obtain w' where r: "run_events ref_ops demo_events demo_world = (Inr (), w')"
    using demo_events_run by (metis prod.collapse)
  have "v_gen (w_fs demo_world) demo_dir = Some ''g1''" "gen_ok ''g1''" by code_simp+
  then have "steady demo_dir demo_world" using demo_dir demo_rfail by (simp add: steady_def)
  moreover have "list_all event_ok demo_events" by code_simp
  ultimately show ?thesis using session_state_refines[OF ref.systemd_manager_axioms _ _ r] r by blast
qed

end
