(* ===== verification/Manifest.thy ===== *)
theory Manifest
  imports EnvFiles
begin

text \<open>
  The ownership manifest of a unit directory, src/units/manifest.rs: relative path to the 64-bit
  FNV-1a fingerprint of what was last written there. What \<open>render\<close> prints, \<open>parse\<close> reads
  back; a path verifies exactly if it is tracked and its content still has the recorded fingerprint.
\<close>

unbundle bit_operations_syntax

definition MANIFEST_NAME :: string where
  "MANIFEST_NAME = ''.wsmr-generation''"

type_synonym fingerprint = "64 word"

record manifest =
  mf_entries :: "(string, fingerprint) bmap"

section \<open>The fingerprint\<close>

definition FNV_OFFSET :: fingerprint where
  "FNV_OFFSET = 0xcbf29ce484222325"

definition FNV_PRIME :: fingerprint where
  "FNV_PRIME = 0x00000100000001b3"

fun fnv_loop :: "fingerprint \<Rightarrow> string \<Rightarrow> fingerprint" where
  "fnv_loop hash [] = hash"
| "fnv_loop hash (byte # bytes) =
     fnv_loop ((hash XOR word_of_nat (of_char byte)) * FNV_PRIME) bytes"

definition fingerprint :: "string \<Rightarrow> fingerprint" where
  "fingerprint content = fnv_loop FNV_OFFSET content"

section \<open>Text form\<close>

text \<open>\<open>{fp:016x}\<close>.\<close>

fun hex_digits :: "nat \<Rightarrow> nat \<Rightarrow> string" where
  "hex_digits 0 n = []"
| "hex_digits (Suc k) n = hex_digits k (n div 16) @ [digit_char (n mod 16)]"

definition hex16 :: "fingerprint \<Rightarrow> string" where
  "hex16 fp = hex_digits 16 (unat fp)"

definition parse_fp :: "string \<Rightarrow> fingerprint option" where
  "parse_fp s = map_option word_of_nat (parse_unsigned 64 16 s)"

fun manifest_parse_lines :: "(string, fingerprint) bmap \<Rightarrow> string list \<Rightarrow> (string, fingerprint) bmap" where
  "manifest_parse_lines m [] = m"
| "manifest_parse_lines m (line # ls) =
     manifest_parse_lines
       (if line = [] \<or> starts_with ''#'' line then m
        else (case split_once (CHR '' '') line of
                None \<Rightarrow> m
              | Some (hash, relname) \<Rightarrow>
                  (case parse_fp hash of
                     None \<Rightarrow> m
                   | Some fp \<Rightarrow> if relname \<noteq> [] then bm_insert relname fp m else m)))
       ls"

definition manifest_parse :: "string \<Rightarrow> manifest" where
  "manifest_parse s = \<lparr>mf_entries = manifest_parse_lines [] (lines s)\<rparr>"

definition manifest_comment :: string where
  "manifest_comment = ''# wsmr-generated manifest '' @ [CHR 0xE2, CHR 0x80, CHR 0x94] @
     '' machine-written, do not edit''"

definition manifest_line :: "string \<times> fingerprint \<Rightarrow> string" where
  "manifest_line e = hex16 (snd e) @ '' '' @ fst e"

definition manifest_render :: "manifest \<Rightarrow> string" where
  "manifest_render m =
     manifest_comment @ [NL] @ concat (map (\<lambda>e. manifest_line e @ [NL]) (mf_entries m))"

section \<open>Operations\<close>

definition manifest_load :: "fs \<Rightarrow> string \<Rightarrow> manifest result" where
  "manifest_load s dir =
     (let path = path_join dir MANIFEST_NAME
      in case std_read s path of
           Inr c \<Rightarrow> Inr (manifest_parse c)
         | Inl e \<Rightarrow> if e = IoNotFound then Inr \<lparr>mf_entries = []\<rparr> else Inl (Io path e))"

definition manifest_save :: "manifest \<Rightarrow> string \<Rightarrow> (fs, unit) io" where
  "manifest_save m dir = atomic_write dir MANIFEST_NAME (manifest_render m)"

definition manifest_verify :: "manifest \<Rightarrow> string \<Rightarrow> string \<Rightarrow> bool" where
  "manifest_verify m relname disk_content \<longleftrightarrow>
     bm_get (mf_entries m) relname = Some (fingerprint disk_content)"

definition manifest_record :: "string \<Rightarrow> string \<Rightarrow> manifest \<Rightarrow> manifest" where
  "manifest_record relname content m =
     m\<lparr>mf_entries := bm_insert relname (fingerprint content) (mf_entries m)\<rparr>"

definition manifest_forget :: "string \<Rightarrow> manifest \<Rightarrow> manifest" where
  "manifest_forget relname m = m\<lparr>mf_entries := bm_remove relname (mf_entries m)\<rparr>"

definition manifest_tracked :: "manifest \<Rightarrow> string list" where
  "manifest_tracked m = bm_keys (mf_entries m)"

section \<open>The text form reads back\<close>

lemma digits_value_append:
  "digits_value b acc (xs @ ys) =
     (case digits_value b acc xs of None \<Rightarrow> None | Some v \<Rightarrow> digits_value b v ys)"
  by (induction xs arbitrary: acc) (auto split: option.split)

lemma digit_value_hex: "n < 16 \<Longrightarrow> digit_value (digit_char n) = Some n"
proof -
  assume "n < 16"
  then have "n \<in> set [0..<16]" by simp
  moreover have "list_all (\<lambda>n. digit_value (digit_char n) = Some n) [0..<16]" by code_simp
  ultimately show ?thesis unfolding list_all_iff by blast
qed

lemma hex_digits_value: "digits_value 16 acc (hex_digits k n) = Some (acc * 16 ^ k + n mod 16 ^ k)"
proof (induction k arbitrary: n)
  case (Suc k)
  have "n mod (16 * 16 ^ k) = 16 * (n div 16 mod 16 ^ k) + n mod 16"
    by (rule mod_mult2_eq)
  with Suc show ?case
    by (simp add: digits_value_append digit_value_hex algebra_simps)
qed simp

lemma hex_digits_chars: "c \<in> set (hex_digits k n) \<Longrightarrow> is_digit c \<or> is_lower c"
proof (induction k arbitrary: n)
  case (Suc k)
  have "list_all (\<lambda>n. is_digit (digit_char n) \<or> is_lower (digit_char n)) [0..<16]" by code_simp
  then have "is_digit (digit_char (n mod 16)) \<or> is_lower (digit_char (n mod 16))"
    unfolding list_all_iff by (metis atLeast0LessThan lessThan_iff mod_less_divisor set_upt zero_less_numeral)
  with Suc show ?case by auto
qed simp

lemma length_hex_digits [simp]: "length (hex_digits k n) = k"
  by (induction k arbitrary: n) auto

lemma hex16_nonempty [simp]: "hex16 fp \<noteq> []"
  using length_hex_digits[of 16 "unat fp"] by (metis hex16_def list.size(3) zero_neq_numeral)

lemma hex16_absent: "c \<in> {CHR ''+'', CHR '' '', CHR ''#'', NL, CR} \<Longrightarrow> c \<notin> set (hex16 fp)"
  using hex_digits_chars[of c 16 "unat fp"] by (auto simp: hex16_def char_class_defs)

lemma parse_hex16: "parse_fp (hex16 fp) = Some fp"
proof -
  obtain c s where h: "hex16 fp = c # s" by (cases "hex16 fp") auto
  have "c \<noteq> CHR ''+''" using hex16_absent[of "CHR ''+''" fp] h by auto
  moreover have "unat fp < 2 ^ 64" using unsigned_less[of fp, where 'a = nat] by simp
  moreover have "(16 :: nat) ^ 16 = 2 ^ 64" by simp
  ultimately have "parse_unsigned 64 16 (hex16 fp) = Some (unat fp)"
    using h hex_digits_value[of 0 16 "unat fp"]
    by (simp add: parse_unsigned_def Let_def hex16_def)
  then show ?thesis by (simp add: parse_fp_def)
qed

definition relname_ok :: "string \<Rightarrow> bool" where
  "relname_ok r \<longleftrightarrow> r \<noteq> [] \<and> NL \<notin> set r \<and> last r \<noteq> CR"

definition manifest_ok :: "manifest \<Rightarrow> bool" where
  "manifest_ok m \<longleftrightarrow> bm_wf (mf_entries m) \<and> (\<forall>e\<in>set (mf_entries m). relname_ok (fst e))"

lemma manifest_parse_lines_print:
  assumes "\<forall>e\<in>set es. relname_ok (fst e)"
  shows "manifest_parse_lines m (map (\<lambda>e. strip_cr (manifest_line e)) es) = bm_extend m es"
  using assms
proof (induction es arbitrary: m)
  case (Cons e es)
  obtain r fp where e: "e = (r, fp)" by (cases e)
  with Cons.prems have r: "relname_ok r" by simp
  have s: "strip_cr (manifest_line e) = hex16 fp @ CHR '' '' # r"
    using r by (auto simp: strip_cr_def manifest_line_def e relname_ok_def)
  have "\<not> starts_with ''#'' (hex16 fp @ CHR '' '' # r)"
    using hex16_absent[of "CHR ''#''" fp] by (cases "hex16 fp") (auto simp: starts_with_iff)
  moreover have "split_once (CHR '' '') (hex16 fp @ CHR '' '' # r) = Some (hex16 fp, r)"
    using hex16_absent[of "CHR '' ''" fp] by simp
  moreover have "r \<noteq> []" using r by (simp add: relname_ok_def)
  ultimately show ?case using Cons s unfolding e by (simp add: parse_hex16)
qed simp

lemma manifest_parse_render:
  assumes "manifest_ok m"
  shows "manifest_parse (manifest_render m) = m"
proof -
  have r: "manifest_render m = unlines (manifest_comment # map manifest_line (mf_entries m))"
    by (simp add: manifest_render_def unlines_def comp_def)
  have c: "NL \<notin> set manifest_comment" by code_simp
  have "\<forall>l\<in>set (manifest_comment # map manifest_line (mf_entries m)). NL \<notin> set l"
    using c assms hex16_absent[of NL] by (auto simp: manifest_line_def manifest_ok_def relname_ok_def)
  then have l: "lines (manifest_render m) =
      strip_cr manifest_comment # map (\<lambda>e. strip_cr (manifest_line e)) (mf_entries m)"
    unfolding r by (subst lines_unlines) (simp_all add: comp_def)
  have "starts_with ''#'' (strip_cr manifest_comment)" by code_simp
  then have "manifest_parse_lines [] (lines (manifest_render m)) = bm_extend [] (mf_entries m)"
    using assms manifest_parse_lines_print by (simp add: l manifest_ok_def)
  also have "\<dots> = mf_entries m"
    using assms bm_of_list_id[of "mf_entries m"] by (simp add: bm_of_list_def manifest_ok_def)
  finally show ?thesis by (simp add: manifest_parse_def)
qed

interpretation manifest_codec: codec manifest_render manifest_parse manifest_ok
  by unfold_locales (rule manifest_parse_render)

interpretation manifest_file: coded_store disk_store file_at disk_loc is_temp
  manifest_render manifest_parse manifest_ok
  ..

section \<open>What the operations mean\<close>

lemma manifest_verify_record:
  "bm_wf (mf_entries m) \<Longrightarrow> manifest_verify (manifest_record r c m) r' d \<longleftrightarrow>
     (if r' = r then fingerprint d = fingerprint c else manifest_verify m r' d)"
  by (auto simp: manifest_verify_def manifest_record_def)

lemma manifest_verify_forget:
  "bm_wf (mf_entries m) \<Longrightarrow>
   manifest_verify (manifest_forget r m) r' d \<longleftrightarrow> r' \<noteq> r \<and> manifest_verify m r' d"
  by (auto simp: manifest_verify_def manifest_forget_def)

lemma manifest_ok_record: "manifest_ok m \<Longrightarrow> relname_ok r \<Longrightarrow> manifest_ok (manifest_record r c m)"
  by (auto simp: manifest_ok_def manifest_record_def) (metis bm_get_in_iff bm_get_insert bm_wf_insert fst_conv option.sel)

lemma manifest_ok_forget: "manifest_ok m \<Longrightarrow> manifest_ok (manifest_forget r m)"
  by (auto simp: manifest_ok_def manifest_forget_def) (metis bm_get_in_iff bm_get_remove bm_wf_remove fst_conv option.distinct(1))

text \<open>One step of the fingerprint loses nothing: the multiplier is odd, so equal-length contents that
  differ in one byte have different fingerprints.\<close>

definition FNV_PRIME_INV :: fingerprint where
  "FNV_PRIME_INV = 0xce965057aff6957b"

lemma FNV_PRIME_odd: "FNV_PRIME * FNV_PRIME_INV = 1"
  by (simp add: FNV_PRIME_def FNV_PRIME_INV_def)

lemma fnv_step_inj: "(h XOR b) * FNV_PRIME = (h' XOR b) * FNV_PRIME \<Longrightarrow> h = h'"
proof -
  assume "(h XOR b) * FNV_PRIME = (h' XOR b) * FNV_PRIME"
  then have "(h XOR b) * (FNV_PRIME * FNV_PRIME_INV) = (h' XOR b) * (FNV_PRIME * FNV_PRIME_INV)"
    by (simp only: mult.assoc[symmetric])
  then have "(h XOR b) XOR b = (h' XOR b) XOR b" by (simp add: FNV_PRIME_odd)
  then show ?thesis by (simp add: xor.assoc)
qed

end
