(* ===== verification/Templates.thy ===== *)
theory Templates
  imports Fs
begin

text \<open>
  The unit graph and the per-compositor drop-ins, src/units/templates.rs. Every shipped unit is a
  definition of its own with its text line by line; \<open>GRAPH\<close> and \<open>TWEAKS\<close> list them. Command
  lines are printed with POSIX quoting, which is proved to be undone by a POSIX word splitter.
\<close>

section \<open>Units\<close>

record unit_template =
  ut_name :: string
  ut_body :: string

record render_ctx =
  rc_bin_name :: string
  rc_bin_path :: string
  rc_waitpid_bin :: string

definition render :: "string \<Rightarrow> render_ctx \<Rightarrow> string" where
  "render body ctx =
     replace_all ''@BIN_NAME@'' (rc_bin_name ctx)
       (replace_all ''@WAITPID_BIN@'' (rc_waitpid_bin ctx)
         (replace_all ''@BIN_PATH@'' (rc_bin_path ctx) body))"

definition unit_ws_envelope_target :: unit_template where
  "unit_ws_envelope_target = \<lparr>ut_name = ''wayland-session-envelope@.target'',
     ut_body = unlines
      [''[Unit]'',
       ''Description=Session envelope of %I Wayland compositor'',
       ''Documentation=man:uwsm(1) man:systemd.special(7)'',
       ''BindsTo=wayland-wm-env@%i.service wayland-wm@%i.service'',
       ''Before=wayland-wm-env@%i.service wayland-wm@%i.service'',
       ''PropagatesStopTo=wayland-wm@%i.service'',
       ''Conflicts=wayland-session-shutdown.target'',
       ''After=wayland-session-shutdown.target'',
       ''StopWhenUnneeded=yes'']\<rparr>"

definition unit_ws_pre_target :: unit_template where
  "unit_ws_pre_target = \<lparr>ut_name = ''wayland-session-pre@.target'',
     ut_body = unlines
      [''[Unit]'',
       ''Description=Preparation for session of %I Wayland compositor'',
       ''Documentation=man:uwsm(1) man:systemd.special(7)'',
       ''Requires=wayland-wm-env@%i.service'',
       ''BindsTo=graphical-session-pre.target'',
       ''Before=graphical-session-pre.target'',
       ''PropagatesStopTo=graphical-session-pre.target'',
       ''Conflicts=wayland-session-shutdown.target'',
       ''Before=wayland-session-shutdown.target'',
       ''RefuseManualStart=yes'',
       ''RefuseManualStop=yes'',
       ''StopWhenUnneeded=yes'']\<rparr>"

definition unit_ws_target :: unit_template where
  "unit_ws_target = \<lparr>ut_name = ''wayland-session@.target'',
     ut_body = unlines
      [''[Unit]'',
       ''Description=Session of %I Wayland compositor'',
       ''Documentation=man:uwsm(1) man:systemd.special(7)'',
       ''Requires=wayland-session-pre@%i.target wayland-wm@%i.service'',
       ''Wants=wayland-session-waitenv.service wayland-session-xdg-autostart@%i.target'',
       ''After=graphical-session-pre.target'',
       ''BindsTo=graphical-session.target'',
       ''Before=graphical-session.target'',
       ''PropagatesStopTo=graphical-session.target'',
       ''Conflicts=wayland-session-shutdown.target'',
       ''Before=wayland-session-shutdown.target'',
       ''StopWhenUnneeded=yes'']\<rparr>"

definition unit_ws_xdg_autostart_target :: unit_template where
  "unit_ws_xdg_autostart_target = \<lparr>ut_name = ''wayland-session-xdg-autostart@.target'',
     ut_body = unlines
      [''[Unit]'',
       ''Description=XDG Autostart for session of %I Wayland compositor'',
       ''Documentation=man:uwsm(1) man:systemd.special(7)'',
       ''PartOf=graphical-session.target'',
       ''After=wayland-session@%i.target graphical-session.target'',
       ''BindsTo=xdg-desktop-autostart.target'',
       ''Before=xdg-desktop-autostart.target'',
       ''PropagatesStopTo=xdg-desktop-autostart.target'',
       ''Conflicts=wayland-session-shutdown.target'',
       ''Before=wayland-session-shutdown.target'',
       ''StopWhenUnneeded=yes'']\<rparr>"

definition unit_ws_shutdown_target :: unit_template where
  "unit_ws_shutdown_target = \<lparr>ut_name = ''wayland-session-shutdown.target'',
     ut_body = unlines
      [''[Unit]'',
       ''Description=Shutdown graphical session units'',
       ''Documentation=man:uwsm(1) man:systemd.special(7)'',
       ''DefaultDependencies=no'',
       ''Conflicts=graphical-session-pre.target graphical-session.target xdg-desktop-autostart.target'',
       ''After=graphical-session-pre.target graphical-session.target xdg-desktop-autostart.target'',
       ''StopWhenUnneeded=yes'']\<rparr>"

definition unit_wm_service :: unit_template where
  "unit_wm_service = \<lparr>ut_name = ''wayland-wm@.service'',
     ut_body = unlines
      [''[Unit]'',
       ''Description=Main service for %I'',
       ''Documentation=man:uwsm(1)'',
       ''Requires=wayland-session-pre@%i.target'',
       ''BindsTo=wayland-session@%i.target'',
       ''Before=wayland-session@%i.target graphical-session.target'',
       ''PropagatesStopTo=wayland-session@%i.target graphical-session.target'',
       ''After=wayland-session-pre@%i.target graphical-session-pre.target'',
       ''Wants=wayland-session-envelope@%i.target'',
       ''OnSuccess=wayland-session-shutdown.target'',
       ''OnSuccessJobMode=replace-irreversibly'',
       ''OnFailure=wayland-session-shutdown.target'',
       ''OnFailureJobMode=replace-irreversibly'',
       ''Conflicts=wayland-session-shutdown.target'',
       ''Before=wayland-session-shutdown.target'',
       ''CollectMode=inactive-or-failed'',
       ''[Service]'',
       ''# awaits for ready state notification from compositor or child'',
       ''# should be issued by '@BIN_NAME@ finalize' for example'',
       ''Type=notify'',
       ''NotifyAccess=all'',
       ''ExecStart=@BIN_PATH@ aux exec -- %I'',
       ''Restart=no'',
       ''EnvironmentFile=-%t/@BIN_NAME@/env_session.conf'',
       ''TimeoutStartSec=30'',
       ''TimeoutStopSec=10'',
       ''SyslogIdentifier=@BIN_NAME@_%I'',
       ''Slice=session.slice'']\<rparr>"

definition unit_wm_env_service :: unit_template where
  "unit_wm_env_service = \<lparr>ut_name = ''wayland-wm-env@.service'',
     ut_body = unlines
      [''[Unit]'',
       ''Description=Environment preloader for %I'',
       ''Documentation=man:uwsm(1)'',
       ''BindsTo=wayland-session-pre@%i.target'',
       ''Before=wayland-session-pre@%i.target graphical-session-pre.target'',
       ''PropagatesStopTo=wayland-session-pre@%i.target'',
       ''Wants=wayland-session-envelope@%i.target'',
       ''OnSuccess=wayland-session-shutdown.target'',
       ''OnSuccessJobMode=replace-irreversibly'',
       ''OnFailure=wayland-session-shutdown.target'',
       ''OnFailureJobMode=replace-irreversibly'',
       ''Conflicts=wayland-session-shutdown.target'',
       ''Before=wayland-session-shutdown.target'',
       ''RefuseManualStart=yes'',
       ''RefuseManualStop=yes'',
       ''StopWhenUnneeded=yes'',
       ''CollectMode=inactive-or-failed'',
       ''[Service]'',
       ''Type=oneshot'',
       ''RemainAfterExit=yes'',
       ''ExecStart=@BIN_PATH@ aux prepare-env -- \"%I\"'',
       ''ExecStopPost=@BIN_PATH@ aux cleanup-env'',
       ''Restart=no'',
       ''EnvironmentFile=-%t/@BIN_NAME@/env_session.conf'',
       ''SyslogIdentifier=@BIN_NAME@_env-preloader'',
       ''Slice=session.slice'']\<rparr>"

definition unit_ws_waitenv_service :: unit_template where
  "unit_ws_waitenv_service = \<lparr>ut_name = ''wayland-session-waitenv.service'',
     ut_body = unlines
      [''[Unit]'',
       ''Description=Wait for WAYLAND_DISPLAY and other variables'',
       ''Documentation=man:uwsm(1)'',
       ''Before=graphical-session.target'',
       ''After=graphical-session-pre.target'',
       ''CollectMode=inactive-or-failed'',
       ''OnFailure=wayland-session-shutdown.target'',
       ''OnFailureJobMode=replace-irreversibly'',
       ''Conflicts=wayland-session-shutdown.target'',
       ''Before=wayland-session-shutdown.target'',
       ''CollectMode=inactive-or-failed'',
       ''[Service]'',
       ''Type=oneshot'',
       ''RemainAfterExit=no'',
       ''ExecStart=@BIN_PATH@ aux waitenv'',
       ''Restart=no'',
       ''TimeoutStartSec=30'',
       ''SyslogIdentifier=@BIN_NAME@_waitenv'',
       ''Slice=background.slice'']\<rparr>"

definition unit_ws_bindpid_service :: unit_template where
  "unit_ws_bindpid_service = \<lparr>ut_name = ''wayland-session-bindpid@.service'',
     ut_body = unlines
      [''[Unit]'',
       ''Description=Bind graphical session to PID %i'',
       ''Documentation=man:uwsm(1)'',
       ''OnSuccess=wayland-session-shutdown.target'',
       ''OnSuccessJobMode=replace-irreversibly'',
       ''OnFailure=wayland-session-shutdown.target'',
       ''OnFailureJobMode=replace-irreversibly'',
       ''Conflicts=wayland-session-shutdown.target'',
       ''Before=wayland-session-shutdown.target'',
       ''CollectMode=inactive-or-failed'',
       ''[Service]'',
       ''Type=exec'',
       ''ExecStart=/bin/sh -c \"if command -v @WAITPID_BIN@ >/dev/null; then exec @WAITPID_BIN@ -e %i; else exec @BIN_PATH@ aux waitpid %i; fi\" waitpid'',
       ''Restart=no'',
       ''SyslogIdentifier=@BIN_NAME@_bindpid'',
       ''Slice=background.slice'']\<rparr>"

definition unit_wm_app_daemon_service :: unit_template where
  "unit_wm_app_daemon_service = \<lparr>ut_name = ''wayland-wm-app-daemon.service'',
     ut_body = unlines
      [''[Unit]'',
       ''Description=Fast application argument generator'',
       ''Documentation=man:uwsm(1)'',
       ''PartOf=graphical-session.target'',
       ''After=graphical-session.target'',
       ''Conflicts=wayland-session-shutdown.target'',
       ''Before=wayland-session-shutdown.target'',
       ''CollectMode=inactive-or-failed'',
       ''[Service]'',
       ''Type=exec'',
       ''ExecStart=@BIN_PATH@ aux app-daemon'',
       ''Restart=on-failure'',
       ''RestartMode=direct'',
       ''EnvironmentFile=-%t/@BIN_NAME@/env_session.conf'',
       ''SyslogIdentifier=@BIN_NAME@_app-daemon'',
       ''Slice=session.slice'']\<rparr>"

definition unit_session_graphical_slice :: unit_template where
  "unit_session_graphical_slice = \<lparr>ut_name = ''session-graphical.slice'',
     ut_body = unlines
      [''[Unit]'',
       ''Description=User Graphical Session Application Slice'',
       ''Documentation=man:systemd.special(7)'',
       ''PartOf=graphical-session.target'',
       ''After=graphical-session.target'',
       ''Conflicts=wayland-session-shutdown.target'',
       ''Before=wayland-session-shutdown.target'']\<rparr>"

definition unit_app_graphical_slice :: unit_template where
  "unit_app_graphical_slice = \<lparr>ut_name = ''app-graphical.slice'',
     ut_body = unlines
      [''[Unit]'',
       ''Description=User Graphical Application Slice'',
       ''Documentation=man:uwsm(1) man:systemd.special(7)'',
       ''PartOf=graphical-session.target'',
       ''After=graphical-session.target'',
       ''Conflicts=wayland-session-shutdown.target'',
       ''Before=wayland-session-shutdown.target'']\<rparr>"

definition unit_background_graphical_slice :: unit_template where
  "unit_background_graphical_slice = \<lparr>ut_name = ''background-graphical.slice'',
     ut_body = unlines
      [''[Unit]'',
       ''Description=User Graphical Background Application Slice'',
       ''Documentation=man:uwsm(1) man:systemd.special(7)'',
       ''PartOf=graphical-session.target'',
       ''After=graphical-session.target'',
       ''Conflicts=wayland-session-shutdown.target'',
       ''Before=wayland-session-shutdown.target'']\<rparr>"

definition unit_app_autostart_slice_tweak :: unit_template where
  "unit_app_autostart_slice_tweak = \<lparr>ut_name = ''app-@autostart.service.d/slice-tweak.conf'',
     ut_body = unlines
      [''# injected by @BIN_NAME@, do not edit'',
       ''[Unit]'',
       ''X-UWSMMark=tweaks'',
       ''# make autostart apps stoppable/restartable by target'',
       ''PartOf=xdg-desktop-autostart.target'',
       ''After=xdg-desktop-autostart.target'',
       ''[Service]'',
       ''# also put them in special graphical app slice'',
       ''Slice=app-graphical.slice'',
       ''EnvironmentFile=-%t/@BIN_NAME@/env_session.conf'']\<rparr>"

definition unit_app_flatpak_order_tweak :: unit_template where
  "unit_app_flatpak_order_tweak = \<lparr>ut_name = ''app-flatpak-.scope.d/order-tweak.conf'',
     ut_body = unlines
      [''# injected by @BIN_NAME@, do not edit'',
       ''[Unit]'',
       ''X-UWSMMark=tweaks'',
       ''# terminate with session properly'',
       ''PartOf=graphical-session.target'',
       ''After=graphical-session.target'',
       ''[Scope]'',
       ''# also put them in special graphical app slice'',
       ''Slice=app-graphical.slice'']\<rparr>"

definition unit_plasma_xdg_desktop_portal_kde_order_tweak :: unit_template where
  "unit_plasma_xdg_desktop_portal_kde_order_tweak = \<lparr>ut_name = ''plasma-xdg-desktop-portal-kde.service.d/order-tweak.conf'',
     ut_body = unlines
      [''# injected by @BIN_NAME@, do not edit'',
       ''[Unit]'',
       ''X-UWSMMark=tweaks'',
       ''After=graphical-session.target'']\<rparr>"

definition GRAPH :: "unit_template list" where
  "GRAPH = [unit_ws_envelope_target,
     unit_ws_pre_target,
     unit_ws_target,
     unit_ws_xdg_autostart_target,
     unit_ws_shutdown_target,
     unit_wm_service,
     unit_wm_env_service,
     unit_ws_waitenv_service,
     unit_ws_bindpid_service,
     unit_wm_app_daemon_service,
     unit_session_graphical_slice,
     unit_app_graphical_slice,
     unit_background_graphical_slice]"

definition TWEAKS :: "unit_template list" where
  "TWEAKS = [unit_app_autostart_slice_tweak, unit_app_flatpak_order_tweak, unit_plasma_xdg_desktop_portal_kde_order_tweak]"

section \<open>Quoting\<close>

definition shlex_safe :: "char \<Rightarrow> bool" where
  "shlex_safe c \<longleftrightarrow> is_alnum c \<or> c \<in> set ''@%+=:,./-_''"

definition shlex_quote :: "string \<Rightarrow> string" where
  "shlex_quote s =
     (if s = [] then [SQ, SQ]
      else if list_all shlex_safe s then s
      else [SQ] @ replace_all [SQ] [SQ, DQ, SQ, DQ, SQ] s @ [SQ])"

definition shlex_join :: "string list \<Rightarrow> string" where
  "shlex_join parts = join_with '' '' (map shlex_quote parts)"

section \<open>Drop-ins\<close>

record dropin_input =
  di_id :: string
  di_id_unit_string :: string
  di_bin_path :: string
  di_bin_name :: string
  di_name :: "string option"
  di_description :: "string option"
  di_desktop_names :: "string list"
  di_cli_desktop_names :: "string list"
  di_cli_desktop_names_exclusive :: bool
  di_cmdline :: "string list"
  di_cli_args :: "string list"

definition non_empty :: "string option \<Rightarrow> string option" where
  "non_empty opt = opt_filter (\<lambda>s. s \<noteq> []) opt"

definition desc_substring :: "dropin_input \<Rightarrow> string" where
  "desc_substring i =
     (let first = unwrap_or (non_empty (di_name i)) (di_bin_name i)
      in join_with '', ''
           (first # (case non_empty (di_description i) of Some d \<Rightarrow> [d] | None \<Rightarrow> [])))"

definition first_is_absolute :: "dropin_input \<Rightarrow> bool" where
  "first_is_absolute i = (case di_cmdline i of a # _ \<Rightarrow> starts_with ''/'' a | [] \<Rightarrow> False)"

definition dropin_header :: "string \<Rightarrow> string" where
  "dropin_header i =
     ''# injected by wsmr, do not edit'' @ [NL] @ ''[Unit]'' @ [NL] @ ''X-UWSMMark='' @ i @ [NL]"

definition exec_override :: "string list \<Rightarrow> string list \<Rightarrow> string" where
  "exec_override base extra =
     ''[Service]'' @ [NL] @ ''ExecStart='' @ [NL] @ ''ExecStart='' @ shlex_join (base @ extra) @ [NL]"

definition preloader_dropin :: "dropin_input \<Rightarrow> string option" where
  "preloader_dropin i =
     (let extra1 =
            (if non_empty (di_name i) \<noteq> None \<or> non_empty (di_description i) \<noteq> None
             then ''Description=Environment preloader for '' @ desc_substring i @ [NL] else []);
          args1 =
            (if di_cli_desktop_names_exclusive i
             then [''-eD'', join_with '':'' (di_cli_desktop_names i)]
             else if di_desktop_names i \<noteq> [di_bin_name i]
             then [''-D'', join_with '':'' (di_desktop_names i)] else []);
          abs = first_is_absolute i;
          extra2 =
            (if args1 \<noteq> [] \<or> abs
             then exec_override [di_bin_path i, ''aux'', ''prepare-env'']
                    (args1 @ [''--'', ''%I''] @ (if abs then [hd (di_cmdline i)] else []))
             else []);
          extra = extra1 @ extra2
      in if extra = [] then None else Some (dropin_header (di_id i) @ extra))"

definition service_dropin :: "dropin_input \<Rightarrow> string option" where
  "service_dropin i =
     (let extra1 =
            (if non_empty (di_name i) \<noteq> None \<or> non_empty (di_description i) \<noteq> None
             then ''Description=Main service for '' @ desc_substring i @ [NL] else []);
          svc =
            (if first_is_absolute i then di_cmdline i
             else if di_cli_args i \<noteq> [] then [] # di_cli_args i else []);
          extra2 =
            (if svc \<noteq> []
             then exec_override [di_bin_path i, ''aux'', ''exec'', ''--'', ''%I''] svc else []);
          extra = extra1 @ extra2
      in if extra = [] then None else Some (dropin_header (di_id i) @ extra))"

section \<open>Quoted words split back\<close>

text \<open>A POSIX shell's field splitting and quote removal, for words without expansions.\<close>

datatype sh_mode = Bare | InSingle | InDouble

fun sh_split_from :: "sh_mode \<Rightarrow> string option \<Rightarrow> string \<Rightarrow> string list option" where
  "sh_split_from Bare w [] = Some (case w of None \<Rightarrow> [] | Some x \<Rightarrow> [x])"
| "sh_split_from InSingle w [] = None"
| "sh_split_from InDouble w [] = None"
| "sh_split_from Bare w (c # s) =
     (if c = CHR '' '' \<or> c = TAB \<or> c = NL
      then (case w of
              None \<Rightarrow> sh_split_from Bare None s
            | Some x \<Rightarrow> map_option (\<lambda>ws. x # ws) (sh_split_from Bare None s))
      else if c = SQ then sh_split_from InSingle (Some (unwrap_or w [])) s
      else if c = DQ then sh_split_from InDouble (Some (unwrap_or w [])) s
      else if c = BSL
      then (case s of
              [] \<Rightarrow> None
            | d # s' \<Rightarrow> sh_split_from Bare (Some (unwrap_or w [] @ [d])) s')
      else sh_split_from Bare (Some (unwrap_or w [] @ [c])) s)"
| "sh_split_from InSingle w (c # s) =
     (if c = SQ then sh_split_from Bare w s
      else sh_split_from InSingle (Some (unwrap_or w [] @ [c])) s)"
| "sh_split_from InDouble w (c # s) =
     (if c = DQ then sh_split_from Bare w s
      else if c = BSL
      then (case s of
              [] \<Rightarrow> None
            | d # s' \<Rightarrow>
                sh_split_from InDouble
                  (Some (unwrap_or w [] @ (if d \<in> {CHR ''$'', BTICK, DQ, BSL} then [d] else [c, d]))) s')
      else sh_split_from InDouble (Some (unwrap_or w [] @ [c])) s)"

definition sh_split :: "string \<Rightarrow> string list option" where
  "sh_split s = sh_split_from Bare None s"

lemma shlex_safe_plain:
  "shlex_safe c \<Longrightarrow> c \<noteq> CHR '' '' \<and> c \<noteq> TAB \<and> c \<noteq> NL \<and> c \<noteq> SQ \<and> c \<noteq> DQ \<and> c \<noteq> BSL"
  by (auto simp: shlex_safe_def char_class_defs)

lemma sh_split_safe:
  "list_all shlex_safe s \<Longrightarrow> s \<noteq> [] \<Longrightarrow>
   sh_split_from Bare w (s @ rest) = sh_split_from Bare (Some (unwrap_or w [] @ s)) rest"
proof (induction s arbitrary: w)
  case (Cons c s)
  then have "sh_split_from Bare w ((c # s) @ rest) =
      sh_split_from Bare (Some (unwrap_or w [] @ [c])) (s @ rest)"
    using shlex_safe_plain[of c] by simp
  with Cons show ?case by (cases "s = []") simp_all
qed simp

lemma replace_char: "replace_all [d] r s = concat (map (\<lambda>c. if c = d then r else [c]) s)"
  by (induction s) (auto simp: starts_with_iff)

lemma sh_split_single:
  "sh_split_from InSingle (Some w) (replace_all [SQ] [SQ, DQ, SQ, DQ, SQ] s @ SQ # rest) =
     sh_split_from Bare (Some (w @ s)) rest"
  unfolding replace_char by (induction s arbitrary: w) simp_all

lemma sh_split_quote:
  "sh_split_from Bare w (shlex_quote s @ rest) = sh_split_from Bare (Some (unwrap_or w [] @ s)) rest"
  by (auto simp: shlex_quote_def sh_split_safe sh_split_single)

lemma sh_split_join: "sh_split (shlex_join parts) = Some parts"
  unfolding sh_split_def shlex_join_def
proof (induction parts)
  case (Cons p parts)
  show ?case
  proof (cases parts)
    case Nil
    then show ?thesis using sh_split_quote[of None p "[]"] by simp
  next
    case (Cons q ps)
    then have "join_with '' '' (map shlex_quote (p # parts)) =
        shlex_quote p @ CHR '' '' # join_with '' '' (map shlex_quote parts)"
      by simp
    with Cons.IH show ?thesis by (simp only: sh_split_quote) simp
  qed
qed simp

section \<open>Facts about the lists\<close>

lemma graph_names_distinct: "distinct (map ut_name GRAPH @ map ut_name TWEAKS)"
  by code_simp

text \<open>No shipped unit name has a slash but the tweaks, which are drop-ins of one directory level.\<close>

lemma graph_names_plain: "list_all (\<lambda>u. plain_name (ut_name u)) GRAPH"
  by code_simp

end
