(* ===== verification/Plan.thy ===== *)
theory Plan
  imports Manifest Templates
begin

text \<open>
  Planning unit generation and removal, src/units/plan.rs: read-only, as functions of the file
  system. The lemmas say what a plan may contain: a write to a path that holds something else only
  if the manifest proves the file is ours (or reclaiming was asked for and the path is a drop-in),
  a removal only of a file the manifest proves to be ours, never of a unit of the static graph.
\<close>

section \<open>Plans\<close>

record planned_write =
  pw_relname :: string
  pw_content :: string

record planned_remove =
  pr_relname :: string

record conflict =
  cf_relname :: string
  cf_reason :: string

record generation_plan =
  gp_writes :: "planned_write list"
  gp_removes :: "planned_remove list"
  gp_conflicts :: "conflict list"
  gp_reclaimed :: "string list"
  gp_manifest :: manifest

definition gp_is_empty :: "generation_plan \<Rightarrow> bool" where
  "gp_is_empty p \<longleftrightarrow> gp_writes p = [] \<and> gp_removes p = []"

record removal_plan =
  rp_removes :: "planned_remove list"
  rp_skipped :: "conflict list"
  rp_manifest :: manifest

definition plan_write :: "string \<Rightarrow> string \<Rightarrow> generation_plan \<Rightarrow> generation_plan" where
  "plan_write r c p = p\<lparr>gp_writes := gp_writes p @ [\<lparr>pw_relname = r, pw_content = c\<rparr>]\<rparr>"

definition plan_remove :: "string \<Rightarrow> generation_plan \<Rightarrow> generation_plan" where
  "plan_remove r p = p\<lparr>gp_removes := gp_removes p @ [\<lparr>pr_relname = r\<rparr>]\<rparr>"

definition plan_conflict :: "string \<Rightarrow> string \<Rightarrow> generation_plan \<Rightarrow> generation_plan" where
  "plan_conflict r why p =
     p\<lparr>gp_conflicts := gp_conflicts p @ [\<lparr>cf_relname = r, cf_reason = why\<rparr>]\<rparr>"

definition plan_reclaim :: "string \<Rightarrow> generation_plan \<Rightarrow> generation_plan" where
  "plan_reclaim r p = p\<lparr>gp_reclaimed := gp_reclaimed p @ [r]\<rparr>"

definition unit_conflict_reason :: string where
  "unit_conflict_reason =
     ''existing file is not a wsmr-owned generation (unknown origin, or edited since wsmr wrote it)''"

definition dropin_conflict_reason :: string where
  "dropin_conflict_reason =
     ''existing drop-in is not a wsmr-owned generation (unknown origin, or edited since wsmr wrote it)''"

definition drifted_reason :: string where
  "drifted_reason =
     ''tracked path no longer matches what wsmr wrote (drifted or tampered) '' @
     [CHR 0xE2, CHR 0x80, CHR 0x94] @ '' left in place''"

section \<open>Generation\<close>

definition classify_write ::
  "fs \<Rightarrow> string \<Rightarrow> string \<Rightarrow> string \<Rightarrow> generation_plan \<Rightarrow> generation_plan result" where
  "classify_write s dir relname content plan =
     (let path = path_join dir relname
      in case std_read s path of
           Inl e \<Rightarrow>
             if e = IoNotFound then Inr (plan_write relname content plan) else Inl (Io path e)
         | Inr existing \<Rightarrow>
             if existing = content then Inr plan
             else if manifest_verify (gp_manifest plan) relname existing
             then Inr (plan_write relname content plan)
             else Inr (plan_conflict relname unit_conflict_reason plan))"

definition classify_dropin ::
  "fs \<Rightarrow> string \<Rightarrow> string \<Rightarrow> string option \<Rightarrow> bool \<Rightarrow> generation_plan \<Rightarrow> generation_plan result" where
  "classify_dropin s dir relname wanted reclaim_stale plan =
     (let path = path_join dir relname
      in rbind
           (case std_read s path of
              Inr c \<Rightarrow> Inr (Some c)
            | Inl e \<Rightarrow> if e = IoNotFound then Inr None else Inl (Io path e)) (\<lambda>existing.
         Inr (case (existing, wanted) of
                (None, Some content) \<Rightarrow> plan_write relname content plan
              | (None, None) \<Rightarrow> plan
              | (Some old, Some content) \<Rightarrow>
                  if old = content then plan
                  else if manifest_verify (gp_manifest plan) relname old
                  then plan_write relname content plan
                  else if reclaim_stale
                  then plan_write relname content (plan_reclaim relname plan)
                  else plan_conflict relname dropin_conflict_reason plan
              | (Some old, None) \<Rightarrow>
                  if manifest_verify (gp_manifest plan) relname old
                  then plan_remove relname plan else plan)))"

fun classify_graph ::
  "fs \<Rightarrow> string \<Rightarrow> render_ctx \<Rightarrow> unit_template list \<Rightarrow> generation_plan \<Rightarrow> generation_plan result" where
  "classify_graph s dir ctx [] plan = Inr plan"
| "classify_graph s dir ctx (u # us) plan =
     rbind (classify_write s dir (ut_name u) (render (ut_body u) ctx) plan)
       (classify_graph s dir ctx us)"

text \<open>Drop-ins in the order the code classifies them: relative name and wanted content.\<close>

fun classify_dropins ::
  "fs \<Rightarrow> string \<Rightarrow> bool \<Rightarrow> (string \<times> string option) list \<Rightarrow> generation_plan \<Rightarrow> generation_plan result" where
  "classify_dropins s dir reclaim [] plan = Inr plan"
| "classify_dropins s dir reclaim ((r, wanted) # ds) plan =
     rbind (classify_dropin s dir r wanted reclaim plan) (classify_dropins s dir reclaim ds)"

definition preloader_name :: "dropin_input \<Rightarrow> string" where
  "preloader_name d = ''wayland-wm-env@'' @ di_id_unit_string d @ ''.service.d/50_custom.conf''"

definition service_name :: "dropin_input \<Rightarrow> string" where
  "service_name d = ''wayland-wm@'' @ di_id_unit_string d @ ''.service.d/50_custom.conf''"

definition wanted_dropins ::
  "render_ctx \<Rightarrow> dropin_input \<Rightarrow> bool \<Rightarrow> (string \<times> string option) list" where
  "wanted_dropins ctx d tweaks_enabled =
     map (\<lambda>t. (ut_name t, if tweaks_enabled then Some (render (ut_body t) ctx) else None)) TWEAKS @
     [(preloader_name d, preloader_dropin d), (service_name d, service_dropin d)]"

definition plan_generate ::
  "fs \<Rightarrow> string \<Rightarrow> render_ctx \<Rightarrow> dropin_input \<Rightarrow> bool \<Rightarrow> bool \<Rightarrow> generation_plan result" where
  "plan_generate s dir ctx dropins tweaks_enabled reclaim_stale =
     rbind (manifest_load s dir) (\<lambda>m.
     rbind (classify_graph s dir ctx GRAPH
              \<lparr>gp_writes = [], gp_removes = [], gp_conflicts = [], gp_reclaimed = [],
               gp_manifest = m\<rparr>)
       (classify_dropins s dir reclaim_stale (wanted_dropins ctx dropins tweaks_enabled)))"

section \<open>Removal\<close>

definition is_tweak :: "string \<Rightarrow> bool" where
  "is_tweak relname \<longleftrightarrow> list_ex (\<lambda>t. ut_name t = relname) TWEAKS"

definition is_compositor_dropin :: "string \<Rightarrow> bool" where
  "is_compositor_dropin relname \<longleftrightarrow>
     ends_with ''.service.d/50_custom.conf'' relname \<and>
     (starts_with ''wayland-wm@'' relname \<or> starts_with ''wayland-wm-env@'' relname)"

definition is_removable_dropin :: "string \<Rightarrow> bool" where
  "is_removable_dropin relname \<longleftrightarrow> is_tweak relname \<or> is_compositor_dropin relname"

definition strip_mark :: "string \<Rightarrow> string \<Rightarrow> string option" where
  "strip_mark pre relname =
     (case strip_prefix pre relname of
        None \<Rightarrow> None
      | Some rest \<Rightarrow> strip_suffix ''.service.d/50_custom.conf'' rest)"

definition mark_of :: "string \<Rightarrow> string option" where
  "mark_of relname =
     (if is_tweak relname then Some ''tweaks''
      else opt_or_else (strip_mark ''wayland-wm-env@'' relname) (strip_mark ''wayland-wm@'' relname))"

definition mark_selected :: "string list option \<Rightarrow> string \<Rightarrow> bool" where
  "mark_selected marks n =
     (case marks of
        None \<Rightarrow> True
      | Some ms \<Rightarrow> (case mark_of n of None \<Rightarrow> False | Some m \<Rightarrow> m \<in> set ms))"

fun plan_removals :: "fs \<Rightarrow> string \<Rightarrow> string list \<Rightarrow> removal_plan \<Rightarrow> removal_plan result" where
  "plan_removals s dir [] plan = Inr plan"
| "plan_removals s dir (relname # ns) plan =
     (let path = path_join dir relname;
          remove = plan\<lparr>rp_removes := rp_removes plan @ [\<lparr>pr_relname = relname\<rparr>]\<rparr>
      in case std_read s path of
           Inr existing \<Rightarrow>
             plan_removals s dir ns
               (if manifest_verify (rp_manifest plan) relname existing then remove
                else plan\<lparr>rp_skipped :=
                  rp_skipped plan @ [\<lparr>cf_relname = relname, cf_reason = drifted_reason\<rparr>]\<rparr>)
         | Inl e \<Rightarrow>
             if e = IoNotFound then plan_removals s dir ns remove else Inl (Io path e))"

definition plan_remove_all :: "fs \<Rightarrow> string \<Rightarrow> string list option \<Rightarrow> removal_plan result" where
  "plan_remove_all s dir marks =
     rbind (manifest_load s dir) (\<lambda>m.
     plan_removals s dir
       (filter (mark_selected marks) (filter is_removable_dropin (manifest_tracked m)))
       \<lparr>rp_removes = [], rp_skipped = [], rp_manifest = m\<rparr>)"

section \<open>What a plan may contain\<close>

text \<open>\<open>ours m s dir r\<close>: the file at \<open>r\<close> is provably what was last written there.\<close>

definition on_disk :: "fs \<Rightarrow> string \<Rightarrow> string \<Rightarrow> string option" where
  "on_disk s dir r = (case std_read s (path_join dir r) of Inr c \<Rightarrow> Some c | Inl _ \<Rightarrow> None)"

definition ours :: "manifest \<Rightarrow> fs \<Rightarrow> string \<Rightarrow> string \<Rightarrow> bool" where
  "ours m s dir r \<longleftrightarrow> (\<exists>c. on_disk s dir r = Some c \<and> manifest_verify m r c)"

definition foreign :: "manifest \<Rightarrow> fs \<Rightarrow> string \<Rightarrow> string \<Rightarrow> bool" where
  "foreign m s dir r \<longleftrightarrow> on_disk s dir r \<noteq> None \<and> \<not> ours m s dir r"

definition plan_sound :: "fs \<Rightarrow> string \<Rightarrow> manifest \<Rightarrow> bool \<Rightarrow> generation_plan \<Rightarrow> bool" where
  "plan_sound s dir m reclaim p \<longleftrightarrow>
     gp_manifest p = m \<and>
     (\<forall>w\<in>set (gp_writes p). foreign m s dir (pw_relname w) \<longrightarrow> pw_relname w \<in> set (gp_reclaimed p)) \<and>
     (\<forall>r\<in>set (gp_reclaimed p). reclaim \<and> foreign m s dir r) \<and>
     (\<forall>r\<in>set (gp_removes p). ours m s dir (pr_relname r)) \<and>
     (\<forall>c\<in>set (gp_conflicts p). foreign m s dir (cf_relname c))"

text \<open>\<open>settled\<close>: what the plan says about one wanted file, or about one that is not wanted.\<close>

definition settled :: "fs \<Rightarrow> string \<Rightarrow> generation_plan \<Rightarrow> string \<Rightarrow> string option \<Rightarrow> bool" where
  "settled s dir p r wanted \<longleftrightarrow>
     (case wanted of
        Some c \<Rightarrow>
          on_disk s dir r = Some c \<or> \<lparr>pw_relname = r, pw_content = c\<rparr> \<in> set (gp_writes p) \<or>
          r \<in> cf_relname ` set (gp_conflicts p)
      | None \<Rightarrow> ours (gp_manifest p) s dir r \<longrightarrow> \<lparr>pr_relname = r\<rparr> \<in> set (gp_removes p))"

definition plan_le :: "generation_plan \<Rightarrow> generation_plan \<Rightarrow> bool" where
  "plan_le p q \<longleftrightarrow>
     gp_manifest p = gp_manifest q \<and> set (gp_writes p) \<subseteq> set (gp_writes q) \<and>
     set (gp_removes p) \<subseteq> set (gp_removes q) \<and> set (gp_conflicts p) \<subseteq> set (gp_conflicts q) \<and>
     set (gp_reclaimed p) \<subseteq> set (gp_reclaimed q)"

lemma plan_le_refl [simp]: "plan_le p p"
  by (simp add: plan_le_def)

lemma plan_le_trans: "plan_le p q \<Longrightarrow> plan_le q r \<Longrightarrow> plan_le p r"
  by (auto simp: plan_le_def)

lemma settled_mono: "settled s dir p r w \<Longrightarrow> plan_le p q \<Longrightarrow> settled s dir q r w"
  by (cases w) (auto simp: settled_def plan_le_def)

lemmas plan_ops = plan_write_def plan_remove_def plan_conflict_def plan_reclaim_def

lemma plan_le_ops [simp]:
  "plan_le p (plan_write r c p)" "plan_le p (plan_remove r p)" "plan_le p (plan_conflict r y p)"
  "plan_le p (plan_reclaim r p)"
  by (auto simp: plan_le_def plan_ops)

lemma plan_ops_reclaimed [simp]:
  "gp_reclaimed (plan_write r c p) = gp_reclaimed p"
  "gp_reclaimed (plan_remove r p) = gp_reclaimed p"
  "gp_reclaimed (plan_conflict r y p) = gp_reclaimed p"
  "gp_reclaimed (plan_reclaim r p) = gp_reclaimed p @ [r]"
  by (simp_all add: plan_ops)

lemma settled_ops [simp]:
  "settled s dir (plan_write r c p) r (Some c)"
  "settled s dir (plan_conflict r y p) r (Some c)"
  "settled s dir (plan_remove r p) r None"
  by (simp_all add: settled_def plan_ops)

lemma sound_write:
  "plan_sound s dir m rc p \<Longrightarrow> \<not> foreign m s dir r \<or> r \<in> set (gp_reclaimed p) \<Longrightarrow>
   plan_sound s dir m rc (plan_write r c p)"
  by (auto simp: plan_sound_def plan_ops)

lemma sound_conflict:
  "plan_sound s dir m rc p \<Longrightarrow> foreign m s dir r \<Longrightarrow> plan_sound s dir m rc (plan_conflict r y p)"
  by (auto simp: plan_sound_def plan_ops)

lemma sound_remove:
  "plan_sound s dir m rc p \<Longrightarrow> ours m s dir r \<Longrightarrow> plan_sound s dir m rc (plan_remove r p)"
  by (auto simp: plan_sound_def plan_ops)

lemma sound_reclaim:
  "plan_sound s dir m rc p \<Longrightarrow> foreign m s dir r \<Longrightarrow> rc \<Longrightarrow> plan_sound s dir m rc (plan_reclaim r p)"
  by (auto simp: plan_sound_def plan_ops)

lemma disk_cases:
  "on_disk s dir r = None \<Longrightarrow> \<not> foreign m s dir r" "on_disk s dir r = None \<Longrightarrow> \<not> ours m s dir r"
  "on_disk s dir r = Some old \<Longrightarrow> ours m s dir r = manifest_verify m r old"
  "on_disk s dir r = Some old \<Longrightarrow> foreign m s dir r = (\<not> manifest_verify m r old)"
  by (simp_all add: foreign_def ours_def)

lemma settled_disk: "on_disk s dir r = Some c \<Longrightarrow> settled s dir p r (Some c)"
  by (simp add: settled_def)

lemma settled_not_ours: "\<not> ours (gp_manifest p) s dir r \<Longrightarrow> settled s dir p r None"
  by (simp add: settled_def)

lemma classify_write_ok:
  assumes run: "classify_write s dir r c p = Inr q" and p: "plan_sound s dir m rc p"
  shows "plan_sound s dir m rc q \<and> settled s dir q r (Some c) \<and> plan_le p q \<and>
    gp_reclaimed q = gp_reclaimed p"
proof (cases "std_read s (path_join dir r)")
  case (Inl e)
  then have "on_disk s dir r = None" by (simp add: on_disk_def)
  moreover from run Inl have "q = plan_write r c p"
    by (simp add: classify_write_def Let_def split: if_splits)
  ultimately show ?thesis using p by (simp add: sound_write disk_cases)
next
  case (Inr old)
  then have d: "on_disk s dir r = Some old" by (simp add: on_disk_def)
  have m: "gp_manifest p = m" using p by (simp add: plan_sound_def)
  from run Inr consider "old = c" "q = p"
    | "manifest_verify m r old" "q = plan_write r c p"
    | "\<not> manifest_verify m r old" "q = plan_conflict r unit_conflict_reason p"
    by (auto simp: classify_write_def Let_def m split: if_splits)
  then show ?thesis
    by cases (use p d in \<open>simp_all add: settled_disk sound_write sound_conflict disk_cases\<close>)
qed

lemma classify_dropin_ok:
  assumes run: "classify_dropin s dir r wanted rc p = Inr q" and p: "plan_sound s dir m rc p"
  shows "plan_sound s dir m rc q \<and> settled s dir q r wanted \<and> plan_le p q \<and>
    set (gp_reclaimed q) \<subseteq> insert r (set (gp_reclaimed p))"
proof (cases "std_read s (path_join dir r)")
  case (Inl e)
  then have d: "on_disk s dir r = None" by (simp add: on_disk_def)
  from run Inl have "q = (case wanted of Some c \<Rightarrow> plan_write r c p | None \<Rightarrow> p)"
    by (simp add: classify_dropin_def Let_def split: if_splits option.splits)
  with p d show ?thesis
    by (cases wanted) (auto simp: sound_write disk_cases settled_not_ours)
next
  case (Inr old)
  then have d: "on_disk s dir r = Some old" by (simp add: on_disk_def)
  have m: "gp_manifest p = m" using p by (simp add: plan_sound_def)
  show ?thesis
  proof (cases wanted)
    case None
    with run Inr have "q = (if manifest_verify m r old then plan_remove r p else p)"
      by (simp add: classify_dropin_def Let_def m)
    with p d m None show ?thesis
      by (auto simp: sound_remove disk_cases settled_not_ours)
  next
    case (Some c)
    from run Inr Some consider "old = c" "q = p"
      | "manifest_verify m r old" "q = plan_write r c p"
      | "\<not> manifest_verify m r old" rc "q = plan_write r c (plan_reclaim r p)"
      | "\<not> manifest_verify m r old" "q = plan_conflict r dropin_conflict_reason p"
      by (auto simp: classify_dropin_def Let_def m split: if_splits)
    then show ?thesis
    proof cases
      case 3
      have "plan_sound s dir m rc (plan_reclaim r p)"
        using p d 3 by (simp add: sound_reclaim disk_cases)
      then have "plan_sound s dir m rc q" using 3 by (simp add: sound_write)
      moreover have "plan_le p q"
        using 3 plan_le_trans[OF plan_le_ops(4) plan_le_ops(1)] by simp
      ultimately show ?thesis using 3 Some by auto
    qed (use p d Some in \<open>auto simp: settled_disk sound_write sound_conflict disk_cases\<close>)
  qed
qed

lemma classify_graph_ok:
  assumes "classify_graph s dir ctx us p = Inr q" "plan_sound s dir m rc p"
  shows "plan_sound s dir m rc q \<and> plan_le p q \<and> gp_reclaimed q = gp_reclaimed p \<and>
    (\<forall>u\<in>set us. settled s dir q (ut_name u) (Some (render (ut_body u) ctx)))"
  using assms
proof (induction us arbitrary: p)
  case (Cons u us)
  from Cons.prems(1) obtain p1
    where a: "classify_write s dir (ut_name u) (render (ut_body u) ctx) p = Inr p1"
      and b: "classify_graph s dir ctx us p1 = Inr q"
    by (auto simp: rbind_Inr_iff)
  note c = classify_write_ok[OF a Cons.prems(2)]
  have IH: "plan_sound s dir m rc q" "plan_le p1 q" "gp_reclaimed q = gp_reclaimed p1"
    "\<forall>u\<in>set us. settled s dir q (ut_name u) (Some (render (ut_body u) ctx))"
    using Cons.IH[OF b] c by simp_all
  have "settled s dir q (ut_name u) (Some (render (ut_body u) ctx))"
    using c IH(2) settled_mono by blast
  moreover have "plan_le p q" using c IH(2) plan_le_trans by blast
  ultimately show ?case using IH c by simp
qed simp

lemma classify_dropins_ok:
  assumes "classify_dropins s dir rc ds p = Inr q" "plan_sound s dir m rc p"
  shows "plan_sound s dir m rc q \<and> plan_le p q \<and>
    set (gp_reclaimed q) \<subseteq> fst ` set ds \<union> set (gp_reclaimed p) \<and>
    (\<forall>d\<in>set ds. settled s dir q (fst d) (snd d))"
  using assms
proof (induction ds arbitrary: p)
  case (Cons d ds)
  obtain r wanted where d: "d = (r, wanted)" by (cases d)
  from Cons.prems(1) d obtain p1 where a: "classify_dropin s dir r wanted rc p = Inr p1"
    and b: "classify_dropins s dir rc ds p1 = Inr q"
    by (auto simp: rbind_Inr_iff)
  note c = classify_dropin_ok[OF a Cons.prems(2)]
  have IH: "plan_sound s dir m rc q" "plan_le p1 q"
    "set (gp_reclaimed q) \<subseteq> fst ` set ds \<union> set (gp_reclaimed p1)"
    "\<forall>d\<in>set ds. settled s dir q (fst d) (snd d)"
    using Cons.IH[OF b] c by simp_all
  have "settled s dir q r wanted" using c IH(2) settled_mono by blast
  moreover have "plan_le p q" using c IH(2) plan_le_trans by blast
  moreover have "set (gp_reclaimed q) \<subseteq> fst ` set (d # ds) \<union> set (gp_reclaimed p)"
    using IH(3) c d by auto
  ultimately show ?case using IH d by simp
qed simp

lemma plan_generate_ok:
  assumes "plan_generate s dir ctx d tw rc = Inr p"
  obtains m where "manifest_load s dir = Inr m" "plan_sound s dir m rc p"
    "\<forall>u\<in>set GRAPH. settled s dir p (ut_name u) (Some (render (ut_body u) ctx))"
    "\<forall>x\<in>set (wanted_dropins ctx d tw). settled s dir p (fst x) (snd x)"
    "set (gp_reclaimed p) \<subseteq> fst ` set (wanted_dropins ctx d tw)"
proof -
  from assms obtain m p1 where m: "manifest_load s dir = Inr m"
    and g: "classify_graph s dir ctx GRAPH
              \<lparr>gp_writes = [], gp_removes = [], gp_conflicts = [], gp_reclaimed = [],
               gp_manifest = m\<rparr> = Inr p1"
    and dr: "classify_dropins s dir rc (wanted_dropins ctx d tw) p1 = Inr p"
    unfolding plan_generate_def rbind_Inr_iff by blast
  have "plan_sound s dir m rc \<lparr>gp_writes = [], gp_removes = [], gp_conflicts = [],
      gp_reclaimed = [], gp_manifest = m\<rparr>"
    by (simp add: plan_sound_def)
  note G = classify_graph_ok[OF g this]
  note R = classify_dropins_ok[OF dr conjunct1[OF G]]
  have "\<forall>u\<in>set GRAPH. settled s dir p (ut_name u) (Some (render (ut_body u) ctx))"
    using G R settled_mono by blast
  with m G R that show ?thesis by auto
qed

text \<open>Names of drop-ins have a directory; names of units do not.\<close>

lemma dropin_names_slash: "x \<in> set (wanted_dropins ctx d tw) \<Longrightarrow> SLASH \<in> set (fst x)"
proof -
  have t: "list_all (\<lambda>t. SLASH \<in> set (ut_name t)) TWEAKS" by code_simp
  assume "x \<in> set (wanted_dropins ctx d tw)"
  then consider (tweak) t where "t \<in> set TWEAKS" "fst x = ut_name t"
    | "fst x = preloader_name d" | "fst x = service_name d"
    by (auto simp: wanted_dropins_def)
  then show ?thesis
  proof cases
    case (tweak t)
    with t show ?thesis by (simp add: list_all_iff)
  qed (simp_all add: preloader_name_def service_name_def)
qed

lemma graph_not_dropin: "u \<in> set GRAPH \<Longrightarrow> ut_name u \<notin> fst ` set (wanted_dropins ctx d tw)"
  using dropin_names_slash graph_names_plain by (fastforce simp: list_all_iff plain_name_def)

lemma removable_slash: "is_removable_dropin r \<Longrightarrow> SLASH \<in> set r"
proof -
  have t: "list_all (\<lambda>t. SLASH \<in> set (ut_name t)) TWEAKS" by code_simp
  assume "is_removable_dropin r"
  with t show ?thesis
    by (auto simp: is_removable_dropin_def is_tweak_def is_compositor_dropin_def list_ex_iff
        list_all_iff ends_with_iff)
qed

lemma graph_not_removable: "u \<in> set GRAPH \<Longrightarrow> \<not> is_removable_dropin (ut_name u)"
  using removable_slash graph_names_plain by (auto simp: list_all_iff plain_name_def)

definition remove_entry :: "string \<Rightarrow> removal_plan \<Rightarrow> removal_plan" where
  "remove_entry n p = p\<lparr>rp_removes := rp_removes p @ [\<lparr>pr_relname = n\<rparr>]\<rparr>"

definition skip_entry :: "string \<Rightarrow> removal_plan \<Rightarrow> removal_plan" where
  "skip_entry n p =
     p\<lparr>rp_skipped := rp_skipped p @ [\<lparr>cf_relname = n, cf_reason = drifted_reason\<rparr>]\<rparr>"

lemma removal_fields [simp]:
  "rp_manifest (remove_entry n p) = rp_manifest p" "rp_manifest (skip_entry n p) = rp_manifest p"
  "rp_removes (remove_entry n p) = rp_removes p @ [\<lparr>pr_relname = n\<rparr>]"
  "rp_removes (skip_entry n p) = rp_removes p"
  "rp_skipped (remove_entry n p) = rp_skipped p"
  "rp_skipped (skip_entry n p) = rp_skipped p @ [\<lparr>cf_relname = n, cf_reason = drifted_reason\<rparr>]"
  by (simp_all add: remove_entry_def skip_entry_def)

lemma plan_removals_step:
  assumes "plan_removals s dir (n # ns) p = Inr q"
  obtains "ours (rp_manifest p) s dir n \<or> on_disk s dir n = None"
      "plan_removals s dir ns (remove_entry n p) = Inr q"
  | "foreign (rp_manifest p) s dir n" "plan_removals s dir ns (skip_entry n p) = Inr q"
  using assms
  by (auto simp: Let_def on_disk_def ours_def foreign_def remove_entry_def skip_entry_def
      split: sum.splits if_splits)

text \<open>What a list of removals makes of each name, as a relation on plans.\<close>

definition removal_names :: "removal_plan \<Rightarrow> string set" where
  "removal_names p = pr_relname ` set (rp_removes p)"

definition skipped_names :: "removal_plan \<Rightarrow> string set" where
  "skipped_names p = cf_relname ` set (rp_skipped p)"

lemma removal_names_ops [simp]:
  "removal_names (remove_entry n p) = insert n (removal_names p)"
  "removal_names (skip_entry n p) = removal_names p"
  "skipped_names (remove_entry n p) = skipped_names p"
  "skipped_names (skip_entry n p) = insert n (skipped_names p)"
  by (auto simp: removal_names_def skipped_names_def)

lemma plan_removals_manifest: "plan_removals s dir ns p = Inr q \<Longrightarrow> rp_manifest q = rp_manifest p"
  by (induction ns arbitrary: p) (fastforce elim: plan_removals_step)+

lemma filter_insert:
  "{x \<in> set (n # ns). P x} = (if P n then insert n {x \<in> set ns. P x} else {x \<in> set ns. P x})"
  by auto

lemma plan_removals_names:
  "plan_removals s dir ns p = Inr q \<Longrightarrow>
   removal_names q =
     removal_names p \<union> {n \<in> set ns. ours (rp_manifest p) s dir n \<or> on_disk s dir n = None} \<and>
   skipped_names q = skipped_names p \<union> {n \<in> set ns. foreign (rp_manifest p) s dir n}"
proof (induction ns arbitrary: p)
  case (Cons n ns)
  have ex: "foreign (rp_manifest p) s dir n \<Longrightarrow>
      \<not> (ours (rp_manifest p) s dir n \<or> on_disk s dir n = None)"
    by (auto simp: foreign_def)
  from Cons.prems show ?case
  proof (cases rule: plan_removals_step)
    case 1
    with ex have nf: "\<not> foreign (rp_manifest p) s dir n" by blast
    note IH = Cons.IH[OF 1(2), unfolded removal_fields removal_names_ops]
    show ?thesis
      unfolding filter_insert if_P[OF 1(1)] if_not_P[OF nf]
      by (simp only: conjunct1[OF IH] conjunct2[OF IH] Un_insert_left Un_insert_right)
  next
    case 2
    note nr = ex[OF 2(1)]
    note IH = Cons.IH[OF 2(2), unfolded removal_fields removal_names_ops]
    show ?thesis
      unfolding filter_insert if_P[OF 2(1)] if_not_P[OF nr]
      by (simp only: conjunct1[OF IH] conjunct2[OF IH] Un_insert_left Un_insert_right)
  qed
qed simp

lemma plan_remove_all_ok:
  assumes "plan_remove_all s dir marks = Inr p"
  obtains m where "manifest_load s dir = Inr m" "rp_manifest p = m"
    "removal_names p = {n \<in> set (manifest_tracked m). is_removable_dropin n \<and> mark_selected marks n \<and>
       (ours m s dir n \<or> on_disk s dir n = None)}"
    "skipped_names p = {n \<in> set (manifest_tracked m). is_removable_dropin n \<and> mark_selected marks n \<and>
       foreign m s dir n}"
proof -
  from assms obtain m where m: "manifest_load s dir = Inr m"
    and r: "plan_removals s dir
       (filter (mark_selected marks) (filter is_removable_dropin (manifest_tracked m)))
       \<lparr>rp_removes = [], rp_skipped = [], rp_manifest = m\<rparr> = Inr p"
    unfolding plan_remove_all_def rbind_Inr_iff by (elim exE conjE)
  have e: "removal_names \<lparr>rp_removes = [], rp_skipped = [], rp_manifest = m\<rparr> = {}"
    "skipped_names \<lparr>rp_removes = [], rp_skipped = [], rp_manifest = m\<rparr> = {}"
    by (simp_all add: removal_names_def skipped_names_def)
  show ?thesis
    by (rule that[OF m]) (use plan_removals_manifest[OF r] plan_removals_names[OF r] e in auto)
qed

section \<open>Marks\<close>

lemma strip_mark_iff: "strip_mark pre n = Some i \<longleftrightarrow> n = pre @ i @ ''.service.d/50_custom.conf''"
  unfolding strip_mark_def
  by (auto simp: strip_prefix_Some_iff strip_suffix_Some_iff split: option.split)

text \<open>The mark of a compositor's drop-ins is the escaped identifier in their directory name.\<close>

lemma mark_of_preloader:
  "\<not> is_tweak (preloader_name d) \<Longrightarrow> mark_of (preloader_name d) = Some (di_id_unit_string d)"
  using strip_mark_iff[of "''wayland-wm-env@''" "preloader_name d" "di_id_unit_string d"]
  by (simp add: mark_of_def preloader_name_def)

end
