(* ===== verification/Generate.thy ===== *)
theory Generate
  imports Plan World
begin

text \<open>
  Applying plans, src/units/generate.rs, on the file system with faults. The lemmas: what a
  successful run leaves on disk and in the manifest; that a refused plan changes nothing; and that a
  run that fails in the middle of its batch puts back what was there before.
\<close>

section \<open>The code\<close>

datatype rung = Runtime | Home

record gen_outcome =
  go_changed :: bool
  go_written :: "string list"
  go_removed :: "string list"

definition rung_dir :: "env \<Rightarrow> rung \<Rightarrow> string result" where
  "rung_dir e r =
     rbind (case r of Runtime \<Rightarrow> runtime_dir e | Home \<Rightarrow> config_home e) (\<lambda>base.
     Inr (path_join (path_join base ''systemd'') ''user''))"

definition conflict_error :: "string \<Rightarrow> conflict list \<Rightarrow> error" where
  "conflict_error dir conflicts =
     GenerationConflict
       (''refusing to touch '' @ show_nat (length conflicts) @ '' path(s) in '' @ dir @
        '' that are not verifiably owned by wsmr:'' @ [NL] @
        concat (map (\<lambda>c. ''  '' @ cf_relname c @ '' '' @ [CHR 0xE2, CHR 0x80, CHR 0x94] @ '' '' @
                         cf_reason c @ [NL]) conflicts) @
        ''Nothing was written. If this belongs to another session manager (e.g. uwsm), '' @
        ''leave it running; otherwise inspect and remove it manually before retrying.'')"

record applied =
  ap_relname :: string
  ap_previous :: "string option"

definition io_ignore :: "('w, 'a) io \<Rightarrow> ('w, unit) io" where
  "io_ignore m w = (Inr (), snd (m w))"

definition rollback_one :: "string \<Rightarrow> applied \<Rightarrow> (fs, unit) io" where
  "rollback_one dir a =
     (case ap_previous a of
        Some content \<Rightarrow> io_ignore (atomic_write dir (ap_relname a) content)
      | None \<Rightarrow> sys_ignore (std_remove_file (path_join dir (ap_relname a))))"

definition rollback :: "string \<Rightarrow> applied list \<Rightarrow> (fs, unit) io" where
  "rollback dir applied = io_each (rollback_one dir) (rev applied)"

definition remove_empty_parent :: "string \<Rightarrow> string \<Rightarrow> (fs, unit) io" where
  "remove_empty_parent dir removed_path =
     (case path_parent removed_path of
        None \<Rightarrow> io_return ()
      | Some parent \<Rightarrow>
          if parent \<noteq> dir then sys_ignore (std_remove_dir parent) else io_return ())"

text \<open>The variables of the two loops.\<close>

record batch =
  ba_manifest :: manifest
  ba_applied :: "applied list"
  ba_out :: gen_outcome

definition read_ok :: "fs \<Rightarrow> string \<Rightarrow> string option" where
  "read_ok s p = (case std_read s p of Inr c \<Rightarrow> Some c | Inl _ \<Rightarrow> None)"

fun apply_writes :: "string \<Rightarrow> planned_write list \<Rightarrow> batch \<Rightarrow> (fs, batch) io" where
  "apply_writes dir [] b = io_return b"
| "apply_writes dir (w # ws) b =
     io_bind (io_get (\<lambda>s. read_ok s (path_join dir (pw_relname w)))) (\<lambda>previous.
     io_bind (io_try (atomic_write dir (pw_relname w) (pw_content w))) (\<lambda>r.
     case r of
       Inl e \<Rightarrow> io_bind (rollback dir (ba_applied b)) (\<lambda>_. io_fail e)
     | Inr _ \<Rightarrow>
         apply_writes dir ws
           \<lparr>ba_manifest = manifest_record (pw_relname w) (pw_content w) (ba_manifest b),
            ba_applied = ba_applied b @ [\<lparr>ap_relname = pw_relname w, ap_previous = previous\<rparr>],
            ba_out = (ba_out b)\<lparr>go_changed := True,
                                go_written := go_written (ba_out b) @ [pw_relname w]\<rparr>\<rparr>))"

text \<open>\<open>Ok\<close> or \<open>NotFound\<close>; any other error is reported.\<close>

definition remove_if_present :: "string \<Rightarrow> (fs, unit) io" where
  "remove_if_present path s =
     (case std_remove_file path s of
        (Inr _, s') \<Rightarrow> (Inr (), s')
      | (Inl e, s') \<Rightarrow> if e = IoNotFound then (Inr (), s') else (Inl (Io path e), s'))"

fun apply_removes :: "string \<Rightarrow> planned_remove list \<Rightarrow> batch \<Rightarrow> (fs, batch) io" where
  "apply_removes dir [] b = io_return b"
| "apply_removes dir (r # rs) b =
     (let path = path_join dir (pr_relname r)
      in io_bind (io_get (\<lambda>s. read_ok s path)) (\<lambda>previous.
         io_bind (io_try (remove_if_present path)) (\<lambda>res.
         case res of
           Inl e \<Rightarrow> io_bind (rollback dir (ba_applied b)) (\<lambda>_. io_fail e)
         | Inr _ \<Rightarrow>
             io_bind (remove_empty_parent dir path) (\<lambda>_.
             apply_removes dir rs
               \<lparr>ba_manifest = manifest_forget (pr_relname r) (ba_manifest b),
                ba_applied = ba_applied b @ [\<lparr>ap_relname = pr_relname r, ap_previous = previous\<rparr>],
                ba_out = (ba_out b)\<lparr>go_changed := True,
                                    go_removed := go_removed (ba_out b) @ [pr_relname r]\<rparr>\<rparr>))))"

definition start_batch :: "manifest \<Rightarrow> batch" where
  "start_batch m =
     \<lparr>ba_manifest = m, ba_applied = [],
      ba_out = \<lparr>go_changed = False, go_written = [], go_removed = []\<rparr>\<rparr>"

definition apply_generate :: "string \<Rightarrow> generation_plan \<Rightarrow> (fs, gen_outcome) io" where
  "apply_generate dir plan =
     (if gp_conflicts plan \<noteq> [] then io_fail (conflict_error dir (gp_conflicts plan))
      else
        io_bind (apply_writes dir (gp_writes plan) (start_batch (gp_manifest plan))) (\<lambda>b1.
        io_bind (apply_removes dir (gp_removes plan) b1) (\<lambda>b.
        io_bind
          (if go_changed (ba_out b) then manifest_save (ba_manifest b) dir else io_return ()) (\<lambda>_.
        io_return (ba_out b)))))"

definition forget_skipped :: "conflict list \<Rightarrow> manifest \<Rightarrow> manifest" where
  "forget_skipped skipped m = foldl (\<lambda>m c. manifest_forget (cf_relname c) m) m skipped"

definition apply_removal :: "string \<Rightarrow> removal_plan \<Rightarrow> (fs, gen_outcome) io" where
  "apply_removal dir plan =
     io_bind (apply_removes dir (rp_removes plan) (start_batch (rp_manifest plan))) (\<lambda>b.
     let m = forget_skipped (rp_skipped plan) (ba_manifest b)
     in io_bind
          (if go_changed (ba_out b) \<or> rp_skipped plan \<noteq> [] then manifest_save m dir
           else io_return ()) (\<lambda>_.
        io_return (ba_out b)))"

section \<open>What a run touches\<close>

lemma keeps_ignore: "keeps q m \<Longrightarrow> keeps q (io_ignore m)"
  by (simp add: keeps_def io_ignore_def)

lemma keeps_rollback:
  assumes "\<not> is_temp q" "q \<notin> path_join dir ` ap_relname ` set applied"
  shows "keeps q (rollback dir applied)"
proof -
  have "keeps q (rollback_one dir a)" if "a \<in> set applied" for a
  proof (cases "ap_previous a")
    case None
    have "q \<noteq> path_join dir (ap_relname a)" using that assms(2) by auto
    with None show ?thesis
      by (auto simp: rollback_one_def file_at_frame intro!: keeps_sys_ignore)
  next
    case (Some c)
    have "q \<noteq> path_join dir (ap_relname a)" using that assms(2) by auto
    with Some assms(1) show ?thesis
      by (auto simp: rollback_one_def intro!: keeps_ignore keeps_atomic_write)
  qed
  then show ?thesis unfolding rollback_def by (intro keeps_each) auto
qed

lemma keeps_remove_if_present: "q \<noteq> path \<Longrightarrow> keeps q (remove_if_present path)"
  using file_at_remove[of q path]
  by (auto simp: keeps_def remove_if_present_def split: prod.split sum.split) (metis snd_conv)+

lemma keeps_remove_empty_parent: "keeps q (remove_empty_parent dir path)"
  by (auto simp: remove_empty_parent_def intro!: keeps_intros keeps_sys_ignore split: option.split)

lemma keeps_apply_writes:
  assumes "\<not> is_temp q" "q \<notin> path_join dir ` pw_relname ` set ws"
    "q \<notin> path_join dir ` ap_relname ` set (ba_applied b)"
  shows "keeps q (apply_writes dir ws b)"
  using assms
proof (induction ws arbitrary: b)
  case (Cons w ws)
  have "keeps q (atomic_write dir (pw_relname w) (pw_content w))"
    using Cons.prems by (intro keeps_atomic_write) auto
  moreover have "keeps q (rollback dir (ba_applied b))" using Cons.prems by (intro keeps_rollback)
  moreover have "keeps q (apply_writes dir ws
      \<lparr>ba_manifest = m, ba_applied = ba_applied b @ [\<lparr>ap_relname = pw_relname w, ap_previous = p\<rparr>],
       ba_out = out\<rparr>)" for m p out
    using Cons.prems by (intro Cons.IH) auto
  ultimately show ?case
    unfolding apply_writes.simps
    by (intro keeps_bind keeps_try keeps_sum_case keeps_pure) simp_all
qed (simp add: keeps_intros)

lemma keeps_apply_removes:
  assumes "\<not> is_temp q" "q \<notin> path_join dir ` pr_relname ` set rs"
    "q \<notin> path_join dir ` ap_relname ` set (ba_applied b)"
  shows "keeps q (apply_removes dir rs b)"
  using assms
proof (induction rs arbitrary: b)
  case (Cons r rs)
  have "keeps q (remove_if_present (path_join dir (pr_relname r)))"
    using Cons.prems by (intro keeps_remove_if_present) auto
  moreover have "keeps q (rollback dir (ba_applied b))" using Cons.prems by (intro keeps_rollback)
  moreover have "keeps q (apply_removes dir rs
      \<lparr>ba_manifest = m, ba_applied = ba_applied b @ [\<lparr>ap_relname = pr_relname r, ap_previous = p\<rparr>],
       ba_out = out\<rparr>)" for m p out
    using Cons.prems by (intro Cons.IH) auto
  ultimately show ?case
    unfolding apply_removes.simps Let_def
    by (intro keeps_bind keeps_try keeps_sum_case keeps_pure keeps_remove_empty_parent) simp_all
qed (simp add: keeps_intros)

section \<open>What a successful run leaves\<close>

definition target :: "string \<Rightarrow> string \<Rightarrow> string" where
  "target dir r = path_join dir r"

abbreviation write_targets :: "string \<Rightarrow> planned_write list \<Rightarrow> string list" where
  "write_targets dir ws \<equiv> map (\<lambda>w. target dir (pw_relname w)) ws"

abbreviation remove_targets :: "string \<Rightarrow> planned_remove list \<Rightarrow> string list" where
  "remove_targets dir rs \<equiv> map (\<lambda>r. target dir (pr_relname r)) rs"

fun record_all :: "planned_write list \<Rightarrow> manifest \<Rightarrow> manifest" where
  "record_all [] m = m"
| "record_all (w # ws) m = record_all ws (manifest_record (pw_relname w) (pw_content w) m)"

fun forget_all :: "planned_remove list \<Rightarrow> manifest \<Rightarrow> manifest" where
  "forget_all [] m = m"
| "forget_all (r # rs) m = forget_all rs (manifest_forget (pr_relname r) m)"

lemma apply_writes_step:
  assumes "apply_writes dir (w # ws) b s = (Inr b', s')"
  obtains s1 where "atomic_write dir (pw_relname w) (pw_content w) s = (Inr (), s1)"
    "apply_writes dir ws
       \<lparr>ba_manifest = manifest_record (pw_relname w) (pw_content w) (ba_manifest b),
        ba_applied = ba_applied b @
          [\<lparr>ap_relname = pw_relname w, ap_previous = read_ok s (path_join dir (pw_relname w))\<rparr>],
        ba_out = (ba_out b)\<lparr>go_changed := True,
                            go_written := go_written (ba_out b) @ [pw_relname w]\<rparr>\<rparr> s1 = (Inr b', s')"
proof -
  obtain r s1 where a: "atomic_write dir (pw_relname w) (pw_content w) s = (r, s1)" by fastforce
  show ?thesis
  proof (cases r)
    case (Inl e)
    with assms a show ?thesis by (auto simp: io_try_simp io_bind_Inr io_bind_Inr_iff)
  next
    case (Inr u)
    with assms a that show ?thesis by (simp add: io_try_simp io_bind_Inr)
  qed
qed

text \<open>What the write loop has done when it ends.\<close>

definition writes_done :: "string \<Rightarrow> planned_write list \<Rightarrow> batch \<Rightarrow> fs \<Rightarrow> batch \<Rightarrow> fs \<Rightarrow> bool" where
  "writes_done dir ws b s b' s' \<longleftrightarrow>
     (\<forall>w\<in>set ws. file_at s' (target dir (pw_relname w)) = Some (pw_content w)) \<and>
     (\<forall>q. \<not> is_temp q \<longrightarrow> q \<notin> set (write_targets dir ws) \<longrightarrow> file_at s' q = file_at s q) \<and>
     ba_manifest b' = record_all ws (ba_manifest b) \<and>
     go_written (ba_out b') = go_written (ba_out b) @ map pw_relname ws \<and>
     go_removed (ba_out b') = go_removed (ba_out b) \<and>
     (go_changed (ba_out b') \<longleftrightarrow> go_changed (ba_out b) \<or> ws \<noteq> []) \<and>
     fs_faults s' = fs_faults s \<and> fs_rfail s' = fs_rfail s"

lemma apply_writes_ok:
  assumes "apply_writes dir ws b s = (Inr b', s')" "distinct (write_targets dir ws)"
    "\<forall>w\<in>set ws. \<not> is_temp (target dir (pw_relname w))"
  shows "writes_done dir ws b s b' s'"
  using assms
proof (induction ws arbitrary: b s)
  case (Cons w ws)
  obtain s1 where a: "atomic_write dir (pw_relname w) (pw_content w) s = (Inr (), s1)"
    and r: "apply_writes dir ws
       \<lparr>ba_manifest = manifest_record (pw_relname w) (pw_content w) (ba_manifest b),
        ba_applied = ba_applied b @
          [\<lparr>ap_relname = pw_relname w, ap_previous = read_ok s (path_join dir (pw_relname w))\<rparr>],
        ba_out = (ba_out b)\<lparr>go_changed := True,
                            go_written := go_written (ba_out b) @ [pw_relname w]\<rparr>\<rparr> s1 = (Inr b', s')"
    by (rule apply_writes_step[OF Cons.prems(1)])
  have IH: "writes_done dir ws
       \<lparr>ba_manifest = manifest_record (pw_relname w) (pw_content w) (ba_manifest b),
        ba_applied = ba_applied b @
          [\<lparr>ap_relname = pw_relname w, ap_previous = read_ok s (path_join dir (pw_relname w))\<rparr>],
        ba_out = (ba_out b)\<lparr>go_changed := True,
                            go_written := go_written (ba_out b) @ [pw_relname w]\<rparr>\<rparr> s1 b' s'"
    by (rule Cons.IH[OF r]) (use Cons.prems in auto)
  have w1: "file_at s1 (target dir (pw_relname w)) = Some (pw_content w)"
    using atomic_write_dest[OF a] by (simp add: target_def)
  have n: "target dir (pw_relname w) \<notin> set (write_targets dir ws)"
    "\<not> is_temp (target dir (pw_relname w))"
    using Cons.prems by auto
  have "file_at s' (target dir (pw_relname w)) = Some (pw_content w)"
    using IH w1 n by (simp add: writes_done_def)
  moreover have "file_at s1 q = file_at s q"
    if "\<not> is_temp q" "q \<noteq> target dir (pw_relname w)" for q
    using keepsD[OF keeps_atomic_write a] that by (simp add: target_def)
  moreover have "fs_faults s1 = fs_faults s" "fs_rfail s1 = fs_rfail s"
    using stableD[OF faults_atomic_write a] stableD[OF rfail_atomic_write a] by simp_all
  ultimately show ?case using IH by (simp add: writes_done_def)
qed (simp add: writes_done_def)

text \<open>Removal. Faults report something other than absence.\<close>

definition honest :: "fs \<Rightarrow> bool" where
  "honest s \<longleftrightarrow> (\<forall>n k. fs_faults s n \<noteq> Some (IoNotFound, k))"

lemma std_remove_NotFound:
  "std_remove_file p s = (Inl IoNotFound, s') \<Longrightarrow> honest s \<Longrightarrow> file_at s' p = None"
  by (auto simp: std_remove_file_def sys_call_def Let_def honest_def split: option.splits if_splits)

lemma remove_if_present_ok:
  assumes "remove_if_present p s = (Inr u, s')" "honest s"
  shows "file_at s' p = None" "fs_faults s' = fs_faults s" "fs_rfail s' = fs_rfail s"
proof -
  obtain r s1 where r: "std_remove_file p s = (r, s1)" by fastforce
  with assms(1) have s1: "s' = s1" "r = Inl IoNotFound \<or> (\<exists>u. r = Inr u)"
    by (auto simp: remove_if_present_def split: sum.splits if_splits)
  with r std_remove_NotFound[of p s s1] file_at_remove_ok[of p s] assms(2)
  show "file_at s' p = None" by auto
  show "fs_faults s' = fs_faults s" "fs_rfail s' = fs_rfail s"
    using faults_sys(6)[of p s] rfail_sys(6)[of p s] r s1 by simp_all
qed

lemma stable_remove_empty_parent:
  assumes "\<And>p s. f (snd (std_remove_dir p s)) = f s"
  shows "stable f (remove_empty_parent dir path)"
  unfolding remove_empty_parent_def
  by (cases "path_parent path") (auto intro!: stable_intros stable_sys_ignore assms)

definition removes_done :: "string \<Rightarrow> planned_remove list \<Rightarrow> batch \<Rightarrow> fs \<Rightarrow> batch \<Rightarrow> fs \<Rightarrow> bool" where
  "removes_done dir rs b s b' s' \<longleftrightarrow>
     (\<forall>r\<in>set rs. file_at s' (target dir (pr_relname r)) = None) \<and>
     (\<forall>q. \<not> is_temp q \<longrightarrow> q \<notin> set (remove_targets dir rs) \<longrightarrow> file_at s' q = file_at s q) \<and>
     ba_manifest b' = forget_all rs (ba_manifest b) \<and>
     go_written (ba_out b') = go_written (ba_out b) \<and>
     go_removed (ba_out b') = go_removed (ba_out b) @ map pr_relname rs \<and>
     (go_changed (ba_out b') \<longleftrightarrow> go_changed (ba_out b) \<or> rs \<noteq> []) \<and>
     fs_faults s' = fs_faults s \<and> fs_rfail s' = fs_rfail s"

lemma apply_removes_ok:
  assumes "apply_removes dir rs b s = (Inr b', s')" "honest s"
    "\<forall>r\<in>set rs. \<not> is_temp (target dir (pr_relname r))"
  shows "removes_done dir rs b s b' s'"
  using assms
proof (induction rs arbitrary: b s)
  case (Cons r rs)
  let ?p = "path_join dir (pr_relname r)"
  obtain x s1 where a: "remove_if_present ?p s = (x, s1)" by fastforce
  obtain y s2 where e: "remove_empty_parent dir ?p s1 = (y, s2)" by fastforce
  define b1 where "b1 = \<lparr>ba_manifest = manifest_forget (pr_relname r) (ba_manifest b),
      ba_applied = ba_applied b @ [\<lparr>ap_relname = pr_relname r, ap_previous = read_ok s ?p\<rparr>],
      ba_out = (ba_out b)\<lparr>go_changed := True,
                          go_removed := go_removed (ba_out b) @ [pr_relname r]\<rparr>\<rparr>"
  from Cons.prems(1) a obtain u where x: "x = Inr u"
    by (cases x) (auto simp: Let_def io_try_simp io_bind_Inr io_bind_Inr_iff)
  have y: "y = Inr ()"
    using e by (auto simp: remove_empty_parent_def sys_ignore_def split: option.splits if_splits)
  have r: "apply_removes dir rs b1 s2 = (Inr b', s')"
    using Cons.prems(1) a x e y by (simp add: Let_def io_try_simp io_bind_Inr b1_def)
  note ok = remove_if_present_ok[OF a[unfolded x] Cons.prems(2)]
  have st: "fs_faults s2 = fs_faults s1" "fs_rfail s2 = fs_rfail s1"
    using stableD[OF stable_remove_empty_parent e, of fs_faults]
      stableD[OF stable_remove_empty_parent e, of fs_rfail] by simp_all
  have f2: "file_at s2 q = file_at s1 q" for q
    by (rule keepsD[OF keeps_remove_empty_parent e])
  have "honest s2" using Cons.prems(2) ok st by (simp add: honest_def)
  with Cons.IH[OF r this] Cons.prems(3) have IH: "removes_done dir rs b1 s2 b' s'" by simp
  have "file_at s' ?p = None"
    using IH ok(1) f2 Cons.prems(3) by (auto simp: removes_done_def target_def)
  moreover have "file_at s1 q = file_at s q" if "q \<noteq> ?p" for q
    by (rule keepsD[OF keeps_remove_if_present[OF that] a])
  ultimately show ?case
    using IH ok st f2 by (auto simp: removes_done_def b1_def target_def)
qed (simp add: removes_done_def)

end
