(* ===== verification/Rollback.thy ===== *)
theory Rollback
  imports Generate
begin

text \<open>
  Atomicity of a generation batch. A system call fails either because of the state of the disk or
  because the fault schedule says so; on a disk where the batch's targets are writable only the
  second is left (\<open>blames\<close>). If at most one call fails, the batch ends with every target new, or
  with every target as it was.
\<close>

section \<open>Failures are faults\<close>

definition fired :: "fs \<Rightarrow> fs \<Rightarrow> bool" where
  "fired s s' \<longleftrightarrow> (\<exists>i. fs_calls s \<le> i \<and> i < fs_calls s' \<and> fs_faults s i \<noteq> None)"

definition blames :: "(fs \<Rightarrow> bool) \<Rightarrow> (fs, 'a) io \<Rightarrow> ('a \<Rightarrow> fs \<Rightarrow> bool) \<Rightarrow> bool" where
  "blames P m Q \<longleftrightarrow>
     (\<forall>s r s'. P s \<and> m s = (r, s') \<longrightarrow>
        fs_faults s' = fs_faults s \<and> fs_calls s \<le> fs_calls s' \<and>
        (case r of Inl e \<Rightarrow> fired s s' | Inr x \<Rightarrow> Q x s'))"

lemma blamesI:
  assumes "\<And>s r s'. P s \<Longrightarrow> m s = (r, s') \<Longrightarrow>
    fs_faults s' = fs_faults s \<and> fs_calls s \<le> fs_calls s' \<and>
    (case r of Inl e \<Rightarrow> fired s s' | Inr x \<Rightarrow> Q x s')"
  shows "blames P m Q"
  unfolding blames_def using assms by blast

lemma blamesD:
  assumes "blames P m Q" "P s" "m s = (r, s')"
  shows "fs_faults s' = fs_faults s" "fs_calls s \<le> fs_calls s'" "r = Inl e \<Longrightarrow> fired s s'"
    "r = Inr x \<Longrightarrow> Q x s'"
  using assms unfolding blames_def by fastforce+

lemma fired_mono:
  "fired s1 s2 \<Longrightarrow> fs_faults s1 = fs_faults s \<Longrightarrow> fs_calls s \<le> fs_calls s1 \<Longrightarrow>
   fs_calls s2 \<le> fs_calls s3 \<Longrightarrow> fired s s3"
  unfolding fired_def by (metis le_trans less_le_trans)

lemma blames_bind:
  assumes m: "blames P m R" and f: "\<And>x. blames (R x) (f x) Q"
  shows "blames P (io_bind m f) Q"
proof (rule blamesI)
  fix s r s'
  assume P: "P s" and run: "io_bind m f s = (r, s')"
  obtain r1 s1 where a: "m s = (r1, s1)" by fastforce
  note M = blamesD[OF m P a]
  show "fs_faults s' = fs_faults s \<and> fs_calls s \<le> fs_calls s' \<and>
    (case r of Inl e \<Rightarrow> fired s s' | Inr x \<Rightarrow> Q x s')"
  proof (cases r1)
    case (Inl e)
    with run a M show ?thesis by (auto simp: io_bind_Inl)
  next
    case (Inr x)
    with run a have b: "f x s1 = (r, s')" by (simp add: io_bind_Inr)
    note F = blamesD[OF f M(4)[OF Inr] b]
    show ?thesis
    proof (cases r)
      case (Inl e)
      with F M fired_mono[OF F(3)[OF Inl] M(1,2) le_refl] show ?thesis by simp
    qed (use F M in auto)
  qed
qed

lemma blames_return: "(\<And>s. P s \<Longrightarrow> Q x s) \<Longrightarrow> blames P (io_return x) Q"
  by (auto simp: blames_def)

lemma blames_weaken: "blames P m Q \<Longrightarrow> (\<And>s. P' s \<Longrightarrow> P s) \<Longrightarrow> (\<And>x s. Q x s \<Longrightarrow> Q' x s) \<Longrightarrow> blames P' m Q'"
  unfolding blames_def by (fastforce split: sum.splits)

text \<open>A step that, when it fails, first removes the temporary file.\<close>

lemma blames_cleanup:
  assumes m: "blames P m (\<lambda>_. R)" and k: "blames R k Q"
  shows "blames P (io_bind (io_try m) (\<lambda>res.
    case res of Inl e \<Rightarrow> io_bind (sys_ignore (std_remove_file t)) (\<lambda>_. io_fail e) | Inr _ \<Rightarrow> k)) Q"
proof (rule blamesI)
  fix s r s'
  assume P: "P s" and run: "io_bind (io_try m) (\<lambda>res.
    case res of Inl e \<Rightarrow> io_bind (sys_ignore (std_remove_file t)) (\<lambda>_. io_fail e) | Inr _ \<Rightarrow> k) s = (r, s')"
  obtain r1 s1 where a: "m s = (r1, s1)" by fastforce
  note M = blamesD[OF m P a]
  show "fs_faults s' = fs_faults s \<and> fs_calls s \<le> fs_calls s' \<and>
    (case r of Inl e \<Rightarrow> fired s s' | Inr x \<Rightarrow> Q x s')"
  proof (cases r1)
    case (Inl e)
    with run a have r: "r = Inl e" and s': "s' = snd (std_remove_file t s1)"
      by (auto simp: io_bind_def io_try_def sys_ignore_def)
    have "fired s s'"
      using fired_mono[OF M(3)[OF Inl] refl le_refl, of s'] s' by simp
    with r s' M show ?thesis by simp
  next
    case (Inr x)
    with run a have b: "k s1 = (r, s')" by (simp add: io_try_simp io_bind_Inr)
    note F = blamesD[OF k M(4)[OF Inr] b]
    show ?thesis
    proof (cases r)
      case (Inl e)
      with F M fired_mono[OF F(3)[OF Inl] M(1,2) le_refl] show ?thesis by simp
    qed (use F M in auto)
  qed
qed

lemma blames_sys:
  assumes "\<And>s. fs_faults (snd (m s)) = fs_faults s" "\<And>s. fs_calls (snd (m s)) = Suc (fs_calls s)"
    and "\<And>s e s'. P s \<Longrightarrow> m s = (Inl e, s') \<Longrightarrow> fs_faults s (fs_calls s) \<noteq> None"
    and "\<And>s u s'. P s \<Longrightarrow> m s = (Inr u, s') \<Longrightarrow> Q s'"
  shows "blames P (sys_io p m) (\<lambda>_. Q)"
proof (rule blamesI)
  fix s r s'
  assume P: "P s" and run: "sys_io p m s = (r, s')"
  obtain r1 s1 where a: "m s = (r1, s1)" by fastforce
  have "s' = s1" and r: "r = map_err (Io p) r1" using run a by (cases r1; simp add: sys_io_def)+
  moreover have "fs_faults s1 = fs_faults s" "fs_calls s1 = Suc (fs_calls s)"
    using assms(1,2)[of s] a by simp_all
  ultimately show "fs_faults s' = fs_faults s \<and> fs_calls s \<le> fs_calls s' \<and>
    (case r of Inl e \<Rightarrow> fired s s' | Inr x \<Rightarrow> Q s')"
    using assms(3)[OF P, of _ s1] assms(4)[OF P, of _ s1] a
    by (cases r1) (auto simp: fired_def)
qed

section \<open>Writable targets\<close>

definition layout :: "string set \<Rightarrow> bool" where
  "layout T \<longleftrightarrow>
     (\<forall>p\<in>T. \<not> is_temp p \<and>
        (\<exists>q. path_parent p = Some q \<and> q \<noteq> [] \<and> last q \<noteq> SLASH) \<and>
        (\<forall>q\<in>set (path_ancestors p). q \<notin> T \<and> \<not> is_temp q))"

definition ready :: "string set \<Rightarrow> fs \<Rightarrow> bool" where
  "ready T s \<longleftrightarrow>
     (\<forall>p\<in>T. \<not> is_dir s p \<and> (\<forall>q\<in>set (path_ancestors p). file_at s q = None)) \<and>
     (\<forall>q. is_temp q \<longrightarrow> \<not> is_dir s q)"

lemma sys_call_Inl: "sys_call eff part s = (Inl e, s') \<Longrightarrow> fs_faults s (fs_calls s) \<noteq> None"
  by (auto simp: sys_call_def Let_def split: option.splits)

lemma is_dir_sys [simp]:
  "is_dir (snd (std_create p s)) q = is_dir s q"
  "is_dir (snd (std_write_all p c s)) q = is_dir s q"
  "is_dir (snd (std_sync p s)) q = is_dir s q"
  "is_dir (snd (std_rename a b s)) q = is_dir s q"
  "is_dir (snd (std_remove_file p s)) q = is_dir s q"
  by (auto simp: std_create_def std_write_all_def std_sync_def std_rename_def std_remove_file_def
      sys_call_def Let_def split: option.split)

lemma is_dir_create_dir_all_cases:
  "is_dir (snd (std_create_dir_all p s)) q \<Longrightarrow> is_dir s q \<or> q \<in> set (p # path_ancestors p)"
  by (auto simp: std_create_dir_all_def sys_call_def Let_def is_dir_def split: if_splits option.splits)

lemma is_dir_create_dir_all_ok:
  "std_create_dir_all p s = (Inr u, s') \<Longrightarrow> is_dir s' p"
  by (auto simp: std_create_dir_all_def sys_call_def Let_def is_dir_def split: if_splits option.splits)

lemma ancestors_Cons: "path_parent p = Some q \<Longrightarrow> path_ancestors p = q # path_ancestors q"
  by (subst path_ancestors.simps) simp

lemma temp_path_parent:
  assumes "path_parent dest = Some q" "q \<noteq> []" "last q \<noteq> SLASH"
  shows "path_parent (temp_path s dest) = Some q"
proof -
  have "SLASH \<notin> set (unwrap_or (path_file_name dest) [])"
    by (cases "path_file_name dest") (auto dest: path_file_name_plain simp: plain_name_def)
  from path_parent_join[OF temp_name_plain[OF this] assms(2,3)] assms(1) show ?thesis
    by (simp add: temp_path_def Let_def)
qed

lemma blames_write_via:
  assumes "is_temp tmp" "path_parent tmp = Some q"
  shows "blames (\<lambda>s. is_dir s q \<and> \<not> is_dir s tmp \<and> \<not> is_dir s dest) (write_via tmp dest c)
    (\<lambda>_ _. True)"
  unfolding write_via_def write_temp_def
proof (rule blames_cleanup)
  let ?P = "\<lambda>s. is_dir s q \<and> \<not> is_dir s tmp \<and> \<not> is_dir s dest"
  let ?R = "\<lambda>s. \<not> is_dir s dest \<and> file_at s tmp \<noteq> None"
  have create: "blames ?P (sys_io tmp (std_create tmp)) (\<lambda>_ s. \<not> is_dir s dest)"
  proof (rule blames_sys)
    show "fs_faults s (fs_calls s) \<noteq> None" if "?P s" "std_create tmp s = (Inl e, s')" for s e s'
      using that assms(2)
      by (auto simp: std_create_def parent_present_def split: if_splits dest!: sys_call_Inl)
    show "\<not> is_dir s' dest" if "?P s" "std_create tmp s = (Inr u, s')" for s u s'
      using that is_dir_sys(1)[of tmp s dest] by simp
  qed simp_all
  have wr: "blames (\<lambda>s. \<not> is_dir s dest) (sys_io tmp (std_write_all tmp c)) (\<lambda>_. ?R)"
  proof (rule blames_sys)
    show "fs_faults s (fs_calls s) \<noteq> None" if "std_write_all tmp c s = (Inl e, s')" for s e s'
      using that by (auto simp: std_write_all_def dest!: sys_call_Inl)
    show "?R s'" if "\<not> is_dir s dest" "std_write_all tmp c s = (Inr u, s')" for s u s'
      using that is_dir_sys(2)[of tmp c s dest] file_at_write_all_ok[of tmp c s u s'] by simp
  qed simp_all
  have sync: "blames ?R (sys_io tmp (std_sync tmp)) (\<lambda>_. ?R)"
  proof (rule blames_sys)
    show "fs_faults s (fs_calls s) \<noteq> None" if "std_sync tmp s = (Inl e, s')" for s e s'
      using that by (auto simp: std_sync_def dest!: sys_call_Inl)
    show "?R s'" if "?R s" "std_sync tmp s = (Inr u, s')" for s u s'
      using that is_dir_sys(3)[of tmp s dest] file_at_sync[of tmp s tmp] by simp
  qed simp_all
  show "blames ?P (io_bind (sys_io tmp (std_create tmp)) (\<lambda>_.
      io_bind (sys_io tmp (std_write_all tmp c)) (\<lambda>_. sys_io tmp (std_sync tmp)))) (\<lambda>_. ?R)"
    by (rule blames_bind[OF create], rule blames_bind[OF wr], rule sync)
  have rename: "blames ?R (sys_io dest (std_rename tmp dest)) (\<lambda>_ _. True)"
  proof (rule blames_sys)
    show "fs_faults s (fs_calls s) \<noteq> None" if "?R s" "std_rename tmp dest s = (Inl e, s')" for s e s'
      using that by (auto simp: std_rename_def split: if_splits option.splits dest!: sys_call_Inl)
  qed simp_all
  show "blames ?R (io_bind (io_try (sys_io dest (std_rename tmp dest))) (\<lambda>renamed.
      case renamed of Inl e \<Rightarrow> io_bind (sys_ignore (std_remove_file tmp)) (\<lambda>_. io_fail e)
      | Inr _ \<Rightarrow> io_return ())) (\<lambda>_ _. True)"
    by (rule blames_cleanup[OF rename]) (simp add: blames_return)
qed

lemma blames_atomic_write:
  assumes T: "layout T" "target dir rel \<in> T"
  shows "blames (ready T) (atomic_write dir rel c) (\<lambda>_ _. True)"
proof -
  let ?d = "path_join dir rel"
  from T obtain q where q: "path_parent ?d = Some q" "q \<noteq> []" "last q \<noteq> SLASH"
    by (auto simp: layout_def target_def)
  have anc: "set (path_ancestors ?d) = set (q # path_ancestors q)"
    using ancestors_Cons[OF q(1)] by simp
  have nt: "\<forall>x\<in>set (q # path_ancestors q). \<not> is_temp x \<and> x \<notin> T"
    using T anc by (auto simp: layout_def target_def)
  let ?R = "\<lambda>s. is_dir s q \<and> (\<forall>t. is_temp t \<longrightarrow> \<not> is_dir s t) \<and> \<not> is_dir s ?d"
  have mk: "blames (ready T) (sys_io q (std_create_dir_all q)) (\<lambda>_. ?R)"
  proof (rule blames_sys)
    show "fs_faults s (fs_calls s) \<noteq> None" if "ready T s" "std_create_dir_all q s = (Inl e, s')" for s e s'
      using that T anc
      by (auto simp: std_create_dir_all_def ready_def target_def list_ex_iff split: if_splits dest!: sys_call_Inl)
    show "?R s'" if "ready T s" "std_create_dir_all q s = (Inr u, s')" for s u s'
    proof -
      have old: "is_dir s x" if "is_dir s' x" "x \<notin> set (q # path_ancestors q)" for x
        using is_dir_create_dir_all_cases[of q s x] that \<open>std_create_dir_all q s = (Inr u, s')\<close> by simp
      have "is_dir s' q" using is_dir_create_dir_all_ok[OF that(2)] .
      moreover have "\<not> is_dir s' t" if "is_temp t" for t
        using old[of t] that nt \<open>ready T s\<close> unfolding ready_def by blast
      moreover have "\<not> is_dir s' ?d"
        using old[of ?d] nt T(2) \<open>ready T s\<close> unfolding ready_def target_def by blast
      ultimately show ?thesis by blast
    qed
  qed simp_all
  have body: "blames ?R (io_bind (io_get (\<lambda>s. temp_path s ?d)) (\<lambda>tmp. write_via tmp ?d c)) (\<lambda>_ _. True)"
  proof (rule blamesI)
    fix s r s'
    assume R: "?R s" and run: "io_bind (io_get (\<lambda>s. temp_path s ?d)) (\<lambda>tmp. write_via tmp ?d c) s = (r, s')"
    then have w: "write_via (temp_path s ?d) ?d c s = (r, s')" by simp
    have P: "is_dir s q \<and> \<not> is_dir s (temp_path s ?d) \<and> \<not> is_dir s ?d" using R by simp
    note B = blamesD[OF blames_write_via[OF is_temp_temp_path temp_path_parent[OF q]] P w]
    then show "fs_faults s' = fs_faults s \<and> fs_calls s \<le> fs_calls s' \<and>
        (case r of Inl e \<Rightarrow> fired s s' | Inr x \<Rightarrow> True)"
      by (cases r) auto
  qed
  show ?thesis
    unfolding atomic_write_via Let_def using q(1) blames_bind[OF mk body] by simp
qed

section \<open>Targets stay writable\<close>

lemma stable_dir_atomic_write:
  assumes "path_parent (path_join d r) = Some q" "x \<notin> set (q # path_ancestors q)"
    "\<not> is_dir s x" "atomic_write d r c s = (res, s')"
  shows "\<not> is_dir s' x"
proof -
  have via: "stable (\<lambda>s. is_dir s x) (write_via t e c)" for t e
    unfolding write_via_def write_temp_def
    by (intro stable_intros stable_sys_io stable_sys_ignore) simp_all
  obtain r1 s1 where mk: "sys_io q (std_create_dir_all q) s = (r1, s1)" by fastforce
  have "\<not> is_dir s1 x"
    using mk is_dir_create_dir_all_cases[of q s x] assms(2,3)
    by (auto simp: sys_io_def split: prod.splits sum.splits)
  show ?thesis
  proof (cases r1)
    case (Inl e)
    with assms(1,4) mk \<open>\<not> is_dir s1 x\<close> show ?thesis
      by (auto simp: atomic_write_via Let_def io_bind_Inl)
  next
    case (Inr u)
    with assms(1,4) mk have "write_via (temp_path s1 (path_join d r)) (path_join d r) c s1 = (res, s')"
      by (simp add: atomic_write_via Let_def io_bind_Inr)
    from stableD[OF via this] \<open>\<not> is_dir s1 x\<close> show ?thesis by simp
  qed
qed

lemma ready_atomic_write:
  assumes T: "layout T" "target dir rel \<in> T" and r: "ready T s"
    and run: "atomic_write dir rel c s = (res, s')"
  shows "ready T s'"
proof -
  let ?d = "path_join dir rel"
  obtain q where q: "path_parent ?d = Some q" using T by (auto simp: layout_def target_def)
  have anc: "set (path_ancestors ?d) = set (q # path_ancestors q)"
    using ancestors_Cons[OF q] by simp
  have nt: "\<forall>x\<in>set (q # path_ancestors q). \<not> is_temp x \<and> x \<notin> T"
    using T anc by (auto simp: layout_def target_def)
  have dirs: "\<not> is_dir s' x" if "\<not> is_dir s x" "x \<in> T \<or> is_temp x" for x
    using stable_dir_atomic_write[OF q _ that(1) run] nt that(2) by blast
  have files: "file_at s' x = file_at s x" if "x \<in> set (path_ancestors p)" "p \<in> T" for x p
  proof -
    have "x \<notin> T" "\<not> is_temp x" using that T(1) by (auto simp: layout_def)
    moreover have "x \<noteq> path_join dir rel" using \<open>x \<notin> T\<close> T(2) by (auto simp: target_def)
    ultimately show ?thesis using keepsD[OF keeps_atomic_write run] by blast
  qed
  from r dirs files show ?thesis by (simp add: ready_def)
qed

lemma ready_remove_file:
  assumes "ready T s" "std_remove_file p s = (res, s')"
  shows "ready T s'"
proof -
  have "is_dir s' q = is_dir s q" for q using is_dir_sys(5)[of p s q] assms(2) by simp
  moreover have "file_at s q = None \<Longrightarrow> file_at s' q = None" for q
    using file_at_remove_cases[of p s q] assms(2) by auto
  ultimately show ?thesis using assms(1) by (auto simp: ready_def)
qed

lemma ready_remove_dir:
  assumes "ready T s" "std_remove_dir p s = (res, s')"
  shows "ready T s'"
proof -
  have "is_dir s' q \<Longrightarrow> is_dir s q" for q
    using assms(2)
    by (auto simp: std_remove_dir_def sys_call_def Let_def is_dir_def split: if_splits option.splits)
  moreover have "file_at s' q = file_at s q" for q
    using file_at_remove_dir[of p s q] assms(2) by simp
  ultimately show ?thesis using assms(1) by (auto simp: ready_def)
qed

section \<open>Rolling back\<close>

definition calm :: "fs \<Rightarrow> bool" where
  "calm s \<longleftrightarrow> (\<forall>i. fs_calls s \<le> i \<longrightarrow> fs_faults s i = None)"

lemma calm_not_fired: "calm s \<Longrightarrow> \<not> fired s s'"
  by (auto simp: calm_def fired_def)

lemma calm_mono: "calm s \<Longrightarrow> fs_faults s' = fs_faults s \<Longrightarrow> fs_calls s \<le> fs_calls s' \<Longrightarrow> calm s'"
  by (auto simp: calm_def)

lemma remove_file_calm:
  assumes "calm s" "\<not> is_dir s p" "std_remove_file p s = (r, s')"
  shows "file_at s' p = None"
proof (cases "file_at s p")
  case None
  then show ?thesis using assms(3) file_at_remove_cases[of p s p] by auto
next
  case (Some c)
  with assms show ?thesis
    by (auto simp: std_remove_file_def sys_call_def Let_def calm_def split: option.splits)
qed

lemma rollback_one_calm:
  assumes T: "layout T" "target dir (ap_relname a) \<in> T" and r: "ready T s" and c: "calm s"
    and run: "rollback_one dir a s = (res, s')"
  shows "res = Inr () \<and> ready T s' \<and> calm s' \<and>
    file_at s' (target dir (ap_relname a)) = ap_previous a \<and>
    (\<forall>q. \<not> is_temp q \<longrightarrow> q \<noteq> target dir (ap_relname a) \<longrightarrow> file_at s' q = file_at s q)"
proof (cases "ap_previous a")
  case None
  let ?p = "path_join dir (ap_relname a)"
  obtain r1 s1 where rm: "std_remove_file ?p s = (r1, s1)" by fastforce
  with run None have s': "s' = s1" and res: "res = Inr ()"
    by (auto simp: rollback_one_def sys_ignore_def)
  have "\<not> is_dir s ?p" using r T(2) by (simp add: ready_def target_def)
  from remove_file_calm[OF c this rm] have "file_at s1 ?p = None" .
  moreover have "file_at s1 q = file_at s q" if "q \<noteq> ?p" for q
    using file_at_remove[OF that, of s] rm by simp
  moreover have "calm s1"
    using calm_mono[OF c, of s1] faults_sys(6)[of ?p s] calls_sys(6)[of ?p s] rm by simp
  ultimately show ?thesis
    using ready_remove_file[OF r rm] s' res None by (simp add: target_def)
next
  case (Some content)
  obtain r1 s1 where w: "atomic_write dir (ap_relname a) content s = (r1, s1)" by fastforce
  with run Some have s': "s' = s1" and res: "res = Inr ()"
    by (auto simp: rollback_one_def io_ignore_def)
  note B = blamesD[OF blames_atomic_write[OF T] r w]
  have "is_ok r1" using B(3) calm_not_fired[OF c] by (cases r1) auto
  then have "file_at s1 (target dir (ap_relname a)) = Some content"
    using atomic_write_dest[OF w] by (simp add: target_def)
  moreover have "file_at s1 q = file_at s q" if "\<not> is_temp q" "q \<noteq> target dir (ap_relname a)" for q
    using keepsD[OF keeps_atomic_write w] that by (simp add: target_def)
  ultimately show ?thesis
    using ready_atomic_write[OF T r w] calm_mono[OF c B(1,2)] s' res Some by simp
qed

abbreviation applied_targets :: "string \<Rightarrow> applied list \<Rightarrow> string list" where
  "applied_targets dir as \<equiv> map (\<lambda>a. target dir (ap_relname a)) as"

lemma rollback_list_calm:
  assumes "layout T" "set (applied_targets dir as) \<subseteq> T" "distinct (applied_targets dir as)"
    and "ready T s" "calm s" "io_each (rollback_one dir) as s = (res, s')"
  shows "res = Inr () \<and> (\<forall>a\<in>set as. file_at s' (target dir (ap_relname a)) = ap_previous a) \<and>
    (\<forall>q. \<not> is_temp q \<longrightarrow> q \<notin> set (applied_targets dir as) \<longrightarrow> file_at s' q = file_at s q)"
  using assms
proof (induction as arbitrary: s)
  case (Cons a as)
  obtain r1 s1 where a: "rollback_one dir a s = (r1, s1)" by fastforce
  have ta: "target dir (ap_relname a) \<in> T" using Cons.prems(2) by simp
  note A = rollback_one_calm[OF Cons.prems(1) ta Cons.prems(4,5) a]
  have rest: "io_each (rollback_one dir) as s1 = (res, s')"
    using Cons.prems(6) a A by (simp add: io_bind_Inr)
  have IH: "res = Inr () \<and> (\<forall>a\<in>set as. file_at s' (target dir (ap_relname a)) = ap_previous a) \<and>
    (\<forall>q. \<not> is_temp q \<longrightarrow> q \<notin> set (applied_targets dir as) \<longrightarrow> file_at s' q = file_at s1 q)"
    by (rule Cons.IH[OF Cons.prems(1)]) (use Cons.prems A rest in auto)
  have "target dir (ap_relname a) \<notin> set (applied_targets dir as)" "\<not> is_temp (target dir (ap_relname a))"
    using Cons.prems(1,3) ta by (auto simp: layout_def)
  then have "file_at s' (target dir (ap_relname a)) = ap_previous a" using IH A by auto
  with IH A show ?case by auto
qed simp

lemma rollback_calm:
  assumes "layout T" "set (applied_targets dir as) \<subseteq> T" "distinct (applied_targets dir as)"
    and "ready T s" "calm s" "rollback dir as s = (res, s')"
  shows "res = Inr () \<and> (\<forall>a\<in>set as. file_at s' (target dir (ap_relname a)) = ap_previous a) \<and>
    (\<forall>q. \<not> is_temp q \<longrightarrow> q \<notin> set (applied_targets dir as) \<longrightarrow> file_at s' q = file_at s q)"
  using rollback_list_calm[OF assms(1), of dir "rev as" s res s'] assms(2-)
  by (simp add: rollback_def rev_map[symmetric])

section \<open>All or nothing\<close>

definition one_fault :: "fs \<Rightarrow> bool" where
  "one_fault s \<longleftrightarrow>
     (\<forall>i j. fs_calls s \<le> i \<longrightarrow> fs_calls s \<le> j \<longrightarrow> fs_faults s i \<noteq> None \<longrightarrow> fs_faults s j \<noteq> None \<longrightarrow> i = j)"

lemma one_fault_spent: "one_fault s \<Longrightarrow> fired s s' \<Longrightarrow> fs_faults s' = fs_faults s \<Longrightarrow> calm s'"
  unfolding one_fault_def fired_def calm_def
  by (metis leD le_trans less_imp_le)

lemma one_fault_mono:
  "one_fault s \<Longrightarrow> fs_faults s' = fs_faults s \<Longrightarrow> fs_calls s \<le> fs_calls s' \<Longrightarrow> one_fault s'"
  unfolding one_fault_def by (metis le_trans)

text \<open>The invariant of the batch: what has been applied can be put back, and the rest is untouched.\<close>

definition undoable :: "string \<Rightarrow> string set \<Rightarrow> (string \<Rightarrow> string option) \<Rightarrow> batch \<Rightarrow> fs \<Rightarrow> bool" where
  "undoable dir T orig b s \<longleftrightarrow>
     set (applied_targets dir (ba_applied b)) \<subseteq> T \<and> distinct (applied_targets dir (ba_applied b)) \<and>
     (\<forall>a\<in>set (ba_applied b). ap_previous a = orig (target dir (ap_relname a))) \<and>
     (\<forall>p\<in>T. p \<notin> set (applied_targets dir (ba_applied b)) \<longrightarrow> file_at s p = orig p) \<and>
     (\<forall>p\<in>T. fs_rfail s p = None)"

lemma undoable_restores:
  assumes L: "layout T" and u: "undoable dir T orig b s" and r: "ready T s" and c: "calm s"
    and run: "rollback dir (ba_applied b) s = (res, s')"
  shows "res = Inr () \<and> (\<forall>p\<in>T. file_at s' p = orig p)"
proof -
  have R: "res = Inr ()"
    "\<forall>a\<in>set (ba_applied b). file_at s' (target dir (ap_relname a)) = ap_previous a"
    "\<forall>q. \<not> is_temp q \<longrightarrow> q \<notin> set (applied_targets dir (ba_applied b)) \<longrightarrow> file_at s' q = file_at s q"
    using rollback_calm[OF L _ _ r c run] u by (simp_all add: undoable_def)
  have "file_at s' p = orig p" if p: "p \<in> T" for p
  proof (cases "p \<in> set (applied_targets dir (ba_applied b))")
    case True
    with R(2) u show ?thesis by (auto simp: undoable_def)
  next
    case False
    moreover have "\<not> is_temp p" using L p by (simp add: layout_def)
    ultimately show ?thesis using R(3) u p by (simp add: undoable_def)
  qed
  with R(1) show ?thesis by blast
qed

definition running :: "string \<Rightarrow> string set \<Rightarrow> (string \<Rightarrow> string option) \<Rightarrow> batch \<Rightarrow> fs \<Rightarrow> bool" where
  "running dir T orig b s \<longleftrightarrow> undoable dir T orig b s \<and> ready T s \<and> one_fault s"

lemma read_ok_file: "fs_rfail s p = None \<Longrightarrow> read_ok s p = file_at s p"
  by (auto simp: read_ok_def std_read_def split: option.split)

text \<open>A failing step leaves its target alone; then the batch is rolled back.\<close>

lemma running_fails:
  assumes L: "layout T" and b: "running dir T orig b s"
    and s1: "fired s s1" "fs_faults s1 = fs_faults s" "fs_rfail s1 = fs_rfail s" "ready T s1"
    and same: "\<forall>p\<in>T. file_at s1 p = file_at s p"
    and run: "io_bind (rollback dir (ba_applied b)) (\<lambda>_. io_fail e) s1 = (r, s')"
  shows "r = Inl e \<and> (\<forall>p\<in>T. file_at s' p = orig p)"
proof -
  obtain x s2 where rb: "rollback dir (ba_applied b) s1 = (x, s2)" by fastforce
  have u: "undoable dir T orig b s1"
    using b same s1(3) by (simp add: running_def undoable_def)
  have "calm s1" using b s1(1,2) one_fault_spent by (auto simp: running_def)
  from undoable_restores[OF L u s1(4) this rb] run rb show ?thesis by (simp add: io_bind_Inr)
qed

lemma undoable_step:
  assumes u: "undoable dir T orig b s" and t: "target dir r \<in> T" "target dir r \<notin> set (applied_targets dir (ba_applied b))"
    and rest: "\<forall>p\<in>T. p \<noteq> target dir r \<longrightarrow> file_at s' p = file_at s p" "fs_rfail s' = fs_rfail s"
    and b': "ba_applied b' = ba_applied b @ [\<lparr>ap_relname = r, ap_previous = read_ok s (path_join dir r)\<rparr>]"
  shows "undoable dir T orig b' s'"
  using assms read_ok_file[of s "path_join dir r"]
  by (auto simp: undoable_def target_def)

lemma apply_writes_running:
  assumes L: "layout T" and "set (write_targets dir ws) \<subseteq> T"
    and "distinct (applied_targets dir (ba_applied b) @ write_targets dir ws)"
    and "running dir T orig b s" and "apply_writes dir ws b s = (r, s')"
  shows "case r of Inl e \<Rightarrow> \<forall>p\<in>T. file_at s' p = orig p
    | Inr b' \<Rightarrow> running dir T orig b' s' \<and>
        applied_targets dir (ba_applied b') = applied_targets dir (ba_applied b) @ write_targets dir ws"
  using assms(2-)
proof (induction ws arbitrary: b s)
  case (Cons w ws)
  let ?d = "target dir (pw_relname w)"
  have t: "?d \<in> T" "?d \<notin> set (applied_targets dir (ba_applied b))" using Cons.prems by auto
  have rd: "ready T s" using Cons.prems(3) by (simp add: running_def)
  obtain r1 s1 where a: "atomic_write dir (pw_relname w) (pw_content w) s = (r1, s1)" by fastforce
  note B = blamesD[OF blames_atomic_write[OF L t(1)] rd a]
  have rd1: "ready T s1" by (rule ready_atomic_write[OF L t(1) rd a])
  have rf: "fs_rfail s1 = fs_rfail s" by (rule stableD[OF rfail_atomic_write a])
  have other: "file_at s1 p = file_at s p" if "p \<in> T" "p \<noteq> ?d" for p
    using keepsD[OF keeps_atomic_write a] that L by (simp add: target_def layout_def)
  show ?case
  proof (cases r1)
    case (Inl e)
    have "file_at s1 ?d = file_at s ?d"
      using atomic_write_dest[OF a] Inl by (simp add: target_def)
    with other have "\<forall>p\<in>T. file_at s1 p = file_at s p" by metis
    moreover have "io_bind (rollback dir (ba_applied b)) (\<lambda>_. io_fail e) s1 = (r, s')"
      using Cons.prems(4) a Inl by (simp add: io_try_simp io_bind_Inr)
    ultimately have "r = Inl e \<and> (\<forall>p\<in>T. file_at s' p = orig p)"
      by (intro running_fails[OF L Cons.prems(3) B(3)[OF Inl] B(1) rf rd1])
    then show ?thesis by simp
  next
    case (Inr u)
    define b1 where "b1 = \<lparr>ba_manifest = manifest_record (pw_relname w) (pw_content w) (ba_manifest b),
        ba_applied = ba_applied b @
          [\<lparr>ap_relname = pw_relname w, ap_previous = read_ok s (path_join dir (pw_relname w))\<rparr>],
        ba_out = (ba_out b)\<lparr>go_changed := True,
                            go_written := go_written (ba_out b) @ [pw_relname w]\<rparr>\<rparr>"
    have "undoable dir T orig b1 s1"
      by (rule undoable_step[OF _ t, of orig s s1])
         (use Cons.prems(3) other rf in \<open>auto simp: running_def b1_def\<close>)
    then have "running dir T orig b1 s1"
      using rd1 one_fault_mono[OF _ B(1,2)] Cons.prems(3) by (simp add: running_def)
    moreover have "apply_writes dir ws b1 s1 = (r, s')"
      using Cons.prems(4) a Inr by (simp add: io_try_simp io_bind_Inr b1_def)
    ultimately have "case r of Inl e \<Rightarrow> \<forall>p\<in>T. file_at s' p = orig p
      | Inr b' \<Rightarrow> running dir T orig b' s' \<and>
          applied_targets dir (ba_applied b') = applied_targets dir (ba_applied b1) @ write_targets dir ws"
      by (intro Cons.IH) (use Cons.prems in \<open>auto simp: b1_def\<close>)
    then show ?thesis by (cases r) (simp_all add: b1_def)
  qed
qed auto

lemma apply_removes_running:
  assumes L: "layout T" and "set (remove_targets dir rs) \<subseteq> T"
    and "distinct (applied_targets dir (ba_applied b) @ remove_targets dir rs)"
    and "running dir T orig b s" and "apply_removes dir rs b s = (r, s')"
  shows "case r of Inl e \<Rightarrow> \<forall>p\<in>T. file_at s' p = orig p
    | Inr b' \<Rightarrow> running dir T orig b' s'"
  using assms(2-)
proof (induction rs arbitrary: b s)
  case (Cons x rs)
  let ?d = "path_join dir (pr_relname x)"
  have t: "target dir (pr_relname x) \<in> T"
    "target dir (pr_relname x) \<notin> set (applied_targets dir (ba_applied b))" using Cons.prems by auto
  have rd: "ready T s" using Cons.prems(3) by (simp add: running_def)
  obtain r0 s1 where rm: "std_remove_file ?d s = (r0, s1)" by fastforce
  have st: "fs_faults s1 = fs_faults s" "fs_calls s1 = Suc (fs_calls s)" "fs_rfail s1 = fs_rfail s"
    using faults_sys(6)[of ?d s] calls_sys(6)[of ?d s] rfail_sys(6)[of ?d s] rm by simp_all
  have rd1: "ready T s1" by (rule ready_remove_file[OF rd rm])
  have other: "file_at s1 p = file_at s p" if "p \<noteq> ?d" for p
    using file_at_remove[OF that, of s] rm by simp
  show ?case
  proof (cases "\<exists>e. r0 = Inl e \<and> e \<noteq> IoNotFound")
    case True
    then obtain e where e: "r0 = Inl e" "e \<noteq> IoNotFound" by blast
    have "\<not> is_dir s ?d" using rd t(1) by (simp add: ready_def target_def)
    then have "fs_faults s (fs_calls s) \<noteq> None"
      using rm e by (auto simp: std_remove_file_def split: option.splits if_splits dest!: sys_call_Inl)
    then have "fired s s1" using st(2) by (auto simp: fired_def)
    moreover have "\<forall>p\<in>T. file_at s1 p = file_at s p" using file_at_remove_err[of ?d s e s1] rm e by simp
    moreover have "io_bind (rollback dir (ba_applied b)) (\<lambda>_. io_fail (Io ?d e)) s1 = (r, s')"
      using Cons.prems(4) rm e
      by (simp add: Let_def io_try_def remove_if_present_def io_bind_def)
    ultimately have "r = Inl (Io ?d e) \<and> (\<forall>p\<in>T. file_at s' p = orig p)"
      by (intro running_fails[OF L Cons.prems(3) _ st(1,3) rd1])
    then show ?thesis by simp
  next
    case False
    then have ok: "remove_if_present ?d s = (Inr (), s1)"
      using rm by (cases r0) (auto simp: remove_if_present_def)
    obtain y s2 where ep: "remove_empty_parent dir ?d s1 = (y, s2)" by fastforce
    have y: "y = Inr ()"
      using ep by (auto simp: remove_empty_parent_def sys_ignore_def split: option.splits if_splits)
    have st2: "fs_faults s2 = fs_faults s1" "fs_rfail s2 = fs_rfail s1"
      using stableD[OF stable_remove_empty_parent ep, of fs_faults]
        stableD[OF stable_remove_empty_parent ep, of fs_rfail] by simp_all
    have f2: "file_at s2 q = file_at s1 q" for q by (rule keepsD[OF keeps_remove_empty_parent ep])
    have c2: "fs_calls s1 \<le> fs_calls s2" and rd2: "ready T s2"
      using ep rd1 ready_remove_dir[OF rd1]
      by (auto simp: remove_empty_parent_def sys_ignore_def split: option.splits if_splits)
         (metis prod.collapse)
    define b1 where "b1 = \<lparr>ba_manifest = manifest_forget (pr_relname x) (ba_manifest b),
        ba_applied = ba_applied b @ [\<lparr>ap_relname = pr_relname x, ap_previous = read_ok s ?d\<rparr>],
        ba_out = (ba_out b)\<lparr>go_changed := True,
                            go_removed := go_removed (ba_out b) @ [pr_relname x]\<rparr>\<rparr>"
    have "undoable dir T orig b1 s2"
      by (rule undoable_step[OF _ t, of orig s s2])
         (use Cons.prems(3) other f2 st st2 in \<open>auto simp: running_def b1_def target_def\<close>)
    then have "running dir T orig b1 s2"
      using rd2 one_fault_mono[of s s2] Cons.prems(3) st st2 c2 by (simp add: running_def)
    moreover have "apply_removes dir rs b1 s2 = (r, s')"
      using Cons.prems(4) ok ep y by (simp add: Let_def io_try_simp io_bind_Inr b1_def)
    ultimately have "case r of Inl e \<Rightarrow> \<forall>p\<in>T. file_at s' p = orig p | Inr b' \<Rightarrow> running dir T orig b' s'"
      by (intro Cons.IH) (use Cons.prems in \<open>auto simp: b1_def\<close>)
    then show ?thesis .
  qed
qed auto

section \<open>A whole generation\<close>

definition plan_targets :: "string \<Rightarrow> generation_plan \<Rightarrow> string list" where
  "plan_targets dir plan =
     write_targets dir (gp_writes plan) @ remove_targets dir (gp_removes plan)"

definition manifest_path :: "string \<Rightarrow> string" where
  "manifest_path dir = path_join dir MANIFEST_NAME"

text \<open>The two outcomes on disk.\<close>

definition all_new :: "string \<Rightarrow> generation_plan \<Rightarrow> fs \<Rightarrow> bool" where
  "all_new dir plan s \<longleftrightarrow>
     (\<forall>w\<in>set (gp_writes plan). file_at s (target dir (pw_relname w)) = Some (pw_content w)) \<and>
     (\<forall>r\<in>set (gp_removes plan). file_at s (target dir (pr_relname r)) = None)"

definition batch_of :: "string \<Rightarrow> generation_plan \<Rightarrow> (fs, batch) io" where
  "batch_of dir plan =
     io_bind (apply_writes dir (gp_writes plan) (start_batch (gp_manifest plan)))
       (apply_removes dir (gp_removes plan))"

lemma apply_generate_batch:
  "apply_generate dir plan =
     (if gp_conflicts plan \<noteq> [] then io_fail (conflict_error dir (gp_conflicts plan))
      else io_bind (batch_of dir plan) (\<lambda>b.
        io_bind (if go_changed (ba_out b) then manifest_save (ba_manifest b) dir else io_return ())
          (\<lambda>_. io_return (ba_out b))))"
  by (simp add: apply_generate_def batch_of_def io_bind_assoc)

lemma batch_completes:
  assumes d: "distinct (plan_targets dir plan)" and t: "\<forall>p\<in>set (plan_targets dir plan). \<not> is_temp p"
    and h: "honest s" and run: "batch_of dir plan s = (Inr b, s')"
  shows "all_new dir plan s'"
    "ba_manifest b = forget_all (gp_removes plan) (record_all (gp_writes plan) (gp_manifest plan))"
    "go_written (ba_out b) = map pw_relname (gp_writes plan)"
    "go_removed (ba_out b) = map pr_relname (gp_removes plan)"
    "go_changed (ba_out b) \<longleftrightarrow> \<not> gp_is_empty plan"
    "\<not> is_temp q \<Longrightarrow> q \<notin> set (plan_targets dir plan) \<Longrightarrow> file_at s' q = file_at s q"
proof -
  from run obtain b1 s1 where
    a: "apply_writes dir (gp_writes plan) (start_batch (gp_manifest plan)) s = (Inr b1, s1)"
    and r: "apply_removes dir (gp_removes plan) b1 s1 = (Inr b, s')"
    by (auto simp: batch_of_def io_bind_Inr_iff)
  have A: "writes_done dir (gp_writes plan) (start_batch (gp_manifest plan)) s b1 s1"
    by (rule apply_writes_ok[OF a]) (use d t in \<open>auto simp: plan_targets_def\<close>)
  have "honest s1" using h A by (simp add: honest_def writes_done_def)
  from apply_removes_ok[OF r this] t have R: "removes_done dir (gp_removes plan) b1 s1 b s'"
    by (auto simp: plan_targets_def)
  have "file_at s' (target dir (pw_relname w)) = Some (pw_content w)" if "w \<in> set (gp_writes plan)" for w
  proof -
    have "target dir (pw_relname w) \<notin> set (remove_targets dir (gp_removes plan))"
      "\<not> is_temp (target dir (pw_relname w))"
      using that d t by (auto simp: plan_targets_def)
    with A R that show ?thesis by (simp add: writes_done_def removes_done_def)
  qed
  with R show "all_new dir plan s'" by (simp add: all_new_def removes_done_def)
  show "ba_manifest b = forget_all (gp_removes plan) (record_all (gp_writes plan) (gp_manifest plan))"
    "go_written (ba_out b) = map pw_relname (gp_writes plan)"
    "go_removed (ba_out b) = map pr_relname (gp_removes plan)"
    "go_changed (ba_out b) \<longleftrightarrow> \<not> gp_is_empty plan"
    using A R by (auto simp: writes_done_def removes_done_def start_batch_def gp_is_empty_def)
  show "\<not> is_temp q \<Longrightarrow> q \<notin> set (plan_targets dir plan) \<Longrightarrow> file_at s' q = file_at s q"
    using A R by (simp add: writes_done_def removes_done_def plan_targets_def)
qed

lemma keeps_manifest_save: "q \<noteq> manifest_path dir \<Longrightarrow> \<not> is_temp q \<Longrightarrow> keeps q (manifest_save m dir)"
  by (simp add: manifest_save_def manifest_path_def keeps_atomic_write)

lemma apply_generate_ok:
  assumes d: "distinct (plan_targets dir plan)" and t: "\<forall>p\<in>set (plan_targets dir plan). \<not> is_temp p"
    and m: "manifest_path dir \<notin> set (plan_targets dir plan)"
    and h: "honest s" and run: "apply_generate dir plan s = (Inr out, s')"
  shows "gp_conflicts plan = [] \<and> all_new dir plan s' \<and>
    go_written out = map pw_relname (gp_writes plan) \<and>
    go_removed out = map pr_relname (gp_removes plan) \<and>
    (go_changed out \<longleftrightarrow> \<not> gp_is_empty plan) \<and>
    (\<forall>q. \<not> is_temp q \<longrightarrow> q \<notin> set (plan_targets dir plan) \<longrightarrow> q \<noteq> manifest_path dir \<longrightarrow>
       file_at s' q = file_at s q) \<and>
    (\<not> gp_is_empty plan \<longrightarrow> file_at s' (manifest_path dir) =
       Some (manifest_render
         (forget_all (gp_removes plan) (record_all (gp_writes plan) (gp_manifest plan)))))"
proof -
  from run have c: "gp_conflicts plan = []" by (auto simp: apply_generate_batch split: if_splits)
  with run obtain b s1 u where b: "batch_of dir plan s = (Inr b, s1)"
    and sv: "(if go_changed (ba_out b) then manifest_save (ba_manifest b) dir else io_return ()) s1 = (Inr u, s')"
    and out: "out = ba_out b"
    by (auto simp: apply_generate_batch io_bind_Inr_iff)
  note B = batch_completes[OF d t h b]
  have keep: "file_at s' q = file_at s1 q" if "\<not> is_temp q" "q \<noteq> manifest_path dir" for q
    using sv keepsD[OF keeps_manifest_save[OF that(2,1)]] by (auto split: if_splits)
  have tk: "file_at s' p = file_at s1 p" if "p \<in> set (plan_targets dir plan)" for p
    using keep t m that by metis
  have "all_new dir plan s'"
    using B(1) tk by (simp add: all_new_def plan_targets_def)
  moreover have "file_at s' (manifest_path dir) =
       Some (manifest_render
         (forget_all (gp_removes plan) (record_all (gp_writes plan) (gp_manifest plan))))"
    if "\<not> gp_is_empty plan"
    using sv that B(2,5) atomic_write_dest[of dir MANIFEST_NAME _ s1 "Inr u" s']
    by (auto simp: manifest_save_def manifest_path_def)
  ultimately show ?thesis using c out B(3-6) keep by auto
qed

lemma apply_generate_atomic:
  assumes L: "layout (set (plan_targets dir plan))" and d: "distinct (plan_targets dir plan)"
    and m: "manifest_path dir \<notin> set (plan_targets dir plan)"
    and rd: "ready (set (plan_targets dir plan)) s"
    and rf: "\<forall>p\<in>set (plan_targets dir plan). fs_rfail s p = None"
    and h: "honest s" and o: "one_fault s" and run: "apply_generate dir plan s = (r, s')"
  shows "(\<forall>p\<in>set (plan_targets dir plan). file_at s' p = file_at s p) \<or> all_new dir plan s'"
proof (cases "gp_conflicts plan = []")
  case False
  with run show ?thesis by (simp add: apply_generate_batch)
next
  case True
  let ?T = "set (plan_targets dir plan)"
  have t: "\<forall>p\<in>?T. \<not> is_temp p" using L by (simp add: layout_def)
  obtain x s1 where b: "batch_of dir plan s = (x, s1)" by fastforce
  have keep: "keeps p (if go_changed (ba_out y) then manifest_save (ba_manifest y) dir else io_return ())"
    if "p \<in> ?T" for p y
    using keeps_manifest_save[of p dir] that m t keeps_pure by auto
  have after: "file_at s' p = file_at s1 p" if "p \<in> ?T" for p
  proof (cases x)
    case (Inl e)
    with run b True show ?thesis by (simp add: apply_generate_batch io_bind_Inl)
  next
    case (Inr y)
    with run b True have "io_bind (if go_changed (ba_out y) then manifest_save (ba_manifest y) dir
        else io_return ()) (\<lambda>_. io_return (ba_out y)) s1 = (r, s')"
      by (simp add: apply_generate_batch io_bind_Inr)
    from keepsD[OF keeps_bind[OF keep[OF that] keeps_pure(1)] this] show ?thesis .
  qed
  show ?thesis
  proof (cases x)
    case (Inr y)
    with batch_completes(1)[OF d t h] b have "all_new dir plan s1" by simp
    with after show ?thesis by (simp add: all_new_def plan_targets_def)
  next
    case (Inl e)
    have start: "running dir ?T (file_at s) (start_batch (gp_manifest plan)) s"
      using rd rf o by (simp add: running_def undoable_def start_batch_def)
    obtain y s2 where w: "apply_writes dir (gp_writes plan) (start_batch (gp_manifest plan)) s = (y, s2)"
      by fastforce
    have W: "case y of Inl e \<Rightarrow> \<forall>p\<in>?T. file_at s2 p = file_at s p
      | Inr b' \<Rightarrow> running dir ?T (file_at s) b' s2 \<and>
          applied_targets dir (ba_applied b') = [] @ write_targets dir (gp_writes plan)"
      using apply_writes_running[OF L _ _ start w] d
      by (auto simp: plan_targets_def start_batch_def split: sum.splits)
    have "\<forall>p\<in>?T. file_at s1 p = file_at s p"
    proof (cases y)
      case (Inl e2)
      with W have "\<forall>p\<in>?T. file_at s2 p = file_at s p" by simp
      moreover have "s1 = s2" using b w Inl by (simp add: batch_of_def io_bind_Inl)
      ultimately show ?thesis by simp
    next
      case (Inr b2)
      with b w have r: "apply_removes dir (gp_removes plan) b2 s2 = (x, s1)"
        by (simp add: batch_of_def io_bind_Inr)
      have at: "applied_targets dir (ba_applied b2) = write_targets dir (gp_writes plan)"
        and rb: "running dir ?T (file_at s) b2 s2"
        using W Inr by simp_all
      have ds: "distinct (applied_targets dir (ba_applied b2) @ remove_targets dir (gp_removes plan))"
        using d by (simp only: at plan_targets_def)
      have "set (remove_targets dir (gp_removes plan)) \<subseteq> ?T" by (simp add: plan_targets_def)
      from apply_removes_running[OF L this ds rb r] \<open>x = Inl e\<close> show ?thesis by simp
    qed
    with after show ?thesis by simp
  qed
qed

end
