(* ===== verification/Escape.thy ===== *)
theory Escape
  imports Prelude Effects
begin

text \<open>
  Unit-name escaping, src/units/escape.rs, and the unit names built from it, src/app/naming.rs.
  Escaping is proved invertible; the cut to systemd's length limit is proved to keep whole escape
  tokens, so that a cut name is the escaped form of a prefix of the original.
\<close>

section \<open>src/units/escape.rs\<close>

definition cesc_byte :: "char \<Rightarrow> string" where
  "cesc_byte b = [BSL, CHR ''x''] @ hex2 b"

definition char2cesc :: "string \<Rightarrow> string" where
  "char2cesc s = concat (map cesc_byte s)"

definition is_allowed :: "char \<Rightarrow> bool" where
  "is_allowed ch \<longleftrightarrow>
     ch = CHR ''.'' \<or> ch = CHR ''_'' \<or> ch = CHR '':'' \<or> is_digit ch \<or> is_upper ch \<or> is_lower ch"

definition escape_byte :: "char \<Rightarrow> string" where
  "escape_byte ch =
     (if ch = CHR ''/'' then ''-'' else if is_allowed ch then [ch] else char2cesc [ch])"

definition simple_systemd_escape :: "string \<Rightarrow> bool \<Rightarrow> string" where
  "simple_systemd_escape input start =
     (case (if start then strip_prefix ''.'' input else None) of
        Some stripped \<Rightarrow> char2cesc ''.'' @ concat (map escape_byte stripped)
      | None \<Rightarrow> concat (map escape_byte input))"

section \<open>src/app/naming.rs\<close>

function truncate_loop :: "nat \<Rightarrow> string \<Rightarrow> string \<Rightarrow> string" where
  "truncate_loop mx out s =
     (case s of
        [] \<Rightarrow> out
      | b # rest \<Rightarrow>
          if b = BSL \<and> starts_with ''x'' rest
          then (if length s < 4 \<or> length out + 4 > mx then out
                else truncate_loop mx (out @ take 4 s) (drop 4 s))
          else if length out + 1 > mx then out
          else truncate_loop mx (out @ [b]) rest)"
  by pat_completeness auto
termination
  by (relation "measure (\<lambda>(mx, out, s). length s)") auto

declare truncate_loop.simps [simp del]

definition truncate_escaped :: "string \<Rightarrow> nat \<Rightarrow> string" where
  "truncate_escaped s mx = (if length s \<le> mx then s else truncate_loop mx [] s)"

definition auto_unit_name :: "string \<Rightarrow> string \<Rightarrow> string \<Rightarrow> string \<Rightarrow> string" where
  "auto_unit_name unit_type desktop app_name hex =
     (let l_static = length ''app---DEADBEEF.'' + length unit_type;
          d0 = simple_systemd_escape desktop False;
          desktop_sub = (if l_static + length d0 > 127 then truncate_escaped d0 (127 - l_static) else d0);
          c0 = simple_systemd_escape app_name False;
          used = l_static + length desktop_sub;
          cmd_sub = (if used + length c0 > 255 then truncate_escaped c0 (255 - used) else c0)
      in if unit_type = ''scope''
         then ''app-'' @ desktop_sub @ ''-'' @ cmd_sub @ ''-'' @ hex @ ''.scope''
         else ''app-'' @ desktop_sub @ ''-'' @ cmd_sub @ ''@'' @ hex @ ''.service'')"

section \<open>Escaping is invertible\<close>

lemma is_allowed_neq: "is_allowed ch \<Longrightarrow> ch \<noteq> CHR ''-'' \<and> ch \<noteq> BSL \<and> ch \<noteq> CHR ''/''"
  by (auto simp: is_allowed_def char_class_defs)

lemma char2cesc_single [simp]: "char2cesc [c] = BSL # CHR ''x'' # hex2 c"
  by (simp add: char2cesc_def cesc_byte_def)

lemma length_hex2 [simp]: "length (hex2 c) = 2"
  by (simp add: hex2_def)

lemma char2cesc_Cons: "char2cesc (c # s) = BSL # CHR ''x'' # hex2 c @ char2cesc s"
  by (simp add: char2cesc_def cesc_byte_def)

text \<open>Reading a hexadecimal digit back.\<close>

lemma digit_value_digit_char: "n < 16 \<Longrightarrow> digit_value (digit_char n) = Some n"
proof -
  assume "n < 16"
  then have "n \<in> set [0..<16]" by simp
  moreover have "list_all (\<lambda>n. digit_value (digit_char n) = Some n) [0..<16]" by code_simp
  ultimately show ?thesis unfolding list_all_iff by blast
qed

definition unhex2 :: "char \<Rightarrow> char \<Rightarrow> char" where
  "unhex2 a b = char_of (the (digit_value a) * 16 + the (digit_value b))"

lemma unhex2_hex2: "hex2 c = [a, b] \<Longrightarrow> unhex2 a b = c"
  using nat_of_char_less_256[of c]
  by (auto simp: hex2_def unhex2_def digit_value_digit_char less_mult_imp_div_less)

fun unescape :: "string \<Rightarrow> string" where
  "unescape (b # c # d # e # s) =
     (if b = BSL \<and> c = CHR ''x'' then unhex2 d e # unescape s
      else (if b = CHR ''-'' then CHR ''/'' else b) # unescape (c # d # e # s))"
| "unescape (b # s) = (if b = CHR ''-'' then CHR ''/'' else b) # unescape s"
| "unescape [] = []"

lemma unescape_plain: "b \<noteq> BSL \<Longrightarrow> unescape (b # s) = (if b = CHR ''-'' then CHR ''/'' else b) # unescape s"
  by (cases "b # s" rule: unescape.cases) auto

lemma unescape_token: "unescape (BSL # CHR ''x'' # hex2 c @ s) = c # unescape s"
proof -
  obtain a b where h: "hex2 c = [a, b]" by (simp add: hex2_def)
  then show ?thesis using unhex2_hex2[OF h] by simp
qed

lemma unescape_escape_bytes: "unescape (concat (map escape_byte s)) = s"
proof (induction s)
  case (Cons c s)
  show ?case
  proof (cases "c = CHR ''/'' \<or> is_allowed c")
    case True
    then show ?thesis
      using Cons is_allowed_neq[of c] by (auto simp: escape_byte_def unescape_plain)
  next
    case False
    with Cons unescape_token[of c] show ?thesis by (simp add: escape_byte_def)
  qed
qed simp

lemma unescape_escape: "unescape (simple_systemd_escape s start) = s"
  using unescape_token[of "CHR ''.''"]
  by (auto simp: simple_systemd_escape_def unescape_escape_bytes strip_prefix_Some_iff
      split: option.split)

text \<open>What an escaped string consists of.\<close>

lemma escaped_chars:
  assumes "c \<in> set (simple_systemd_escape s start)"
  shows "is_allowed c \<or> c = CHR ''-'' \<or> c = BSL"
proof -
  have hex: "is_allowed c" if "c \<in> set (hex2 x)" for x
  proof -
    have "list_all (\<lambda>n. is_allowed (digit_char n)) [0..<16]" by code_simp
    then have ok: "is_allowed (digit_char n)" if "n < 16" for n
      using that unfolding list_all_iff by simp
    have "c = digit_char (of_char x div 16) \<or> c = digit_char (of_char x mod 16)"
      using that by (simp add: hex2_def) 
    moreover have "of_char x div 16 < (16 :: nat)" "of_char x mod 16 < (16 :: nat)"
      using nat_of_char_less_256[of x] by (simp_all add: less_mult_imp_div_less)
    ultimately show ?thesis using ok by (elim disjE) simp_all
  qed
  have x: "is_allowed (CHR ''x'')" by code_simp
  have "is_allowed d \<or> d = CHR ''-'' \<or> d = BSL" if "d \<in> set (escape_byte b)" "d = c" for d b
    using that hex x by (auto simp: escape_byte_def split: if_splits)
  then show ?thesis
    using assms hex x by (auto simp: simple_systemd_escape_def split: option.splits if_splits)
qed

text \<open>With \<open>start\<close> no escaped name begins with a dot.\<close>

lemma escape_no_leading_dot: "\<not> starts_with ''.'' (simple_systemd_escape s True)"
proof (cases "strip_prefix ''.'' s")
  case None
  show ?thesis
  proof (cases s)
    case (Cons c t)
    with None have "c \<noteq> CHR ''.''" by (auto split: if_splits)
    with Cons None show ?thesis
      by (auto simp: simple_systemd_escape_def escape_byte_def starts_with_iff)
  qed (simp add: simple_systemd_escape_def starts_with_iff)
qed (simp add: simple_systemd_escape_def starts_with_iff)

section \<open>The cut keeps whole tokens\<close>

definition escape_tokens :: "string \<Rightarrow> bool \<Rightarrow> string list" where
  "escape_tokens s start =
     (if start \<and> starts_with ''.'' s then char2cesc ''.'' # map escape_byte (tl s)
      else map escape_byte s)"

lemma escape_concat: "simple_systemd_escape s start = concat (escape_tokens s start)"
  by (auto simp: simple_systemd_escape_def escape_tokens_def starts_with_def strip_prefix_Some_iff
      split: option.split)

lemma escape_tokens_take: "escape_tokens (take n s) start = take n (escape_tokens s start)"
proof (cases "start \<and> starts_with ''.'' s")
  case True
  then obtain r where s: "s = CHR ''.'' # r" by (auto simp: starts_with_iff)
  show ?thesis
    using True s by (cases n) (auto simp: escape_tokens_def starts_with_iff take_map)
next
  case False
  then have "\<not> (start \<and> starts_with ''.'' (take n s))"
    by (cases s; cases n) (auto simp: starts_with_iff)
  with False show ?thesis by (auto simp: escape_tokens_def take_map)
qed

definition token :: "string \<Rightarrow> bool" where
  "token t \<longleftrightarrow> (\<exists>b. t = [b] \<and> b \<noteq> BSL) \<or> (\<exists>d e. t = [BSL, CHR ''x'', d, e])"

lemma token_cesc: "token (char2cesc [c])"
  by (simp add: token_def hex2_def)

lemma token_escape: "t \<in> set (escape_tokens s start) \<Longrightarrow> token t"
proof -
  have "token (escape_byte c)" for c
    using token_cesc[of c] is_allowed_neq[of c]
    by (auto simp: escape_byte_def token_def)
  then show "t \<in> set (escape_tokens s start) \<Longrightarrow> token t"
    using token_cesc[of "CHR ''.''"] by (auto simp: escape_tokens_def split: if_splits)
qed

lemma truncate_loop_token:
  assumes "token t"
  shows "truncate_loop mx out (t @ s) =
    (if length out + length t > mx then out else truncate_loop mx (out @ t) s)"
  using assms
  by (auto simp: token_def truncate_loop.simps[of mx out "_ # _"] starts_with_def)

lemma truncate_loop_tokens:
  assumes "\<forall>t\<in>set toks. token t"
  shows "\<exists>n\<le>length toks. truncate_loop mx out (concat toks) = out @ concat (take n toks) \<and>
    (length out \<le> mx \<longrightarrow> length (out @ concat (take n toks)) \<le> mx) \<and>
    (n = length toks \<or> mx < length (out @ concat (take (Suc n) toks)))"
  using assms
proof (induction toks arbitrary: out)
  case Nil
  then show ?case by (simp add: truncate_loop.simps)
next
  case (Cons t toks)
  then have t: "token t" by simp
  show ?case
  proof (cases "length out + length t > mx")
    case True
    then show ?thesis
      using truncate_loop_token[OF t, of mx out "concat toks"] by (intro exI[of _ 0]) simp
  next
    case False
    from Cons obtain n where "n \<le> length toks"
      "truncate_loop mx (out @ t) (concat toks) = (out @ t) @ concat (take n toks)"
      "length (out @ t) \<le> mx \<longrightarrow> length ((out @ t) @ concat (take n toks)) \<le> mx"
      "n = length toks \<or> mx < length ((out @ t) @ concat (take (Suc n) toks))"
      by (metis list.set_intros(2))
    with False truncate_loop_token[OF t, of mx out "concat toks"] show ?thesis
      by (intro exI[of _ "Suc n"]) auto
  qed
qed

lemma truncate_escape:
  "\<exists>n\<le>length s. truncate_escaped (simple_systemd_escape s start) mx = simple_systemd_escape (take n s) start \<and>
     length (simple_systemd_escape (take n s) start) \<le> mx \<and>
     (n = length s \<or> mx < length (simple_systemd_escape (take (Suc n) s) start))"
proof (cases "length (simple_systemd_escape s start) \<le> mx")
  case True
  then show ?thesis by (intro exI[of _ "length s"]) (simp add: truncate_escaped_def)
next
  case False
  have len: "length (escape_tokens s start) = length s"
    by (auto simp: escape_tokens_def starts_with_iff)
  have "\<forall>t\<in>set (escape_tokens s start). token t" using token_escape by blast
  from truncate_loop_tokens[OF this, of mx "[]"] False show ?thesis
    by (auto simp: truncate_escaped_def escape_concat escape_tokens_take len)
qed

lemma length_truncate_escape: "length (truncate_escaped (simple_systemd_escape s start) mx) \<le> mx"
  using truncate_escape[of s start mx] by auto

lemma cut_bound:
  assumes "l \<le> m"
  shows "l + length (if l + length (simple_systemd_escape s False) > m
      then truncate_escaped (simple_systemd_escape s False) (m - l)
      else simple_systemd_escape s False) \<le> m"
  using assms length_truncate_escape[of s False "m - l"] by auto

lemma auto_unit_name_bound:
  assumes "unit_type = ''scope'' \<or> unit_type = ''service''" "length hex = 8"
  shows "length (auto_unit_name unit_type desktop app_name hex) \<le> 255"
proof -
  define l where "l = length ''app---DEADBEEF.'' + length unit_type"
  define d where "d = (if l + length (simple_systemd_escape desktop False) > 127
    then truncate_escaped (simple_systemd_escape desktop False) (127 - l)
    else simple_systemd_escape desktop False)"
  define c where "c = (if l + length d + length (simple_systemd_escape app_name False) > 255
    then truncate_escaped (simple_systemd_escape app_name False) (255 - (l + length d))
    else simple_systemd_escape app_name False)"
  have "l \<le> 127" using assms(1) by (auto simp: l_def)
  from cut_bound[OF this, of desktop] have "l + length d \<le> 255" unfolding d_def by linarith
  from cut_bound[OF this, of app_name] have "l + length d + length c \<le> 255" unfolding c_def .
  moreover have "auto_unit_name unit_type desktop app_name hex =
      (if unit_type = ''scope'' then ''app-'' @ d @ ''-'' @ c @ ''-'' @ hex @ ''.scope''
       else ''app-'' @ d @ ''-'' @ c @ ''@'' @ hex @ ''.service'')"
    unfolding auto_unit_name_def Let_def l_def d_def c_def by (rule refl)
  ultimately show ?thesis using assms by (auto simp: l_def)
qed

end
