(* ===== verification/UnitProps.thy ===== *)
theory UnitProps
  imports Rollback Escape RefBus
begin

text \<open>
  What the unit files' life cycle promises: names and quoting, the plan, its application, with runs
  on small disks.
\<close>

section \<open>Plans always exist on a readable disk\<close>

lemma std_read_readable: "fs_rfail s p = None \<Longrightarrow> std_read s p = (case file_at s p of Some c \<Rightarrow> Inr c | None \<Rightarrow> Inl IoNotFound)"
  by (simp add: std_read_def)

lemma classify_write_total:
  "fs_rfail s = (\<lambda>_. None) \<Longrightarrow> \<exists>q. classify_write s dir r c p = Inr q"
  by (auto simp: classify_write_def Let_def std_read_def split: option.split)

lemma classify_dropin_total:
  "fs_rfail s = (\<lambda>_. None) \<Longrightarrow> \<exists>q. classify_dropin s dir r wanted rc p = Inr q"
  by (auto simp: classify_dropin_def Let_def std_read_def split: option.split)

lemma classify_graph_total:
  "fs_rfail s = (\<lambda>_. None) \<Longrightarrow> \<exists>q. classify_graph s dir ctx us p = Inr q"
proof (induction us arbitrary: p)
  case (Cons u us)
  from classify_write_total[OF Cons.prems] obtain q
    where "classify_write s dir (ut_name u) (render (ut_body u) ctx) p = Inr q" by blast
  with Cons show ?case by simp
qed simp

lemma classify_dropins_total:
  "fs_rfail s = (\<lambda>_. None) \<Longrightarrow> \<exists>q. classify_dropins s dir rc ds p = Inr q"
proof (induction ds arbitrary: p)
  case (Cons d ds)
  obtain r wanted where d: "d = (r, wanted)" by (cases d)
  from classify_dropin_total[OF Cons.prems] obtain q
    where "classify_dropin s dir r wanted rc p = Inr q" by blast
  with Cons d show ?case by simp
qed simp

lemma plan_generate_total:
  assumes "fs_rfail s = (\<lambda>_. None)"
  shows "\<exists>p. plan_generate s dir ctx d tw rc = Inr p"
proof -
  have "\<exists>m. manifest_load s dir = Inr m"
    using assms by (auto simp: manifest_load_def Let_def std_read_def split: option.split)
  then obtain m where m: "manifest_load s dir = Inr m" by blast
  obtain q where q: "classify_graph s dir ctx GRAPH
      \<lparr>gp_writes = [], gp_removes = [], gp_conflicts = [], gp_reclaimed = [], gp_manifest = m\<rparr> = Inr q"
    using classify_graph_total[OF assms] by blast
  from classify_dropins_total[OF assms] m q show ?thesis by (simp add: plan_generate_def)
qed

section \<open>Names\<close>

text \<open>
  C28: escaping a string for a unit name loses nothing. The escaped form uses only characters systemd
  allows, never begins with a dot when it starts a name, and unescapes to the original, so two
  different compositor identifiers can never share a unit.
\<close>

theorem escape_roundtrip:
  "unescape (simple_systemd_escape s start) = s \<and>
   (\<forall>c\<in>set (simple_systemd_escape s start). is_allowed c \<or> c = CHR ''-'' \<or> c = BSL) \<and>
   \<not> starts_with ''.'' (simple_systemd_escape s True)"
  using unescape_escape escaped_chars escape_no_leading_dot by blast

theorem escape_roundtrip_witness:
  "unescape (simple_systemd_escape ''my-comp.desktop'' True) = ''my-comp.desktop''"
  using escape_roundtrip[of "''my-comp.desktop''" True] by blast

text \<open>
  C29: cutting an escaped name to a length limit never splits an escape token: the result is the
  escaped form of a prefix of the original string, it fits, and no longer prefix would.
\<close>

theorem truncate_keeps_tokens:
  "\<exists>n\<le>length s.
     truncate_escaped (simple_systemd_escape s start) mx = simple_systemd_escape (take n s) start \<and>
     length (simple_systemd_escape (take n s) start) \<le> mx \<and>
     (n = length s \<or> mx < length (simple_systemd_escape (take (Suc n) s) start))"
  by (rule truncate_escape)

text \<open>
  C30: generated unit names fit systemd's limit of 255 bytes, whatever the desktop and application
  are called.
\<close>

theorem unit_name_fits:
  assumes "unit_type = ''scope'' \<or> unit_type = ''service''" "length hex = 8"
  shows "length (auto_unit_name unit_type desktop app_name hex) \<le> 255"
  by (rule auto_unit_name_bound[OF assms])

theorem unit_name_fits_witness:
  "length (auto_unit_name ''scope'' ''sway'' (replicate 300 (CHR '' '')) ''deadbeef'') \<le> 255"
  by (rule unit_name_fits) simp_all


section \<open>The manifest\<close>

text \<open>
  C26: the ownership manifest survives its text form: every manifest whose names have no line break is
  read back unchanged, so every fingerprint comparison after a restart gives the answer it would have
  given before.
\<close>

theorem manifest_roundtrip:
  assumes "manifest_ok m"
  shows "manifest_parse (manifest_render m) = m"
  by (rule manifest_parse_render[OF assms])

definition demo_manifest :: manifest where
  "demo_manifest = \<lparr>mf_entries = [(''a b.target'', 0xFFFFFFFFFFFFFFFF), (''x.service'', fingerprint ''x'')]\<rparr>"

theorem manifest_roundtrip_witness:
  "manifest_parse (manifest_render demo_manifest) = demo_manifest"
proof (rule manifest_roundtrip)
  have "bm_wf (mf_entries demo_manifest)" "\<forall>e\<in>set (mf_entries demo_manifest). relname_ok (fst e)"
    by (simp_all add: demo_manifest_def bm_wf_def relname_ok_def less_list_code)
  then show "manifest_ok demo_manifest" by (simp add: manifest_ok_def)
qed

section \<open>Plans\<close>

text \<open>
  C10: generation never plans to touch what is not ours. A plan removes only files whose content the
  manifest proves to be ours; it overwrites a file with other content only if the manifest proves the
  same of it, or if reclaiming was requested and the path is a drop-in, in which case it is reported
  as reclaimed; a unit of the static graph is never reclaimed.
\<close>

theorem plan_generate_respects_foreign:
  assumes "plan_generate s dir ctx d tweaks reclaim = Inr p"
  shows "\<exists>m. manifest_load s dir = Inr m \<and>
    (\<forall>r\<in>set (gp_removes p). ours m s dir (pr_relname r)) \<and>
    (\<forall>w\<in>set (gp_writes p). foreign m s dir (pw_relname w) \<longrightarrow> pw_relname w \<in> set (gp_reclaimed p)) \<and>
    (\<forall>r\<in>set (gp_reclaimed p). reclaim \<and> r \<notin> ut_name ` set GRAPH)"
proof -
  obtain m where m: "manifest_load s dir = Inr m" and ps: "plan_sound s dir m reclaim p"
    and rc: "set (gp_reclaimed p) \<subseteq> fst ` set (wanted_dropins ctx d tweaks)"
    by (rule plan_generate_ok[OF assms])
  have "r \<notin> ut_name ` set GRAPH" if "r \<in> set (gp_reclaimed p)" for r
    using rc that graph_not_dropin[of _ ctx d tweaks] by blast
  with m ps show ?thesis unfolding plan_sound_def by blast
qed

definition demo_ctx :: render_ctx where
  "demo_ctx = \<lparr>rc_bin_name = ''wsmr'', rc_bin_path = ''/usr/bin/wsmr'', rc_waitpid_bin = ''waitpid''\<rparr>"

definition demo_dropin :: dropin_input where
  "demo_dropin = \<lparr>di_id = ''sway'', di_id_unit_string = ''sway'', di_bin_path = ''/usr/bin/wsmr'',
     di_bin_name = ''sway'', di_name = None, di_description = None, di_desktop_names = [''sway''],
     di_cli_desktop_names = [], di_cli_desktop_names_exclusive = False, di_cmdline = [''sway''],
     di_cli_args = [''--debug'']\<rparr>"

lemma ref_readable: "fs_rfail ref_fs = (\<lambda>_. None)"
  by (simp add: ref_fs_def)

theorem plan_generate_respects_foreign_witness:
  "\<exists>p m. plan_generate ref_fs ''/run/systemd/user'' demo_ctx demo_dropin True False = Inr p \<and>
     manifest_load ref_fs ''/run/systemd/user'' = Inr m \<and> gp_reclaimed p = []"
proof -
  obtain p where p: "plan_generate ref_fs ''/run/systemd/user'' demo_ctx demo_dropin True False = Inr p"
    using plan_generate_total[OF ref_readable] by blast
  from plan_generate_respects_foreign[OF p] have "\<exists>m. manifest_load ref_fs ''/run/systemd/user'' = Inr m"
    "\<forall>r\<in>set (gp_reclaimed p). False" by auto
  with p show ?thesis by (auto simp: ex_in_conv[symmetric])
qed

text \<open>
  C21: a generation plan is complete. Every unit of the graph and every drop-in that is wanted is
  already on disk, or planned to be written, or reported as a conflict; every file of ours that is no
  longer wanted is planned to be removed.
\<close>

theorem plan_generate_complete:
  assumes "plan_generate s dir ctx d tweaks reclaim = Inr p"
  shows "(\<forall>u\<in>set GRAPH. settled s dir p (ut_name u) (Some (render (ut_body u) ctx))) \<and>
    (\<forall>t\<in>set TWEAKS. settled s dir p (ut_name t)
       (if tweaks then Some (render (ut_body t) ctx) else None)) \<and>
    settled s dir p (preloader_name d) (preloader_dropin d) \<and>
    settled s dir p (service_name d) (service_dropin d)"
proof -
  have "\<forall>u\<in>set GRAPH. settled s dir p (ut_name u) (Some (render (ut_body u) ctx))"
    and w: "\<forall>x\<in>set (wanted_dropins ctx d tweaks). settled s dir p (fst x) (snd x)"
    by (rule plan_generate_ok[OF assms], assumption)+
  then show ?thesis by (simp add: wanted_dropins_def)
qed

theorem plan_generate_complete_witness:
  "\<exists>p. plan_generate ref_fs ''/run/systemd/user'' demo_ctx demo_dropin True False = Inr p \<and>
     settled ref_fs ''/run/systemd/user'' p (service_name demo_dropin) (service_dropin demo_dropin)"
proof -
  obtain p where p: "plan_generate ref_fs ''/run/systemd/user'' demo_ctx demo_dropin True False = Inr p"
    using plan_generate_total[OF ref_readable] by blast
  with plan_generate_complete[OF p] show ?thesis by blast
qed

text \<open>
  C22: removal removes only what is provably ours. Every planned removal is a tracked drop-in or
  tweak selected by the marks whose file is gone or still carries the recorded fingerprint; a tracked
  file that was edited is skipped instead; no unit of the static graph is ever removed.
\<close>

theorem plan_remove_all_ours:
  assumes "plan_remove_all s dir marks = Inr p"
  shows "\<exists>m. manifest_load s dir = Inr m \<and>
    removal_names p = {n \<in> set (manifest_tracked m). is_removable_dropin n \<and> mark_selected marks n \<and>
      (ours m s dir n \<or> on_disk s dir n = None)} \<and>
    skipped_names p = {n \<in> set (manifest_tracked m). is_removable_dropin n \<and> mark_selected marks n \<and>
      foreign m s dir n} \<and>
    removal_names p \<inter> ut_name ` set GRAPH = {}"
proof -
  obtain m where m: "manifest_load s dir = Inr m"
    "removal_names p = {n \<in> set (manifest_tracked m). is_removable_dropin n \<and> mark_selected marks n \<and>
      (ours m s dir n \<or> on_disk s dir n = None)}"
    "skipped_names p = {n \<in> set (manifest_tracked m). is_removable_dropin n \<and> mark_selected marks n \<and>
      foreign m s dir n}"
    by (rule plan_remove_all_ok[OF assms])
  moreover have "removal_names p \<inter> ut_name ` set GRAPH = {}"
    using m(2) graph_not_removable by auto
  ultimately show ?thesis by blast
qed

lemma plan_removals_total:
  "fs_rfail s = (\<lambda>_. None) \<Longrightarrow> \<exists>q. plan_removals s dir ns p = Inr q"
  by (induction ns arbitrary: p) (simp_all add: Let_def std_read_def split: option.split)

text \<open>A directory with a tracked drop-in of ours and a tracked unit of the graph.\<close>

definition demo_tracked :: manifest where
  "demo_tracked = \<lparr>mf_entries =
     [(''wayland-wm@.service'', fingerprint ''W''),
      (''wayland-wm@a.service.d/50_custom.conf'', fingerprint ''A'')]\<rparr>"

definition demo_units :: fs where
  "demo_units = ref_fs\<lparr>
     fs_files := [(''/u/.wsmr-generation'', manifest_render demo_tracked),
       (''/u/wayland-wm@a.service.d/50_custom.conf'', ''A''), (''/u/wayland-wm@.service'', ''W'')],
     fs_dirs := [''/u/wayland-wm@a.service.d'', ''/u'', ''/'']\<rparr>"

lemma demo_tracked_ok: "manifest_ok demo_tracked"
proof -
  have "bs_wf [''wayland-wm@.service'', ''wayland-wm@a.service.d/50_custom.conf'']" by code_simp
  then have "bm_wf (mf_entries demo_tracked)" by (simp add: bm_wf_def bs_wf_def demo_tracked_def)
  then show ?thesis by (simp add: manifest_ok_def demo_tracked_def relname_ok_def)
qed

lemma demo_load: "manifest_load demo_units ''/u'' = Inr demo_tracked"
proof -
  have "path_join ''/u'' MANIFEST_NAME = ''/u/.wsmr-generation''" by code_simp
  moreover have "std_read demo_units ''/u/.wsmr-generation'' = Inr (manifest_render demo_tracked)"
    by (simp add: demo_units_def std_read_def ref_fs_def file_at_def)
  ultimately show ?thesis
    using manifest_parse_render[OF demo_tracked_ok] by (simp add: manifest_load_def Let_def)
qed

theorem plan_remove_all_ours_witness:
  "\<exists>p. plan_remove_all demo_units ''/u'' None = Inr p \<and>
     ''wayland-wm@a.service.d/50_custom.conf'' \<in> removal_names p \<and>
     ''wayland-wm@.service'' \<in> set (manifest_tracked demo_tracked) - removal_names p"
proof -
  have "fs_rfail demo_units = (\<lambda>_. None)" by (simp add: demo_units_def ref_fs_def)
  from plan_removals_total[OF this] have "\<exists>p. plan_remove_all demo_units ''/u'' None = Inr p"
    by (simp add: plan_remove_all_def demo_load)
  then obtain p where p: "plan_remove_all demo_units ''/u'' None = Inr p" by blast
  have n: "is_removable_dropin ''wayland-wm@a.service.d/50_custom.conf''"
    "\<not> is_removable_dropin ''wayland-wm@.service''"
    "path_join ''/u'' ''wayland-wm@a.service.d/50_custom.conf'' = ''/u/wayland-wm@a.service.d/50_custom.conf''"
    by code_simp+
  have "ours demo_tracked demo_units ''/u'' ''wayland-wm@a.service.d/50_custom.conf''"
    using n(3) by (simp add: ours_def on_disk_def std_read_def file_at_def demo_units_def ref_fs_def
        manifest_verify_def demo_tracked_def bm_get_def)
  with plan_remove_all_ours[OF p] demo_load p n show ?thesis
    by (auto simp: mark_selected_def manifest_tracked_def bm_keys_def demo_tracked_def)
qed

section \<open>Application\<close>

text \<open>
  C12: a successful generation did what the plan says and nothing else. Every planned file has its
  planned content, every planned removal is gone, every other file but the manifest is untouched, the
  reported lists are the planned ones, and the manifest on disk records exactly the writes and
  forgets the removals. A plan with conflicts never succeeds.
\<close>

theorem apply_generate_exact:
  assumes "distinct (plan_targets dir plan)" "\<forall>p\<in>set (plan_targets dir plan). \<not> is_temp p"
    "manifest_path dir \<notin> set (plan_targets dir plan)" "honest s"
    "apply_generate dir plan s = (Inr out, s')"
  shows "gp_conflicts plan = [] \<and> all_new dir plan s' \<and>
    go_written out = map pw_relname (gp_writes plan) \<and>
    go_removed out = map pr_relname (gp_removes plan) \<and>
    (go_changed out \<longleftrightarrow> \<not> gp_is_empty plan) \<and>
    (\<forall>q. \<not> is_temp q \<longrightarrow> q \<notin> set (plan_targets dir plan) \<longrightarrow> q \<noteq> manifest_path dir \<longrightarrow>
       file_at s' q = file_at s q) \<and>
    (\<not> gp_is_empty plan \<longrightarrow> file_at s' (manifest_path dir) =
       Some (manifest_render
         (forget_all (gp_removes plan) (record_all (gp_writes plan) (gp_manifest plan)))))"
  by (rule apply_generate_ok[OF assms])

definition demo_plan :: generation_plan where
  "demo_plan = \<lparr>gp_writes = [\<lparr>pw_relname = ''a.target'', pw_content = ''new''\<rparr>],
     gp_removes = [\<lparr>pr_relname = ''b.d/50_custom.conf''\<rparr>], gp_conflicts = [], gp_reclaimed = [],
     gp_manifest = \<lparr>mf_entries = []\<rparr>\<rparr>"

definition demo_disk :: fs where
  "demo_disk = ref_fs\<lparr>
     fs_files := [(''/u/a.target'', ''old''), (''/u/b.d/50_custom.conf'', ''B''), (''/u/c'', ''C'')],
     fs_dirs := [''/u/b.d'', ''/u'', ''/'']\<rparr>"

lemma demo_plan_layout:
  "distinct (plan_targets ''/u'' demo_plan)" "list_all (\<lambda>p. \<not> is_temp p) (plan_targets ''/u'' demo_plan)"
  "manifest_path ''/u'' \<notin> set (plan_targets ''/u'' demo_plan)"
  by code_simp+

lemma demo_batch_ok: "is_ok (fst (batch_of ''/u'' demo_plan demo_disk))"
  by code_simp

lemma demo_save_ok:
  "is_ok (fst (atomic_write ''/u'' MANIFEST_NAME c (snd (batch_of ''/u'' demo_plan demo_disk))))"
  by code_simp

lemma demo_apply: "\<exists>out s'. apply_generate ''/u'' demo_plan demo_disk = (Inr out, s')"
proof -
  obtain b s1 where b: "batch_of ''/u'' demo_plan demo_disk = (Inr b, s1)"
    using demo_batch_ok by (metis is_ok_iff prod.collapse)
  have "is_ok (fst (manifest_save (ba_manifest b) ''/u'' s1))"
    using demo_save_ok b by (simp add: manifest_save_def)
  then obtain u s2 where m: "manifest_save (ba_manifest b) ''/u'' s1 = (Inr u, s2)"
    by (metis is_ok_iff prod.collapse)
  have "gp_conflicts demo_plan = []" by (simp add: demo_plan_def)
  with b m show ?thesis
    by (cases "go_changed (ba_out b)") (simp_all add: apply_generate_batch io_bind_Inr)
qed

lemma demo_disk_honest: "honest demo_disk"
  by (simp add: honest_def demo_disk_def ref_fs_def)

theorem apply_generate_exact_witness:
  "\<exists>out s'. apply_generate ''/u'' demo_plan demo_disk = (Inr out, s') \<and>
     file_at s' ''/u/a.target'' = Some ''new'' \<and> file_at s' ''/u/b.d/50_custom.conf'' = None \<and>
     file_at s' ''/u/c'' = Some ''C''"
proof -
  obtain out s' where a: "apply_generate ''/u'' demo_plan demo_disk = (Inr out, s')"
    using demo_apply by blast
  have t: "\<forall>p\<in>set (plan_targets ''/u'' demo_plan). \<not> is_temp p"
    using demo_plan_layout(2) by (simp add: list_all_iff)
  have n: "target ''/u'' ''a.target'' = ''/u/a.target''"
    "target ''/u'' ''b.d/50_custom.conf'' = ''/u/b.d/50_custom.conf''" "\<not> is_temp ''/u/c''"
    "''/u/c'' \<notin> set (plan_targets ''/u'' demo_plan)" "''/u/c'' \<noteq> manifest_path ''/u''"
    "file_at demo_disk ''/u/c'' = Some ''C''"
    by code_simp+
  from apply_generate_exact[OF demo_plan_layout(1) t demo_plan_layout(3) demo_disk_honest a] n
  have "all_new ''/u'' demo_plan s'" "file_at s' ''/u/c'' = Some ''C''" by auto
  with a n(1,2) show ?thesis by (simp add: all_new_def demo_plan_def)
qed

text \<open>
  C3: generation is all or nothing. On a disk whose targets are writable, if at most one system call
  of the whole run fails, then whatever is reported, the planned files end up either all as they were
  before or all as planned, never mixed.
\<close>

theorem apply_generate_all_or_nothing:
  assumes "layout (set (plan_targets dir plan))" "distinct (plan_targets dir plan)"
    "manifest_path dir \<notin> set (plan_targets dir plan)" "ready (set (plan_targets dir plan)) s"
    "\<forall>p\<in>set (plan_targets dir plan). fs_rfail s p = None" "honest s" "one_fault s"
    "apply_generate dir plan s = (r, s')"
  shows "(\<forall>p\<in>set (plan_targets dir plan). file_at s' p = file_at s p) \<or> all_new dir plan s'"
  by (rule apply_generate_atomic[OF assms])

text \<open>A disk on which the removal, the sixth call, fails.\<close>

definition faulty_disk :: fs where
  "faulty_disk = demo_disk\<lparr>fs_faults := (\<lambda>n. if n = 5 then Some (IoOs 13, 0) else None)\<rparr>"

lemma faulty_result: "\<not> is_ok (fst (batch_of ''/u'' demo_plan faulty_disk))"
  by code_simp

lemma faulty_layout: "layout (set (plan_targets ''/u'' demo_plan))"
proof -
  have p: "plan_targets ''/u'' demo_plan = [''/u/a.target'', ''/u/b.d/50_custom.conf'']" by code_simp
  have a: "path_parent ''/u/a.target'' = Some ''/u''" "path_parent ''/u/b.d/50_custom.conf'' = Some ''/u/b.d''"
    "path_ancestors ''/u/a.target'' = [''/u'', ''/'']"
    "path_ancestors ''/u/b.d/50_custom.conf'' = [''/u/b.d'', ''/u'', ''/'']"
    "\<not> is_temp ''/u''" "\<not> is_temp ''/''" "\<not> is_temp ''/u/b.d''"
    "\<not> is_temp ''/u/a.target''" "\<not> is_temp ''/u/b.d/50_custom.conf''"
    by code_simp+
  show ?thesis by (simp add: layout_def p a)
qed

lemma faulty_ready: "ready (set (plan_targets ''/u'' demo_plan)) faulty_disk"
proof -
  have p: "plan_targets ''/u'' demo_plan = [''/u/a.target'', ''/u/b.d/50_custom.conf'']" by code_simp
  have a: "path_ancestors ''/u/a.target'' = [''/u'', ''/'']"
    "path_ancestors ''/u/b.d/50_custom.conf'' = [''/u/b.d'', ''/u'', ''/'']"
    "\<not> is_temp ''/u''" "\<not> is_temp ''/''" "\<not> is_temp ''/u/b.d''"
    by code_simp+
  show ?thesis
    using a(3-5) by (auto simp: ready_def p a is_dir_def file_at_def faulty_disk_def demo_disk_def)
qed

theorem apply_generate_all_or_nothing_witness:
  "\<exists>e s'. apply_generate ''/u'' demo_plan faulty_disk = (Inl e, s') \<and>
     (\<forall>p\<in>set (plan_targets ''/u'' demo_plan). file_at s' p = file_at faulty_disk p) \<or>
   all_new ''/u'' demo_plan (snd (apply_generate ''/u'' demo_plan faulty_disk))"
proof -
  obtain e s' where b: "batch_of ''/u'' demo_plan faulty_disk = (Inl e, s')"
    using faulty_result by (metis is_ok_iff prod.collapse sum.exhaust)
  have "gp_conflicts demo_plan = []" by (simp add: demo_plan_def)
  with b have a: "apply_generate ''/u'' demo_plan faulty_disk = (Inl e, s')"
    by (simp add: apply_generate_batch io_bind_Inl)
  have "honest faulty_disk" "one_fault faulty_disk"
    "\<forall>p\<in>set (plan_targets ''/u'' demo_plan). fs_rfail faulty_disk p = None"
    by (auto simp: honest_def one_fault_def faulty_disk_def demo_disk_def ref_fs_def split: if_splits)
  with apply_generate_all_or_nothing[OF faulty_layout demo_plan_layout(1,3) faulty_ready _ _ _ a] a
  show ?thesis by auto
qed

end
