(* ===== verification/Regen.thy ===== *)
theory Regen
  imports UnitProps
begin

text \<open>
  Generation reaches a fixed point: planning again over the directory that a successful generation
  left finds nothing to do. This composes the planner (src/units/plan.rs), the manifest's text form
  (src/units/manifest.rs) and the application of a plan (src/units/generate.rs).
\<close>

section \<open>The files a generation is about\<close>

definition wanted_files :: "render_ctx \<Rightarrow> dropin_input \<Rightarrow> bool \<Rightarrow> (string \<times> string option) list" where
  "wanted_files ctx d tw =
     map (\<lambda>u. (ut_name u, Some (render (ut_body u) ctx))) GRAPH @ wanted_dropins ctx d tw"

lemma wanted_names:
  "map fst (wanted_files ctx d tw) =
     map ut_name GRAPH @ map ut_name TWEAKS @ [preloader_name d, service_name d]"
  by (simp add: wanted_files_def wanted_dropins_def comp_def)

definition custom_dropin :: "string \<Rightarrow> bool" where
  "custom_dropin r \<longleftrightarrow> ends_with ''/50_custom.conf'' r"

lemma custom_names: "custom_dropin (preloader_name d)" "custom_dropin (service_name d)"
  unfolding custom_dropin_def preloader_name_def service_name_def ends_with_iff
  by (rule exI[where x = "''wayland-wm-env@'' @ di_id_unit_string d @ ''.service.d''"], simp)
     (rule exI[where x = "''wayland-wm@'' @ di_id_unit_string d @ ''.service.d''"], simp)

lemma static_not_custom: "list_all (\<lambda>r. \<not> custom_dropin r) (map ut_name GRAPH @ map ut_name TWEAKS)"
  by code_simp

lemma wanted_distinct: "distinct (map fst (wanted_files ctx d tw))"
proof -
  have "preloader_name d \<noteq> service_name d"
    by (simp add: preloader_name_def service_name_def)
  moreover have "preloader_name d \<notin> set (map ut_name GRAPH @ map ut_name TWEAKS)"
    "service_name d \<notin> set (map ut_name GRAPH @ map ut_name TWEAKS)"
    using static_not_custom custom_names[of d] by (auto simp: list_all_iff)
  ultimately show ?thesis
    using graph_names_distinct unfolding wanted_names append_assoc[symmetric]
    by (simp del: set_append map_append append_assoc)
qed

text \<open>Where the files are: below the directory, never a temporary file nor the manifest.\<close>

lemma path_join_inj:
  "hd r \<noteq> SLASH \<Longrightarrow> hd r' \<noteq> SLASH \<Longrightarrow> path_join dir r = path_join dir r' \<Longrightarrow> r = r'"
  by (auto simp: path_join_def split: if_splits)

lemma path_join_below: "a \<noteq> [] \<Longrightarrow> \<exists>x. path_join dir (a @ SLASH # n) = x @ SLASH # n"
  by (auto simp: path_join_def)

lemma path_file_name_below:
  assumes "plain_name n"
  shows "path_file_name (x @ SLASH # n) = Some n"
proof -
  have "drop_trailing SLASH (x @ SLASH # n) = x @ SLASH # n"
    using plain_name_last[OF assms, of SLASH] by (intro drop_trailing_id) simp
  with assms show ?thesis
    by (simp add: path_file_name_def last_component_append plain_name_def)
qed

definition unit_file :: "string \<Rightarrow> bool" where
  "unit_file r \<longleftrightarrow> hd r \<noteq> SLASH \<and> r \<noteq> MANIFEST_NAME \<and> plain_name (last_component r) \<and>
     \<not> starts_with ''.'' (last_component r)"

lemma unit_file_name:
  assumes "unit_file r"
  shows "path_file_name (path_join dir r) = Some (last_component r)"
proof -
  let ?n = "last_component r"
  have n: "plain_name ?n" "hd r \<noteq> SLASH" using assms by (simp_all add: unit_file_def)
  show ?thesis
  proof (cases "SLASH \<in> set r")
    case False
    with path_file_name_join[of r dir] n(1) show ?thesis by (simp add: last_component_id)
  next
    case True
    then obtain a m where r: "r = a @ SLASH # m" and m: "SLASH \<notin> set m" using split_list_last by fastforce
    then have "a \<noteq> []" "?n = m" using n(2) by (auto simp: last_component_append)
    with r path_join_below[of a dir m] path_file_name_below n(1) show ?thesis by metis
  qed
qed

lemma unit_file_not_temp: "unit_file r \<Longrightarrow> \<not> is_temp (path_join dir r)"
  using unit_file_name[of r dir] by (simp add: is_temp_def unit_file_def)

lemma static_unit_file: "list_all (\<lambda>u. unit_file (ut_name u)) (GRAPH @ TWEAKS)"
  by code_simp

lemma dropin_unit_file: "unit_file (preloader_name d)" "unit_file (service_name d)"
proof -
  have n: "plain_name ''50_custom.conf''" "\<not> starts_with ''.'' ''50_custom.conf''" by code_simp+
  have l: "last_component (a @ SLASH # ''50_custom.conf'') = ''50_custom.conf''" for a
    by (rule last_component_append) simp
  have "last_component (preloader_name d) = ''50_custom.conf''"
    "last_component (service_name d) = ''50_custom.conf''"
    using l[of "''wayland-wm-env@'' @ di_id_unit_string d @ ''.service.d''"]
      l[of "''wayland-wm@'' @ di_id_unit_string d @ ''.service.d''"]
    by (simp_all add: preloader_name_def service_name_def)
  moreover have "hd (preloader_name d) \<noteq> SLASH \<and> preloader_name d \<noteq> MANIFEST_NAME"
    "hd (service_name d) \<noteq> SLASH \<and> service_name d \<noteq> MANIFEST_NAME"
    by (simp_all add: preloader_name_def service_name_def MANIFEST_NAME_def)
  ultimately show "unit_file (preloader_name d)" "unit_file (service_name d)"
    unfolding unit_file_def using n by simp_all
qed

lemma wanted_unit_file: "x \<in> set (wanted_files ctx d tw) \<Longrightarrow> unit_file (fst x)"
  using static_unit_file dropin_unit_file
  by (auto simp: wanted_files_def wanted_dropins_def list_all_iff)

section \<open>Planning what is already there\<close>

text \<open>A file that needs nothing: it has its wanted content, or it is not wanted and absent or not ours.\<close>

definition at_rest :: "fs \<Rightarrow> string \<Rightarrow> manifest \<Rightarrow> string \<times> string option \<Rightarrow> bool" where
  "at_rest s dir m x \<longleftrightarrow>
     (case snd x of
        Some c \<Rightarrow> std_read s (path_join dir (fst x)) = Inr c
      | None \<Rightarrow>
          std_read s (path_join dir (fst x)) = Inl IoNotFound \<or>
          (\<exists>old. std_read s (path_join dir (fst x)) = Inr old \<and> \<not> manifest_verify m (fst x) old))"

definition empty_plan :: "manifest \<Rightarrow> generation_plan" where
  "empty_plan m =
     \<lparr>gp_writes = [], gp_removes = [], gp_conflicts = [], gp_reclaimed = [], gp_manifest = m\<rparr>"

lemma classify_graph_rest:
  "\<forall>u\<in>set us. at_rest s dir m (ut_name u, Some (render (ut_body u) ctx)) \<Longrightarrow>
   classify_graph s dir ctx us p = Inr p"
  by (induction us) (auto simp: at_rest_def classify_write_def Let_def)

lemma classify_dropins_rest:
  "\<forall>x\<in>set ds. at_rest s dir (gp_manifest p) x \<Longrightarrow> classify_dropins s dir rc ds p = Inr p"
proof (induction ds)
  case (Cons d ds)
  obtain r wanted where d: "d = (r, wanted)" by (cases d)
  have "at_rest s dir (gp_manifest p) (r, wanted)" using Cons.prems d by simp
  then have "classify_dropin s dir r wanted rc p = Inr p"
    by (cases wanted) (auto simp: at_rest_def classify_dropin_def Let_def)
  with Cons d show ?case by simp
qed simp

lemma plan_generate_rest:
  assumes "manifest_load s dir = Inr m" "\<forall>x\<in>set (wanted_files ctx d tw). at_rest s dir m x"
  shows "plan_generate s dir ctx d tw rc = Inr (empty_plan m)"
proof -
  have "classify_graph s dir ctx GRAPH (empty_plan m) = Inr (empty_plan m)"
    by (rule classify_graph_rest[of _ s dir m]) (use assms(2) in \<open>auto simp: wanted_files_def\<close>)
  moreover have "classify_dropins s dir rc (wanted_dropins ctx d tw) (empty_plan m) = Inr (empty_plan m)"
    by (rule classify_dropins_rest) (use assms(2) in \<open>auto simp: wanted_files_def empty_plan_def\<close>)
  ultimately show ?thesis using assms(1) by (simp add: plan_generate_def empty_plan_def)
qed

section \<open>A plan only has wanted files, each once\<close>

definition touched :: "generation_plan \<Rightarrow> string list" where
  "touched p = map pw_relname (gp_writes p) @ map pr_relname (gp_removes p)"

definition within :: "(string \<times> string option) set \<Rightarrow> generation_plan \<Rightarrow> bool" where
  "within A p \<longleftrightarrow>
     (\<forall>w\<in>set (gp_writes p). (pw_relname w, Some (pw_content w)) \<in> A) \<and>
     (\<forall>r\<in>set (gp_removes p). (pr_relname r, None) \<in> A) \<and> distinct (touched p)"

lemma within_mono: "within A p \<Longrightarrow> A \<subseteq> B \<Longrightarrow> within B p"
  by (auto simp: within_def)

lemma within_fresh: "within A p \<Longrightarrow> r \<notin> fst ` A \<Longrightarrow> r \<notin> set (touched p)"
  unfolding within_def touched_def by (auto dest: bspec intro: rev_image_eqI)

lemma within_ops:
  assumes "within A p" "r \<notin> fst ` A"
  shows "within (insert (r, Some c) A) (plan_write r c p)" "within (insert (r, None) A) (plan_remove r p)"
    "within (insert (r, w) A) (plan_conflict r y p)" "within (insert (r, w) A) p"
    "within A (plan_reclaim r p)"
  using assms within_fresh[OF assms] by (auto simp: within_def touched_def plan_ops)

lemma classify_write_within:
  assumes "classify_write s dir r c p = Inr q" "within A p" "r \<notin> fst ` A"
  shows "within (insert (r, Some c) A) q"
  using assms(1) within_ops[OF assms(2,3)]
  by (auto simp: classify_write_def Let_def split: sum.splits if_splits)

lemma classify_dropin_within:
  assumes "classify_dropin s dir r wanted rc p = Inr q" "within A p" "r \<notin> fst ` A"
  shows "within (insert (r, wanted) A) q"
  using assms(1) within_ops[OF assms(2,3)] within_ops(1)[OF within_ops(5)[OF assms(2,3)] assms(3)]
  by (cases wanted)
    (auto simp: classify_dropin_def Let_def split: sum.splits if_splits)

lemma classify_graph_within:
  assumes "classify_graph s dir ctx us p = Inr q" "within A p"
    "distinct (map ut_name us)" "\<forall>u\<in>set us. ut_name u \<notin> fst ` A"
  shows "within (A \<union> set (map (\<lambda>u. (ut_name u, Some (render (ut_body u) ctx))) us)) q"
  using assms
proof (induction us arbitrary: p A)
  case (Cons u us)
  let ?x = "(ut_name u, Some (render (ut_body u) ctx))"
  from Cons.prems(1) obtain p1 where
    a: "classify_write s dir (ut_name u) (render (ut_body u) ctx) p = Inr p1"
    and b: "classify_graph s dir ctx us p1 = Inr q"
    by (auto simp: rbind_Inr_iff)
  have w: "within (insert ?x A) p1" using classify_write_within[OF a Cons.prems(2)] Cons.prems(4) by simp
  have "ut_name v \<notin> fst ` insert ?x A" if v: "v \<in> set us" for v
  proof -
    have "ut_name v \<noteq> ut_name u"
      using Cons.prems(3) imageI[OF v, of ut_name] by (metis distinct.simps(2) list.set_map list.simps(9))
    moreover have "ut_name v \<notin> fst ` A" using Cons.prems(4) v by simp
    ultimately show ?thesis by simp
  qed
  then have "\<forall>v\<in>set us. ut_name v \<notin> fst ` insert ?x A" by blast
  from Cons.IH[OF b w _ this] Cons.prems(3) show ?case by simp
qed simp

lemma classify_dropins_within:
  assumes "classify_dropins s dir rc ds p = Inr q" "within A p"
    "distinct (map fst ds)" "\<forall>x\<in>set ds. fst x \<notin> fst ` A"
  shows "within (A \<union> set ds) q"
  using assms
proof (induction ds arbitrary: p A)
  case (Cons x ds)
  obtain r wanted where x: "x = (r, wanted)" by (cases x)
  from Cons.prems(1) x obtain p1 where a: "classify_dropin s dir r wanted rc p = Inr p1"
    and b: "classify_dropins s dir rc ds p1 = Inr q"
    by (auto simp: rbind_Inr_iff)
  have w: "within (insert x A) p1" using classify_dropin_within[OF a Cons.prems(2)] Cons.prems(4) x by simp
  have "fst y \<notin> fst ` insert x A" if y: "y \<in> set ds" for y
  proof -
    have "fst y \<noteq> fst x" using Cons.prems(3) imageI[OF y, of fst] by (metis distinct.simps(2) list.set_map list.simps(9))
    moreover have "fst y \<notin> fst ` A" using Cons.prems(4) y by simp
    ultimately show ?thesis by simp
  qed
  then have "\<forall>y\<in>set ds. fst y \<notin> fst ` insert x A" by blast
  from Cons.IH[OF b w _ this] Cons.prems(3) show ?case by simp
qed simp

lemma plan_generate_within:
  assumes "plan_generate s dir ctx d tw rc = Inr p"
  shows "within (set (wanted_files ctx d tw)) p"
proof -
  let ?G = "map (\<lambda>u. (ut_name u, Some (render (ut_body u) ctx))) GRAPH"
  from assms obtain m p1 where g: "classify_graph s dir ctx GRAPH (empty_plan m) = Inr p1"
    and dr: "classify_dropins s dir rc (wanted_dropins ctx d tw) p1 = Inr p"
    unfolding plan_generate_def rbind_Inr_iff empty_plan_def by blast
  have dist: "distinct (map ut_name GRAPH @ map fst (wanted_dropins ctx d tw))"
    using wanted_distinct[of ctx d tw] by (simp add: wanted_files_def comp_def)
  have "within {} (empty_plan m)" by (simp add: within_def empty_plan_def touched_def)
  from classify_graph_within[OF g this] dist have w: "within (set ?G) p1" by simp
  have "\<forall>x\<in>set (wanted_dropins ctx d tw). fst x \<notin> fst ` set ?G" using dist by (auto simp: image_iff)
  from classify_dropins_within[OF dr w _ this] dist show ?thesis by (simp add: wanted_files_def)
qed

section \<open>After a generation\<close>

lemma target_of_unit_file:
  assumes "unit_file r" "unit_file r'" "target dir r = target dir r'"
  shows "r = r'"
  using assms path_join_inj[of r r' dir] by (simp add: unit_file_def target_def)

lemma targets_touched: "plan_targets dir p = map (target dir) (touched p)"
  by (simp add: plan_targets_def touched_def comp_def)

lemma plan_layout:
  assumes "plan_generate s dir ctx d tw rc = Inr p"
  shows "distinct (plan_targets dir p)" "\<forall>q\<in>set (plan_targets dir p). \<not> is_temp q"
    "manifest_path dir \<notin> set (plan_targets dir p)" "set (touched p) \<subseteq> fst ` set (wanted_files ctx d tw)"
proof -
  note w = plan_generate_within[OF assms]
  note t = targets_touched[of dir p]
  show sub: "set (touched p) \<subseteq> fst ` set (wanted_files ctx d tw)"
    using within_fresh[OF w] by blast
  then have u: "unit_file r" if "r \<in> set (touched p)" for r
    using that wanted_unit_file by blast
  show "distinct (plan_targets dir p)"
    using w u target_of_unit_file by (auto simp: t distinct_map within_def intro!: inj_onI)
  show "\<forall>q\<in>set (plan_targets dir p). \<not> is_temp q"
    using u unit_file_not_temp by (auto simp: t target_def)
  have "hd MANIFEST_NAME \<noteq> SLASH" by code_simp
  then show "manifest_path dir \<notin> set (plan_targets dir p)"
    using u path_join_inj[of MANIFEST_NAME _ dir] by (fastforce simp: t target_def manifest_path_def unit_file_def)
qed

lemma apply_generate_rfail:
  assumes "plan_generate s0 dir ctx d tw rc = Inr p" "honest s" "apply_generate dir p s = (Inr out, s')"
  shows "fs_rfail s' = fs_rfail s"
proof -
  from assms(3) obtain b s1 u where b: "batch_of dir p s = (Inr b, s1)"
    and sv: "(if go_changed (ba_out b) then manifest_save (ba_manifest b) dir else io_return ()) s1 = (Inr u, s')"
    by (auto simp: apply_generate_batch io_bind_Inr_iff split: if_splits)
  from b obtain b1 s2 where
    a: "apply_writes dir (gp_writes p) (start_batch (gp_manifest p)) s = (Inr b1, s2)"
    and r: "apply_removes dir (gp_removes p) b1 s2 = (Inr b, s1)"
    by (auto simp: batch_of_def io_bind_Inr_iff)
  note l = plan_layout[OF assms(1)]
  have A: "writes_done dir (gp_writes p) (start_batch (gp_manifest p)) s b1 s2"
    by (rule apply_writes_ok[OF a]) (use l in \<open>auto simp: plan_targets_def\<close>)
  have "honest s2" using assms(2) A by (simp add: honest_def writes_done_def)
  from apply_removes_ok[OF r this] l have "removes_done dir (gp_removes p) b1 s2 b s1"
    by (auto simp: plan_targets_def)
  moreover have "fs_rfail s' = fs_rfail s1"
    using sv stableD[OF rfail_atomic_write] by (auto simp: manifest_save_def split: if_splits)
  ultimately show ?thesis using A by (simp add: writes_done_def removes_done_def)
qed

lemma manifest_wf [simp]:
  "bm_wf (mf_entries m) \<Longrightarrow> bm_wf (mf_entries (manifest_record r c m))"
  "bm_wf (mf_entries m) \<Longrightarrow> bm_wf (mf_entries (manifest_forget r m))"
  by (simp_all add: manifest_record_def manifest_forget_def)

lemma verify_record_all:
  "bm_wf (mf_entries m) \<Longrightarrow> r \<notin> pw_relname ` set ws \<Longrightarrow>
   manifest_verify (record_all ws m) r c = manifest_verify m r c"
  by (induction ws arbitrary: m) (simp_all add: manifest_verify_record)

lemma verify_forget_all:
  "bm_wf (mf_entries m) \<Longrightarrow> r \<notin> pr_relname ` set rs \<Longrightarrow>
   manifest_verify (forget_all rs m) r c = manifest_verify m r c"
  by (induction rs arbitrary: m) (simp_all add: manifest_verify_forget)

lemma manifest_ok_record_all:
  "manifest_ok m \<Longrightarrow> \<forall>w\<in>set ws. relname_ok (pw_relname w) \<Longrightarrow> manifest_ok (record_all ws m)"
  by (induction ws arbitrary: m) (simp_all add: manifest_ok_record)

lemma manifest_ok_forget_all: "manifest_ok m \<Longrightarrow> manifest_ok (forget_all rs m)"
  by (induction rs arbitrary: m) (simp_all add: manifest_ok_forget)

lemma wanted_relname_ok:
  assumes "NL \<notin> set (di_id_unit_string d)" "x \<in> set (wanted_files ctx d tw)"
  shows "relname_ok (fst x)"
proof -
  have s: "list_all (\<lambda>u. relname_ok (ut_name u)) (GRAPH @ TWEAKS)" by code_simp
  have "relname_ok (preloader_name d)" "relname_ok (service_name d)"
    using assms(1) by (simp_all add: relname_ok_def preloader_name_def service_name_def)
  with s assms(2) show ?thesis by (auto simp: wanted_files_def wanted_dropins_def list_all_iff)
qed

text \<open>What a successful generation leaves: the manifest it can load again agrees with the old one on
  every file that was not touched.\<close>

lemma manifest_after:
  assumes plan: "plan_generate s dir ctx d tw rc = Inr p" and run: "apply_generate dir p s = (Inr out, s')"
    and h: "honest s" and rf: "fs_rfail s = (\<lambda>_. None)"
    and m: "manifest_ok (gp_manifest p)" and nl: "NL \<notin> set (di_id_unit_string d)"
  obtains m' where "manifest_load s' dir = Inr m'"
    "\<And>r c. r \<notin> set (touched p) \<Longrightarrow> manifest_verify m' r c = manifest_verify (gp_manifest p) r c"
proof (cases "gp_is_empty p")
  case True
  have "manifest_load s dir = Inr (gp_manifest p)"
    by (rule plan_generate_ok[OF plan]) (simp add: plan_sound_def)
  moreover have "s' = s"
    using run True
    by (auto simp: apply_generate_batch batch_of_def gp_is_empty_def start_batch_def io_bind_def
        io_return_def io_fail_def split: if_splits)
  ultimately show ?thesis using that by blast
next
  case False
  let ?m = "forget_all (gp_removes p) (record_all (gp_writes p) (gp_manifest p))"
  note l = plan_layout[OF plan]
  have "relname_ok (pw_relname w)" if "w \<in> set (gp_writes p)" for w
  proof -
    have "pw_relname w \<in> set (touched p)" using that by (simp add: touched_def)
    with l(4) have "pw_relname w \<in> fst ` set (wanted_files ctx d tw)" by blast
    then show ?thesis using wanted_relname_ok[OF nl] by auto
  qed
  then have ok: "manifest_ok (record_all (gp_writes p) (gp_manifest p))" "manifest_ok ?m"
    using manifest_ok_record_all manifest_ok_forget_all m by simp_all
  have "fs_rfail s' = (\<lambda>_. None)" using apply_generate_rfail[OF plan h run] rf by simp
  moreover have "file_at s' (manifest_path dir) = Some (manifest_render ?m)"
    using apply_generate_ok[OF l(1-3) h run] False by blast
  ultimately have "manifest_load s' dir = Inr ?m"
    using manifest_parse_render[OF ok(2)] by (simp add: manifest_load_def std_read_def manifest_path_def)
  moreover have "manifest_verify ?m r c = manifest_verify (gp_manifest p) r c" if "r \<notin> set (touched p)" for r c
    using verify_forget_all verify_record_all ok(1) m that by (auto simp: touched_def manifest_ok_def)
  ultimately show ?thesis using that by blast
qed

lemma touched_as_wanted:
  assumes "plan_generate s dir ctx d tw rc = Inr p" "x \<in> set (wanted_files ctx d tw)" "fst x \<in> set (touched p)"
  shows "case snd x of Some c \<Rightarrow> \<lparr>pw_relname = fst x, pw_content = c\<rparr> \<in> set (gp_writes p)
    | None \<Rightarrow> \<lparr>pr_relname = fst x\<rparr> \<in> set (gp_removes p)"
proof -
  note w = plan_generate_within[OF assms(1)]
  have uniq: "y = snd x" if "(fst x, y) \<in> set (wanted_files ctx d tw)" for y
    using eq_key_imp_eq_value[OF wanted_distinct that, of "snd x"] assms(2) by simp
  from assms(3) consider
      (wr) v where "v \<in> set (gp_writes p)" "pw_relname v = fst x"
    | (rm) v where "v \<in> set (gp_removes p)" "pr_relname v = fst x"
    by (auto simp: touched_def)
  then show ?thesis
  proof cases
    case wr
    with w have "(fst x, Some (pw_content v)) \<in> set (wanted_files ctx d tw)"
      unfolding within_def by metis
    from uniq[OF this, symmetric] wr show ?thesis by (cases v) auto
  next
    case rm
    with w have "(fst x, None) \<in> set (wanted_files ctx d tw)"
      unfolding within_def by metis
    from uniq[OF this, symmetric] rm show ?thesis by (cases v) auto
  qed
qed

lemma untouched_same:
  assumes plan: "plan_generate s0 dir ctx d tw rc = Inr p" and run: "apply_generate dir p s = (Inr out, s')"
    and h: "honest s" and x: "x \<in> set (wanted_files ctx d tw)" and n: "fst x \<notin> set (touched p)"
  shows "file_at s' (path_join dir (fst x)) = file_at s (path_join dir (fst x))"
proof -
  note l = plan_layout[OF plan]
  note u = wanted_unit_file[OF x]
  have "target dir (fst x) \<notin> set (plan_targets dir p)"
  proof
    assume "target dir (fst x) \<in> set (plan_targets dir p)"
    then obtain r where r: "r \<in> set (touched p)" "target dir (fst x) = target dir r"
      by (auto simp: targets_touched)
    with l(4) wanted_unit_file have "unit_file r" by blast
    with target_of_unit_file[OF u] r n show False by auto
  qed
  moreover have "path_join dir (fst x) \<noteq> manifest_path dir"
    using u path_join_inj[of "fst x" MANIFEST_NAME dir]
    by (auto simp: unit_file_def manifest_path_def MANIFEST_NAME_def)
  ultimately show ?thesis
    using apply_generate_ok[OF l(1-3) h run] unit_file_not_temp[OF u] by (simp add: target_def)
qed

text \<open>
  C6: generating twice is generating once. After a successful generation on a readable disk, planning
  again for the same session finds every unit and drop-in as wanted: the second plan is empty, without
  writes, removals, conflicts or reclaimed files, also when the first one left foreign files alone.
\<close>

theorem regenerate_is_noop:
  assumes "plan_generate s dir ctx d tweaks reclaim = Inr plan" "apply_generate dir plan s = (Inr out, s')"
    "honest s" "fs_rfail s = (\<lambda>_. None)" "manifest_ok (gp_manifest plan)" "NL \<notin> set (di_id_unit_string d)"
  shows "\<exists>m. plan_generate s' dir ctx d tweaks reclaim' = Inr (empty_plan m)"
proof -
  note l = plan_layout[OF assms(1)]
  note a = apply_generate_ok[OF l(1-3) assms(3,2)]
  note w = plan_generate_within[OF assms(1)]
  obtain m' where m': "manifest_load s' dir = Inr m'"
    "\<And>r c. r \<notin> set (touched plan) \<Longrightarrow> manifest_verify m' r c = manifest_verify (gp_manifest plan) r c"
    using manifest_after[OF assms] by blast
  have rf: "fs_rfail s' p = None" "fs_rfail s p = None" for p
    using apply_generate_rfail[OF assms(1,3,2)] assms(4) by simp_all
  have "at_rest s' dir m' x" if x: "x \<in> set (wanted_files ctx d tweaks)" for x
  proof -
    let ?r = "fst x"
    have st: "settled s dir plan ?r (snd x)"
      by (rule plan_generate_ok[OF assms(1)]) (use x in \<open>auto simp: wanted_files_def\<close>)
    show ?thesis
    proof (cases "?r \<in> set (touched plan)")
      case True
      from touched_as_wanted[OF assms(1) x this] a rf show ?thesis
        by (cases "snd x") (auto simp: at_rest_def all_new_def target_def std_read_def)
    next
      case False
      note same = untouched_same[OF assms(1-3) x False]
      have "gp_conflicts plan = []" using a by blast
      with st False m'(2)[OF False] show ?thesis
        by (cases "snd x")
          (force simp: settled_def at_rest_def touched_def on_disk_def ours_def std_read_def rf same
            split: option.splits)+
    qed
  qed
  with plan_generate_rest[OF m'(1)] show ?thesis by blast
qed

text \<open>On a disk without faults whose targets are writable, writes succeed; so the first generation over
  an empty directory does, and the second one has nothing to do.\<close>

lemma atomic_write_calm:
  assumes L: "layout T" and t: "target dir r \<in> T" and rd: "ready T s" and f: "fs_faults s = (\<lambda>_. None)"
  obtains s' where "atomic_write dir r c s = (Inr (), s')" "ready T s'" "fs_faults s' = (\<lambda>_. None)"
proof -
  obtain x s' where a: "atomic_write dir r c s = (x, s')" by fastforce
  note B = blamesD[OF blames_atomic_write[OF L t] rd a]
  have "\<not> fired s s'" using f by (simp add: fired_def)
  with B(3) have "x = Inr ()" by (cases x) auto
  with a that ready_atomic_write[OF L t rd a] B(1) f show ?thesis by simp
qed

lemma apply_writes_calm:
  assumes "layout T"
  shows "set (write_targets dir ws) \<subseteq> T \<Longrightarrow> ready T s \<Longrightarrow> fs_faults s = (\<lambda>_. None) \<Longrightarrow>
    \<exists>b' s'. apply_writes dir ws b s = (Inr b', s') \<and> ready T s' \<and> fs_faults s' = (\<lambda>_. None)"
proof (induction ws arbitrary: b s)
  case (Cons w ws)
  then have "target dir (pw_relname w) \<in> T" by simp
  from atomic_write_calm[OF assms this Cons.prems(2,3)] obtain s1 where
    a: "atomic_write dir (pw_relname w) (pw_content w) s = (Inr (), s1)" "ready T s1" "fs_faults s1 = (\<lambda>_. None)"
    by blast
  with Cons.IH[OF _ a(2,3)] Cons.prems(1) show ?case by (simp add: io_try_simp io_bind_Inr)
qed simp

lemma fresh_generation_succeeds:
  assumes L: "layout T" and p: "set (plan_targets dir p) \<subseteq> T" "manifest_path dir \<in> T"
    and rd: "ready T s" and f: "fs_faults s = (\<lambda>_. None)" and e: "gp_conflicts p = []" "gp_removes p = []"
  shows "\<exists>out s'. apply_generate dir p s = (Inr out, s') \<and> ready T s' \<and> fs_faults s' = (\<lambda>_. None)"
proof -
  obtain b s1 where b: "apply_writes dir (gp_writes p) (start_batch (gp_manifest p)) s = (Inr b, s1)"
    and s1: "ready T s1" "fs_faults s1 = (\<lambda>_. None)"
    using apply_writes_calm[OF L _ rd f, of dir "gp_writes p" "start_batch (gp_manifest p)"] p(1)
    by (auto simp: plan_targets_def)
  have t: "target dir MANIFEST_NAME \<in> T" using p(2) by (simp add: target_def manifest_path_def)
  obtain s2 where "atomic_write dir MANIFEST_NAME (manifest_render (ba_manifest b)) s1 = (Inr (), s2)"
    "ready T s2" "fs_faults s2 = (\<lambda>_. None)"
    using atomic_write_calm[OF L t s1] by metis
  with b e s1 show ?thesis
    by (cases "go_changed (ba_out b)")
      (simp_all add: apply_generate_batch batch_of_def io_bind_Inr manifest_save_def)
qed

lemma fresh_plan:
  assumes "plan_generate s dir ctx d tw rc = Inr p" "fs_files s = []" "fs_rfail s = (\<lambda>_. None)"
  shows "gp_conflicts p = []" "gp_removes p = []" "gp_reclaimed p = []" "gp_manifest p = \<lparr>mf_entries = []\<rparr>"
proof -
  have m: "manifest_load s dir = Inr \<lparr>mf_entries = []\<rparr>"
    by (simp add: manifest_load_def std_read_def assms file_at_def)
  have "plan_sound s dir \<lparr>mf_entries = []\<rparr> rc p"
    by (rule plan_generate_ok[OF assms(1)]) (use m in simp)
  moreover have "on_disk s dir r = None" for r by (simp add: on_disk_def std_read_def assms file_at_def)
  ultimately show "gp_conflicts p = []" "gp_removes p = []" "gp_reclaimed p = []"
    "gp_manifest p = \<lparr>mf_entries = []\<rparr>"
    by (auto simp: plan_sound_def foreign_def ours_def list.set_sel(1) intro: ccontr)
qed

definition demo_paths :: "string list" where
  "demo_paths = map (path_join ''/run/systemd/user'')
     (MANIFEST_NAME # map ut_name GRAPH @ map ut_name TWEAKS @ [preloader_name demo_dropin, service_name demo_dropin])"

lemma layout_list:
  "list_all (\<lambda>p. \<not> is_temp p \<and>
       (case path_parent p of Some q \<Rightarrow> q \<noteq> [] \<and> last q \<noteq> SLASH | None \<Rightarrow> False) \<and>
       list_all (\<lambda>q. q \<notin> set T \<and> \<not> is_temp q) (path_ancestors p)) T \<Longrightarrow> layout (set T)"
  by (auto simp: layout_def list_all_iff split: option.splits)

lemma demo_layout: "layout (set demo_paths)"
  by (rule layout_list) code_simp

lemma demo_ready: "ready (set demo_paths) ref_fs"
proof -
  have "list_all (\<lambda>p. p \<noteq> ''/run'' \<and> p \<noteq> ''/'') demo_paths" "\<not> is_temp ''/run''" "\<not> is_temp ''/''"
    by code_simp+
  then show ?thesis by (auto simp: ready_def is_dir_def file_at_def ref_fs_def list_all_iff)
qed

theorem regenerate_is_noop_witness:
  "\<exists>plan out s' m. plan_generate ref_fs ''/run/systemd/user'' demo_ctx demo_dropin True False = Inr plan \<and>
     apply_generate ''/run/systemd/user'' plan ref_fs = (Inr out, s') \<and>
     plan_generate s' ''/run/systemd/user'' demo_ctx demo_dropin True False = Inr (empty_plan m)"
proof -
  let ?d = "''/run/systemd/user''"
  obtain p where p: "plan_generate ref_fs ?d demo_ctx demo_dropin True False = Inr p"
    using plan_generate_total[OF ref_readable] by blast
  have f: "fs_files ref_fs = []" "fs_rfail ref_fs = (\<lambda>_. None)" by (simp_all add: ref_fs_def)
  note e = fresh_plan(1,2,4)[OF p f]
  have "set (plan_targets ?d p) \<subseteq> set demo_paths"
    using plan_layout(4)[OF p] by (auto simp: targets_touched wanted_names[THEN arg_cong[of _ _ set], simplified]
        demo_paths_def target_def)
  moreover have "manifest_path ?d \<in> set demo_paths" by (simp add: manifest_path_def demo_paths_def)
  moreover have "fs_faults ref_fs = (\<lambda>_. None)" by (simp add: ref_fs_def)
  ultimately obtain out s' where a: "apply_generate ?d p ref_fs = (Inr out, s')"
    using fresh_generation_succeeds[OF demo_layout _ _ demo_ready _ e(1,2)] by blast
  have "honest ref_fs" "manifest_ok (gp_manifest p)" "NL \<notin> set (di_id_unit_string demo_dropin)"
    by (simp_all add: honest_def ref_fs_def e manifest_ok_def demo_dropin_def)
  from regenerate_is_noop[OF p a this(1) ref_readable this(2,3)] p a show ?thesis by blast
qed

end
