(* ===== verification/EnvDelta.thy ===== *)
theory EnvDelta
  imports Names
begin

text \<open>
  The environment delta of src/env/delta.rs: what \<open>prepare-env\<close> sets, unsets and records for
  cleanup, computed from the activation environment before (\<open>pre\<close>) and the loader's environment
  after (\<open>post\<close>). The lemmas give the pointwise meaning of the three sets; the properties say
  what applying them achieves.
\<close>

section \<open>The computation\<close>

record env_changes =
  ch_set :: env
  ch_unset :: "string list"
  ch_cleanup :: "string list"

definition new_or_changed :: "env \<Rightarrow> env \<Rightarrow> env" where
  "new_or_changed pre post = bm_of_list (filter (\<lambda>(k, v). bm_get pre k \<noteq> Some v) post)"

fun force_export :: "env \<Rightarrow> string list \<Rightarrow> env \<Rightarrow> env" where
  "force_export post [] s = s"
| "force_export post (var # vars) s =
     force_export post vars
       (if var \<notin> set never_export \<and> var \<notin> set always_unset
        then (case bm_get post var of Some v \<Rightarrow> bm_insert var v s | None \<Rightarrow> s)
        else s)"

fun remove_all_keys :: "string list \<Rightarrow> env \<Rightarrow> env" where
  "remove_all_keys [] s = s"
| "remove_all_keys (var # vars) s = remove_all_keys vars (bm_remove var s)"

definition compute_changes :: "env \<Rightarrow> env \<Rightarrow> env_changes" where
  "compute_changes pre post =
     (let set1 = new_or_changed pre post;
          set2 = force_export post always_export set1;
          set3 = remove_all_keys (never_export @ always_unset) set2;
          gone = filter (\<lambda>k. \<not> bm_has post k) (bm_keys pre);
          unset1 = bs_extend [] gone;
          unset2 = bs_extend unset1 (filter (bm_has pre) always_unset);
          cleanup = bs_of_list (filter (\<lambda>k. k \<notin> set never_cleanup) (bm_keys set3))
      in \<lparr>ch_set = set3, ch_unset = unset2, ch_cleanup = cleanup\<rparr>)"

section \<open>Pointwise meaning\<close>

lemma bm_get_new_or_changed:
  assumes "bm_wf post"
  shows "bm_get (new_or_changed pre post) k =
    (if bm_get pre k \<noteq> bm_get post k then bm_get post k else None)"
proof (rule opt_ext)
  fix v
  let ?f = "filter (\<lambda>(k, v). bm_get pre k \<noteq> Some v) post"
  have wf: "bm_wf ?f" using assms by simp
  have "bm_get (new_or_changed pre post) k = Some v \<longleftrightarrow> (k, v) \<in> set ?f"
    using wf by (simp only: new_or_changed_def bm_of_list_id bm_get_in_iff)
  also have "\<dots> \<longleftrightarrow> bm_get post k = Some v \<and> bm_get pre k \<noteq> Some v"
    using assms by (simp add: bm_get_in_iff)
  finally show "bm_get (new_or_changed pre post) k = Some v \<longleftrightarrow>
      (if bm_get pre k \<noteq> bm_get post k then bm_get post k else None) = Some v"
    by auto
qed

lemma bm_wf_force_export [simp]: "bm_wf s \<Longrightarrow> bm_wf (force_export post vars s)"
  by (induction vars arbitrary: s) (auto split: option.splits)

lemma bm_get_force_export:
  "bm_wf s \<Longrightarrow>
   bm_get (force_export post vars s) k =
     (if k \<in> set vars \<and> k \<notin> set never_export \<and> k \<notin> set always_unset \<and> bm_get post k \<noteq> None
      then bm_get post k else bm_get s k)"
  by (induction vars arbitrary: s) (auto split: option.splits)

lemma bm_wf_remove_all_keys [simp]: "bm_wf s \<Longrightarrow> bm_wf (remove_all_keys vars s)"
  by (induction vars arbitrary: s) auto

lemma bm_get_remove_all_keys:
  "bm_get (remove_all_keys vars s) k = (if k \<in> set vars then None else bm_get s k)"
  by (induction vars arbitrary: s) auto

definition excluded :: "string \<Rightarrow> bool" where
  "excluded k \<longleftrightarrow> k \<in> set never_export \<or> k \<in> set always_unset"

lemma bm_wf_new_or_changed [simp]: "bm_wf (new_or_changed pre post)"
  by (simp add: new_or_changed_def)

lemma bm_wf_ch_set [simp]: "bm_wf (ch_set (compute_changes pre post))"
  by (simp add: compute_changes_def Let_def)

lemma bm_get_ch_set:
  assumes "bm_wf post"
  shows "bm_get (ch_set (compute_changes pre post)) k =
    (if \<not> excluded k \<and> (k \<in> set always_export \<or> bm_get pre k \<noteq> bm_get post k)
     then bm_get post k else None)"
  using assms
  by (auto simp: compute_changes_def Let_def bm_get_remove_all_keys bm_get_force_export
      bm_get_new_or_changed excluded_def)

lemma set_ch_unset:
  "k \<in> set (ch_unset (compute_changes pre post)) \<longleftrightarrow>
     bm_get pre k \<noteq> None \<and> (bm_get post k = None \<or> k \<in> set always_unset)"
  by (auto simp: compute_changes_def Let_def bm_has_iff bm_keys_def bm_get_None_iff)

lemma set_ch_cleanup:
  "k \<in> set (ch_cleanup (compute_changes pre post)) \<longleftrightarrow>
     bm_get (ch_set (compute_changes pre post)) k \<noteq> None \<and> k \<notin> set never_cleanup"
  by (auto simp: compute_changes_def Let_def bm_keys_def bm_get_None_iff)

lemma ch_wf: "bs_wf (ch_unset (compute_changes pre post))"
  "bs_wf (ch_cleanup (compute_changes pre post))"
  by (simp_all add: compute_changes_def Let_def)

section \<open>Applying a delta\<close>

text \<open>What the manager's activation environment is after setting \<open>ch_set\<close> and unsetting
  \<open>ch_unset\<close>, as \<open>prepare_env\<close> does with them.\<close>

definition apply_changes :: "env \<Rightarrow> env_changes \<Rightarrow> env" where
  "apply_changes pre c = remove_all_keys (ch_unset c) (bm_extend pre (ch_set c))"

lemma bm_get_apply_changes:
  assumes "bm_wf pre" "bm_wf post"
  shows "bm_get (apply_changes pre (compute_changes pre post)) k =
    (if k \<in> set always_unset then None
     else if k \<in> set never_export then (if bm_get post k = None then None else bm_get pre k)
     else bm_get post k)"
  using assms
  by (auto simp: apply_changes_def bm_get_remove_all_keys set_ch_unset bm_get_extend_wf
      bm_get_ch_set excluded_def split: option.splits)

end
