(* ===== verification/EnvProps.thy ===== *)
theory EnvProps
  imports EnvDelta RefBus
begin

text \<open>
  What the environment handling promises: the delta that is exported, the formats on disk, the atomic
  file writes below them, and the two-sided update of the activation environment.
\<close>

section \<open>The delta\<close>

text \<open>
  C13: the exported delta brings the activation environment to the loader's. Setting and unsetting
  what \<open>compute_changes\<close> computes turns the old environment into the new one on every variable,
  except that session identity and the other always-unset names are absent and never-exported names
  keep their old value unless the loader dropped them.
\<close>

theorem compute_changes_reaches_post:
  assumes "bm_wf pre" "bm_wf post"
  shows "bm_get (apply_changes pre (compute_changes pre post)) k =
    (if k \<in> set always_unset then None
     else if k \<in> set never_export then (if bm_get post k = None then None else bm_get pre k)
     else bm_get post k)"
  by (rule bm_get_apply_changes[OF assms])

definition demo_pre :: env where
  "demo_pre = [(''FOO'', ''1''), (''OLD'', ''x''), (''PWD'', ''/''), (''XDG_VTNR'', ''7'')]"

definition demo_post :: env where
  "demo_post = [(''BAR'', ''2''), (''FOO'', ''1''), (''PWD'', ''/home''), (''XDG_VTNR'', ''1'')]"

theorem compute_changes_reaches_post_witness:
  "bm_get (apply_changes demo_pre (compute_changes demo_pre demo_post)) ''BAR'' = Some ''2'' \<and>
   bm_get (apply_changes demo_pre (compute_changes demo_pre demo_post)) ''OLD'' = None"
proof -
  have "bm_wf demo_pre" "bm_wf demo_post" by code_simp+
  note t = compute_changes_reaches_post[OF this]
  have "''BAR'' \<notin> set always_unset" "''BAR'' \<notin> set never_export" "''OLD'' \<notin> set always_unset"
    "''OLD'' \<notin> set never_export" "bm_get demo_post ''BAR'' = Some ''2''" "bm_get demo_post ''OLD'' = None"
    by code_simp+
  then show ?thesis by (simp add: t)
qed

text \<open>
  C23: what the session exports it can take back. Every variable of the delta is recorded for
  clean-up or is protected by policy from removal; nothing is both set and unset; no excluded
  variable is ever exported, and only variables of the old environment are unset.
\<close>

theorem compute_changes_accounted:
  assumes "bm_wf pre" "bm_wf post"
  defines "c \<equiv> compute_changes pre post"
  shows "(bm_get (ch_set c) k \<noteq> None \<longrightarrow>
      (k \<in> set (ch_cleanup c) \<or> k \<in> set never_cleanup) \<and> k \<notin> set (ch_unset c) \<and> \<not> excluded k) \<and>
    (k \<in> set (ch_unset c) \<longrightarrow> bm_get pre k \<noteq> None)"
  using assms(2)
  by (auto simp: c_def set_ch_cleanup set_ch_unset bm_get_ch_set excluded_def split: if_splits)

theorem compute_changes_accounted_witness:
  "''BAR'' \<in> set (ch_cleanup (compute_changes demo_pre demo_post)) \<or> ''BAR'' \<in> set never_cleanup"
proof -
  have "bm_wf demo_pre" "bm_wf demo_post" by code_simp+
  from compute_changes_accounted[OF this, of "''BAR''"]
  have "bm_get (ch_set (compute_changes demo_pre demo_post)) ''BAR'' \<noteq> None \<Longrightarrow> ?thesis" by blast
  moreover have "bm_get (ch_set (compute_changes demo_pre demo_post)) ''BAR'' \<noteq> None" by code_simp
  ultimately show ?thesis .
qed

section \<open>Files\<close>

text \<open>
  C7: an atomic write is all or nothing. Whichever of its system calls fails, the destination holds
  the complete new content if and only if the write reported success, and its previous content
  otherwise; no other file but a temporary one changes.
\<close>

theorem atomic_write_all_or_nothing:
  assumes "atomic_write dir rel c s = (r, s')"
  shows "file_at s' (path_join dir rel) =
      (if is_ok r then Some c else file_at s (path_join dir rel)) \<and>
    (\<forall>q. q \<noteq> path_join dir rel \<and> \<not> is_temp q \<longrightarrow> file_at s' q = file_at s q)"
  using atomic_write_dest[OF assms] keepsD[OF keeps_atomic_write assms] by blast

text \<open>A disk that tears the write after three bytes.\<close>

definition torn_fs :: fs where
  "torn_fs = ref_fs\<lparr>fs_files := [(''/run/x'', ''old'')],
     fs_faults := (\<lambda>n. if n = 2 then Some (IoOs 28, 3) else None)\<rparr>"

theorem atomic_write_all_or_nothing_witness:
  "file_at (snd (atomic_write ''/run'' ''x'' ''new content'' torn_fs)) ''/run/x'' = Some ''old'' \<and>
   file_at (snd (atomic_write ''/run'' ''x'' ''new content'' ref_fs)) ''/run/x'' = Some ''new content''"
proof -
  have "\<not> is_ok (fst (atomic_write ''/run'' ''x'' ''new content'' torn_fs))"
    "is_ok (fst (atomic_write ''/run'' ''x'' ''new content'' ref_fs))"
    "path_join ''/run'' ''x'' = ''/run/x''" "file_at torn_fs ''/run/x'' = Some ''old''"
    by code_simp+
  then show ?thesis
    using atomic_write_all_or_nothing[OF prod.collapse[symmetric], of "''/run''" "''x''" "''new content''" torn_fs]
      atomic_write_all_or_nothing[OF prod.collapse[symmetric], of "''/run''" "''x''" "''new content''" ref_fs]
    by simp
qed

text \<open>
  C24: environment snapshots read back. A snapshot whose values hold no NUL byte is read back from its
  NUL-separated form exactly, less the names the policy drops; values may contain anything else, line
  breaks and equals signs included.
\<close>

theorem env_snapshot_roundtrip:
  assumes "bm_wf m" "nul_free m"
  shows "parse_env_nul (serialize_env m Nul) = filter_map m"
  by (rule parse_serialize_env[OF assms])

theorem env_snapshot_roundtrip_witness:
  "parse_env_nul (serialize_env [(''A'', ''x=y'' @ [NL] @ ''z''), (''PWD'', ''/'')] Nul) =
     filter_map [(''A'', ''x=y'' @ [NL] @ ''z''), (''PWD'', ''/'')]"
proof (rule env_snapshot_roundtrip)
  show "bm_wf [(''A'', ''x=y'' @ [NL] @ ''z''), (''PWD'', ''/'')]" by code_simp
  show "nul_free [(''A'', ''x=y'' @ [NL] @ ''z''), (''PWD'', ''/'')]" by code_simp
qed

text \<open>
  The clean-up list reads back. Every set of entries with well-formed generation identifiers and
  valid names is read back exactly from the file it is written to.
\<close>

theorem cleanup_list_roundtrip:
  assumes "cleanup_ok es"
  shows "parse_cleanup (cleanup_body es) = es"
  by (rule cleanup_codec.dec_enc[OF assms])

theorem cleanup_list_roundtrip_witness:
  "parse_cleanup (cleanup_body [CleanupEntry ''g1'' ''A'', CleanupEntry ''g2'' ''A'']) =
     [CleanupEntry ''g1'' ''A'', CleanupEntry ''g2'' ''A'']"
  by (rule cleanup_list_roundtrip) code_simp

text \<open>
  C25: the loader's output is understood. Messages printed before the first occurrence of the mark are
  separated from the dump after it, and the dump of any environment with valid names and NUL-free
  values is read back exactly.
\<close>

theorem shell_dump_roundtrip:
  assumes "\<forall>p\<in>set m. keep_name (fst p) \<and> NUL \<notin> set (snd p)"
    and "\<forall>a b. messages @ mark @ env0 m = a @ mark @ b \<longrightarrow> length messages \<le> length a"
  shows "parse_shell_dump (messages @ mark @ env0 m) mark =
    Inr \<lparr>sd_messages = messages, sd_env = bm_of_list m\<rparr>"
proof -
  have "find_str mark (messages @ mark @ env0 m) = Some (messages, env0 m)"
    by (rule find_str_first) (use assms(2) in auto)
  then show ?thesis by (simp add: parse_shell_dump_def parse_env0[OF assms(1)])
qed

theorem shell_dump_roundtrip_witness:
  "parse_shell_dump (''hi'' @ ''#'' @ env0 [(''A'', ''1'')]) ''#'' =
     Inr \<lparr>sd_messages = ''hi'', sd_env = bm_of_list [(''A'', ''1'')]\<rparr>"
proof (rule shell_dump_roundtrip)
  have "keep_name ''A''" by code_simp
  then show "\<forall>p\<in>set [(''A'', ''1'')]. keep_name (fst p) \<and> NUL \<notin> set (snd p)" by simp
  show "\<forall>a b. ''hi'' @ ''#'' @ env0 [(''A'', ''1'')] = a @ ''#'' @ b \<longrightarrow> length ''hi'' \<le> length a"
  proof (intro allI impI)
    fix a b
    assume "''hi'' @ ''#'' @ env0 [(''A'', ''1'')] = a @ ''#'' @ b"
    then show "length ''hi'' \<le> length a"
      by (cases a; cases "tl a") (auto simp: env0_def assignment_def)
  qed
qed

end

