(* ===== verification/Field.thy ===== *)
theory Field
  imports Effects
begin

text \<open>
  Desktop-entry \<open>Exec\<close> lines, src/app/field.rs: value escapes, the quoting rules, and the expansion
  of field codes with the caller's arguments. The lemmas give the two directions of the quoting
  rules, the meaning of a URL made from a path, and what expansion does with each argument.
\<close>

section \<open>Value escapes\<close>

record entry_ctx =
  ec_name :: string
  ec_icon :: string
  ec_filename :: string

datatype gen_args = Single "string list" | Multi "string list list"

definition unescape_char :: "char \<Rightarrow> char" where
  "unescape_char ch =
     (if ch = CHR ''s'' then CHR '' '' else if ch = CHR ''n'' then NL
      else if ch = CHR ''t'' then TAB else if ch = CHR ''r'' then CR
      else ch)"

fun expand_loop :: "bool \<Rightarrow> string \<Rightarrow> string" where
  "expand_loop escaped [] = []"
| "expand_loop escaped (ch # s) =
     (if escaped then unescape_char ch # expand_loop False s
      else if ch = BSL then expand_loop True s
      else ch # expand_loop False s)"

definition expand_str :: "string \<Rightarrow> string" where
  "expand_str value = (if BSL \<notin> set value then value else expand_loop False value)"

lemma expand_loop_plain: "BSL \<notin> set s \<Longrightarrow> expand_loop False s = s"
  by (induction s) auto

lemma expand_str_loop: "expand_str s = expand_loop False s"
  by (simp add: expand_str_def expand_loop_plain)

text \<open>What a writer of desktop entries does with a value: the escapes the reader knows.\<close>

definition value_escape_char :: "char \<Rightarrow> string" where
  "value_escape_char c =
     (if c = NL then [BSL, CHR ''n''] else if c = TAB then [BSL, CHR ''t'']
      else if c = CR then [BSL, CHR ''r''] else if c = BSL then [BSL, BSL] else [c])"

definition value_escape :: "string \<Rightarrow> string" where
  "value_escape s = concat (map value_escape_char s)"

lemma expand_value_escape: "expand_str (value_escape s) = s"
proof -
  have "expand_loop False (concat (map value_escape_char s)) = s"
    by (induction s) (simp_all add: value_escape_char_def unescape_char_def)
  then show ?thesis by (simp add: expand_str_loop value_escape_def)
qed

section \<open>Tokenizing\<close>

definition RESERVED :: string where
  "RESERVED = [TAB, NL, SQ, BSL] @ ''><~|&;$*?#()'' @ [BTICK]"

function tokenize_loop ::
  "string list \<Rightarrow> string \<Rightarrow> bool \<Rightarrow> bool \<Rightarrow> bool \<Rightarrow> string \<Rightarrow> string list result" where
  "tokenize_loop cmd arg quoted in_space escaped [] = Inr (cmd @ [arg])"
| "tokenize_loop cmd arg quoted in_space escaped (ch # s) =
     (if in_space \<and> ws_len (ch # s) \<noteq> 0
      then tokenize_loop cmd arg quoted True escaped (drop (ws_len (ch # s)) (ch # s))
      else if quoted then
        (if escaped then tokenize_loop cmd (arg @ [ch]) True False False s
         else if ch = DQ then tokenize_loop cmd arg False False False s
         else if ch = BSL then tokenize_loop cmd arg True False True s
         else if ch = BTICK \<or> ch = CHR ''$''
         then Inl (InvalidArg (''unescaped '' @ debug_char ch @ '' in Exec''))
         else tokenize_loop cmd (arg @ [ch]) True False False s)
      else if ch = DQ then tokenize_loop cmd arg True False escaped s
      else if ws_len (ch # s) \<noteq> 0
      then tokenize_loop (cmd @ [arg]) [] False True escaped (drop (ws_len (ch # s)) (ch # s))
      else if ch \<in> set RESERVED
      then Inl (InvalidArg (''unquoted '' @ debug_char ch @ '' in Exec''))
      else tokenize_loop cmd (arg @ [ch]) False False escaped s)"
  by pat_completeness auto
termination
  by (relation "measure (\<lambda>(_, _, _, _, _, s). length s)") auto

definition tokenize_exec :: "string \<Rightarrow> string list result" where
  "tokenize_exec value = tokenize_loop [] [] False False False (trim value)"

text \<open>The quoting rules of the Desktop Entry Specification, as a writer applies them.\<close>

definition exec_quote_char :: "char \<Rightarrow> string" where
  "exec_quote_char c = (if c \<in> {DQ, BTICK, CHR ''$'', BSL} then [BSL, c] else [c])"

definition exec_quote :: "string \<Rightarrow> string" where
  "exec_quote w = DQ # concat (map exec_quote_char w) @ [DQ]"

lemma tokenize_quoted_body:
  "tokenize_loop cmd arg True False False (concat (map exec_quote_char w) @ DQ # s) =
   tokenize_loop cmd (arg @ w) False False False s"
  by (induction w arbitrary: arg) (auto simp: exec_quote_char_def)

lemma tokenize_quoted:
  "tokenize_loop cmd [] False b False (exec_quote w @ s) = tokenize_loop cmd w False False False s"
proof -
  have "ws_len (DQ # t) = 0" for t by (rule ws_len_graphic) (simp add: graphic_def)
  then show ?thesis by (simp add: exec_quote_def tokenize_quoted_body)
qed

lemma tokenize_space:
  "tokenize_loop cmd arg False False False (CHR '' '' # s) = tokenize_loop (cmd @ [arg]) [] False True False s"
proof -
  have "ws_len (CHR '' '' # s) = 1"
    by (cases "CHR '' '' # s" rule: ws_len.cases) (simp_all add: is_ascii_ws_def)
  then show ?thesis by simp
qed

lemma tokenize_joined:
  "ws \<noteq> [] \<Longrightarrow>
   tokenize_loop cmd [] False b False (join_with '' '' (map exec_quote ws)) = Inr (cmd @ ws)"
proof (induction "'' ''" ws arbitrary: cmd b rule: join_with.induct)
  case (2 w)
  then show ?case using tokenize_quoted[of cmd b w "[]"] by simp
next
  case (3 w v ws)
  then show ?case by (simp add: tokenize_quoted tokenize_space del: tokenize_loop.simps(2))
qed simp

lemma joined_starts: "ws \<noteq> [] \<Longrightarrow> \<exists>t. join_with '' '' (map exec_quote ws) = DQ # t"
  by (cases ws; cases "tl ws") (auto simp: exec_quote_def)

lemma joined_ends: "ws \<noteq> [] \<Longrightarrow> \<exists>t. join_with '' '' (map exec_quote ws) = t @ [DQ]"
proof (induction "'' ''" ws rule: join_with.induct)
  case (2 w)
  have "exec_quote w = (DQ # concat (map exec_quote_char w)) @ [DQ]" by (simp add: exec_quote_def)
  then show ?case unfolding list.map join_with.simps by blast
next
  case (3 w v ws)
  then obtain t where "join_with '' '' (map exec_quote (v # ws)) = t @ [DQ]" by blast
  then have "join_with '' '' (map exec_quote (w # v # ws)) = (exec_quote w @ '' '' @ t) @ [DQ]"
    by simp
  then show ?case by blast
qed simp

lemma tokenize_exec_joined:
  assumes "ws \<noteq> []"
  shows "tokenize_exec (join_with '' '' (map exec_quote ws)) = Inr ws"
proof -
  from joined_starts[OF assms] joined_ends[OF assms] obtain t u
    where t: "join_with '' '' (map exec_quote ws) = DQ # t"
      and u: "join_with '' '' (map exec_quote ws) = u @ [DQ]" by blast
  have g: "graphic DQ" by (simp add: graphic_def)
  have "ws_len_rev (rev (join_with '' '' (map exec_quote ws))) = 0"
    unfolding u using ws_len_rev_graphic[OF g] by simp
  moreover have "ws_len (join_with '' '' (map exec_quote ws)) = 0"
    unfolding t using ws_len_graphic[OF g] by simp
  ultimately show ?thesis
    using tokenize_joined[OF assms, of "[]" False] by (simp add: tokenize_exec_def trim_id)
qed

section \<open>URLs\<close>

definition scheme_char :: "char \<Rightarrow> bool" where
  "scheme_char c \<longleftrightarrow> is_alnum c \<or> c \<in> {CHR ''+'', CHR ''-'', CHR ''.''}"

fun scheme_rest :: "string \<Rightarrow> bool" where
  "scheme_rest [] = False"
| "scheme_rest (c # s) = (if c = CHR '':'' then True else if \<not> scheme_char c then False else scheme_rest s)"

definition has_uri_scheme :: "string \<Rightarrow> bool" where
  "has_uri_scheme s =
     (case s of [] \<Rightarrow> False | first # r \<Rightarrow> if \<not> is_alpha first then False else scheme_rest r)"

definition url_safe :: "char \<Rightarrow> bool" where
  "url_safe c \<longleftrightarrow> is_alnum c \<or> c \<in> {CHR ''_'', CHR ''.'', CHR ''~'', CHR ''-'', CHR ''/''}"

definition percent_byte :: "char \<Rightarrow> string" where
  "percent_byte b = (if url_safe b then [b] else CHR ''%'' # hex2_upper b)"

definition percent_encode :: "string \<Rightarrow> string" where
  "percent_encode arg = concat (map percent_byte arg)"

definition path2url :: "string \<Rightarrow> string" where
  "path2url arg = (if has_uri_scheme arg then arg else ''file://'' @ percent_encode arg)"

text \<open>The reader's side: RFC 3986 decoding.\<close>

fun percent_decode :: "string \<Rightarrow> string" where
  "percent_decode (p # a # b # s) =
     (if p = CHR ''%''
      then (case (digit_value a, digit_value b) of
              (Some x, Some y) \<Rightarrow> char_of (16 * x + y) # percent_decode s
            | _ \<Rightarrow> p # percent_decode (a # b # s))
      else p # percent_decode (a # b # s))"
| "percent_decode s = s"

lemma upper_digit_value: "n < 16 \<Longrightarrow> digit_value (upper_digit_char n) = Some n"
proof -
  assume "n < 16"
  then have "n \<in> set [0..<16]" by simp
  moreover have "list_all (\<lambda>n. digit_value (upper_digit_char n) = Some n) [0..<16]" by code_simp
  ultimately show ?thesis by (simp only: list_all_iff)
qed

lemma percent_decode_step: "p \<noteq> CHR ''%'' \<Longrightarrow> percent_decode (p # s) = p # percent_decode s"
  by (cases s; cases "tl s") auto

lemma percent_decode_byte: "percent_decode (percent_byte c @ s) = c # percent_decode s"
proof (cases "url_safe c")
  case True
  then have "c \<noteq> CHR ''%''" by (auto simp: url_safe_def char_class_defs)
  with True show ?thesis by (simp add: percent_byte_def percent_decode_step)
next
  case False
  have "of_char c div 16 < (16 :: nat)"
    by (rule less_mult_imp_div_less) (use nat_of_char_less_256[of c] in simp)
  moreover have "16 * (of_char c div 16) + of_char c mod 16 = (of_char c :: nat)" by simp
  ultimately show ?thesis
    using False by (simp add: percent_byte_def hex2_upper_def upper_digit_value del: mult_div_mod_eq)
qed

lemma percent_decode_encode: "percent_decode (percent_encode s) = s"
  by (induction s) (simp_all add: percent_encode_def percent_decode_byte)

lemma has_uri_scheme_file: "has_uri_scheme (''file://'' @ s)"
  by (simp add: has_uri_scheme_def scheme_char_def char_class_defs)

lemma path2url_idem: "path2url (path2url s) = path2url s"
  by (cases "has_uri_scheme s") (simp_all only: path2url_def has_uri_scheme_file if_True if_False)

lemma not_scheme_absolute: "\<not> has_uri_scheme (CHR ''/'' # s)"
  by (simp add: has_uri_scheme_def char_class_defs)

lemma percent_encode_safe: "c \<in> set (percent_encode s) \<Longrightarrow> url_safe c \<or> c = CHR ''%''"
proof (induction s)
  case (Cons b s)
  have "url_safe (upper_digit_char n)" if "n < 16" for n
  proof -
    have "list_all (\<lambda>n. url_safe (upper_digit_char n)) [0..<16]" by code_simp
    with that show ?thesis by (simp only: list_all_iff) simp
  qed
  moreover have "of_char b div 16 < (16 :: nat)"
    by (rule less_mult_imp_div_less) (use nat_of_char_less_256[of b] in simp)
  ultimately show ?case
    using Cons by (auto simp: percent_encode_def percent_byte_def hex2_upper_def split: if_splits)
qed (simp add: percent_encode_def)

section \<open>Field codes\<close>

definition guard_conflict :: "string option \<Rightarrow> string \<Rightarrow> unit result" where
  "guard_conflict prev tok =
     (case prev of
        Some p \<Rightarrow>
          Inl (InvalidArg (''conflicting Exec field args: '' @ debug_str p @ '', '' @ debug_str tok))
      | None \<Rightarrow> Inr ())"

fun count_fields :: "string \<Rightarrow> nat" where
  "count_fields (c # d # s) =
     (if c = CHR ''%'' \<and> d = CHR ''%'' then count_fields s
      else if c = CHR ''%'' \<and> is_alpha d then Suc (count_fields s)
      else count_fields (d # s))"
| "count_fields s = 0"

definition has_deprecated :: "string \<Rightarrow> bool" where
  "has_deprecated s =
     list_ex (\<lambda>f. contains_str f s) [''%d'', ''%D'', ''%n'', ''%N'', ''%v'', ''%m'']"

text \<open>The loop's variables: the arguments so far, the file or URL field met, and where it stands.\<close>

record expansion =
  ex_out :: "string list"
  ex_field :: "string option"
  ex_idx :: "nat option"

definition ex_push :: "string list \<Rightarrow> expansion \<Rightarrow> expansion" where
  "ex_push ws x = x\<lparr>ex_out := ex_out x @ ws\<rparr>"

definition ex_single :: "string \<Rightarrow> expansion \<Rightarrow> expansion" where
  "ex_single tok x = x\<lparr>ex_field := Some tok, ex_idx := Some (length (ex_out x))\<rparr>"

definition single_words :: "string list \<Rightarrow> string \<Rightarrow> (string \<Rightarrow> string) \<Rightarrow> string list" where
  "single_words args tok subst = (case args of [] \<Rightarrow> [] | [a] \<Rightarrow> [subst a] | _ \<Rightarrow> [tok])"

definition expand_tok ::
  "string list \<Rightarrow> entry_ctx \<Rightarrow> string \<Rightarrow> expansion \<Rightarrow> expansion result" where
  "expand_tok args ctx tok x =
     (if 1 < count_fields tok
      then Inl (InvalidArg (''more than one % field in argument: '' @ debug_str tok))
      else if contains_str ''%%'' tok then Inr (ex_push [replace_all ''%%'' ''%'' tok] x)
      else if has_deprecated tok then Inr x
      else if contains_str ''%f'' tok then
        rbind (guard_conflict (ex_field x) tok) (\<lambda>_.
        Inr (ex_push (single_words args tok (\<lambda>a. replace_all ''%f'' a tok)) (ex_single tok x)))
      else if tok = ''%F'' then
        rbind (guard_conflict (ex_field x) tok) (\<lambda>_. Inr (ex_push args (x\<lparr>ex_field := Some tok\<rparr>)))
      else if contains_str ''%F'' tok
      then Inl (InvalidArg ([DQ] @ ''%F'' @ [DQ] @ '' inside argument: '' @ debug_str tok))
      else if contains_str ''%u'' tok then
        rbind (guard_conflict (ex_field x) tok) (\<lambda>_.
        Inr (ex_push (single_words args tok (\<lambda>a. replace_all ''%u'' (path2url a) tok))
          (ex_single tok x)))
      else if tok = ''%U'' then
        rbind (guard_conflict (ex_field x) tok) (\<lambda>_.
        Inr (ex_push (map path2url args) (x\<lparr>ex_field := Some tok\<rparr>)))
      else if contains_str ''%U'' tok
      then Inl (InvalidArg ([DQ] @ ''%U'' @ [DQ] @ '' inside argument: '' @ debug_str tok))
      else if tok = ''%c'' then Inr (ex_push [ec_name ctx] x)
      else if tok = ''%k'' then Inr (ex_push [ec_filename ctx] x)
      else if tok = ''%i''
      then Inr (if ec_icon ctx \<noteq> [] then ex_push [''--icon'', ec_icon ctx] x else x)
      else Inr (ex_push [tok] x))"

fun expand_toks ::
  "string list \<Rightarrow> entry_ctx \<Rightarrow> string list \<Rightarrow> expansion \<Rightarrow> expansion result" where
  "expand_toks args ctx [] x = Inr x"
| "expand_toks args ctx (tok # toks) x =
     rbind (expand_tok args ctx tok x) (expand_toks args ctx toks)"

text \<open>\<open>inst[idx]\<close> panics out of range; \<open>idx\<close> is the position of the field's own token.\<close>

definition instance_for :: "string \<Rightarrow> string list \<Rightarrow> string \<Rightarrow> nat \<Rightarrow> string \<Rightarrow> string list" where
  "instance_for cmd out fu idx a =
     (let repl = (if fu = ''%u'' then path2url a else a)
      in cmd # out[idx := replace_all fu repl (out ! idx)])"

definition gen_entry_args :: "string list \<Rightarrow> string list \<Rightarrow> entry_ctx \<Rightarrow> gen_args result" where
  "gen_entry_args exec args ctx =
     (case exec of
        [] \<Rightarrow> Inl (InvalidArg ''empty Exec'')
      | cmd # toks \<Rightarrow>
          rbind (expand_toks args ctx toks \<lparr>ex_out = [], ex_field = None, ex_idx = None\<rparr>) (\<lambda>x.
          if args \<noteq> [] \<and> ex_field x = None
          then Inl (InvalidArg ''entry does not support arguments'')
          else
            (case (ex_field x, ex_idx x) of
               (Some fu, Some idx) \<Rightarrow>
                 if 1 < length args \<and> (fu = ''%f'' \<or> fu = ''%u'')
                 then Inr (Multi (map (instance_for cmd (ex_out x) fu idx) args))
                 else Inr (Single (cmd # ex_out x))
             | _ \<Rightarrow> Inr (Single (cmd # ex_out x)))))"

section \<open>What a token can do\<close>

lemma ex_push_simps [simp]:
  "ex_out (ex_push ws x) = ex_out x @ ws" "ex_field (ex_push ws x) = ex_field x"
  "ex_idx (ex_push ws x) = ex_idx x" "ex_push [] x = x"
  by (simp_all add: ex_push_def)

lemma ex_single_simps [simp]:
  "ex_out (ex_single tok x) = ex_out x" "ex_field (ex_single tok x) = Some tok"
  "ex_idx (ex_single tok x) = Some (length (ex_out x))"
  by (simp_all add: ex_single_def)

definition field_word :: "string \<Rightarrow> string \<Rightarrow> string" where
  "field_word fu a = (if fu = ''%u'' then path2url a else a)"

definition standalone :: "string \<Rightarrow> bool" where
  "standalone tok \<longleftrightarrow> tok = ''%f'' \<or> tok = ''%u''"

lemma replace_standalone [simp]: "replace_all ''%f'' a ''%f'' = a" "replace_all ''%u'' a ''%u'' = a"
  by (simp_all add: starts_with_def)

declare replace_all.simps [simp del]

lemma contains_self [simp]: "contains_str p p"
  unfolding contains_str_iff by (metis append_Nil append_Nil2)

lemma expand_tok_cases:
  obtains
    (fixed) ws where "\<And>args x. expand_tok args ctx tok x = Inr (ex_push ws x)" "\<not> standalone tok"
  | (one) subst where
      "\<And>args x. expand_tok args ctx tok x = rbind (guard_conflict (ex_field x) tok) (\<lambda>_.
        Inr (ex_push (single_words args tok subst) (ex_single tok x)))"
      "standalone tok \<Longrightarrow> subst = field_word tok"
  | (many) f where
      "\<And>args x. expand_tok args ctx tok x = rbind (guard_conflict (ex_field x) tok) (\<lambda>_.
        Inr (ex_push (map f args) (x\<lparr>ex_field := Some tok\<rparr>)))"
      "\<not> standalone tok"
  | (bad) e where "\<And>args x. expand_tok args ctx tok x = Inl e"
proof -
  let ?E = "\<lambda>args x. expand_tok args ctx tok x"
  consider "1 < count_fields tok" | "\<not> 1 < count_fields tok" "contains_str ''%%'' tok"
    | "\<not> 1 < count_fields tok" "\<not> contains_str ''%%'' tok" "has_deprecated tok"
    | "\<not> 1 < count_fields tok" "\<not> contains_str ''%%'' tok" "\<not> has_deprecated tok"
      "contains_str ''%f'' tok"
    | (rest) "\<not> 1 < count_fields tok" "\<not> contains_str ''%%'' tok" "\<not> has_deprecated tok"
      "\<not> contains_str ''%f'' tok"
    by blast
  then show ?thesis
  proof cases
    case 1
    then show ?thesis by (intro bad) (simp add: expand_tok_def)
  next
    case 2
    moreover have "\<not> standalone tok"
      using 2 by (auto simp: standalone_def contains_str_def)
    ultimately show ?thesis by (intro fixed) (simp_all add: expand_tok_def)
  next
    case 3
    moreover have "\<not> standalone tok"
      using 3 by (auto simp: standalone_def has_deprecated_def contains_str_def)
    ultimately show ?thesis by (intro fixed[of "[]"]) (simp_all add: expand_tok_def)
  next
    case 4
    then have "standalone tok \<Longrightarrow> (\<lambda>a. replace_all ''%f'' a tok) = field_word tok"
      by (auto simp: standalone_def field_word_def contains_str_def)
    with 4 show ?thesis by (intro one[of "\<lambda>a. replace_all ''%f'' a tok"]) (simp_all add: expand_tok_def)
  next
    case rest
    then have nf: "tok \<noteq> ''%f''" by auto
    consider (F) "tok = ''%F''" | (inF) "tok \<noteq> ''%F''" "contains_str ''%F'' tok"
      | (u) "tok \<noteq> ''%F''" "\<not> contains_str ''%F'' tok" "contains_str ''%u'' tok"
      | (tail) "tok \<noteq> ''%F''" "\<not> contains_str ''%F'' tok" "\<not> contains_str ''%u'' tok"
      by blast
    then show ?thesis
    proof cases
      case F
      with rest show ?thesis by (intro many[of "\<lambda>a. a"]) (simp_all add: expand_tok_def standalone_def)
    next
      case inF
      with rest show ?thesis by (intro bad) (simp add: expand_tok_def)
    next
      case u
      then have "standalone tok \<Longrightarrow> (\<lambda>a. replace_all ''%u'' (path2url a) tok) = field_word tok"
        using nf by (auto simp: standalone_def field_word_def)
      with rest u show ?thesis by (intro one[of "\<lambda>a. replace_all ''%u'' (path2url a) tok"]) (simp_all add: expand_tok_def)
    next
      case tail
      then have ns: "\<not> standalone tok" using nf by (auto simp: standalone_def)
      consider (U) "tok = ''%U''" | (inU) "tok \<noteq> ''%U''" "contains_str ''%U'' tok"
        | (plain) "tok \<noteq> ''%U''" "\<not> contains_str ''%U'' tok"
        by blast
      then show ?thesis
      proof cases
        case U
        with rest tail ns show ?thesis by (intro many[of path2url]) (simp_all add: expand_tok_def)
      next
        case inU
        with rest tail show ?thesis by (intro bad) (simp add: expand_tok_def)
      next
        case plain
        have "\<exists>ws. \<forall>args x. ?E args x = Inr (ex_push ws x)"
        proof (cases "tok = ''%i'' \<and> ec_icon ctx = []")
          case True
          with rest tail plain have "?E args x = Inr (ex_push [] x)" for args x
            by (simp add: expand_tok_def)
          then show ?thesis by blast
        next
          case False
          with rest tail plain have "?E args x = Inr (ex_push
              (if tok = ''%c'' then [ec_name ctx] else if tok = ''%k'' then [ec_filename ctx]
               else if tok = ''%i'' then [''--icon'', ec_icon ctx] else [tok]) x)" for args x
            by (simp add: expand_tok_def)
          then show ?thesis by blast
        qed
        with ns fixed show ?thesis by blast
      qed
    qed
  qed
qed

section \<open>One instance per argument\<close>

text \<open>\<open>tracks a x y\<close>: the expansion \<open>y\<close> for the one argument \<open>a\<close> is the expansion \<open>x\<close> for many with the
  standalone field's token filled in.\<close>

definition tracks :: "string \<Rightarrow> expansion \<Rightarrow> expansion \<Rightarrow> bool" where
  "tracks a x y \<longleftrightarrow> ex_field y = ex_field x \<and> ex_idx y = ex_idx x \<and>
     (case ex_field x of
        None \<Rightarrow> ex_out y = ex_out x
      | Some fu \<Rightarrow> standalone fu \<longrightarrow>
          (\<exists>i. ex_idx x = Some i \<and> i < length (ex_out x) \<and> ex_out x ! i = fu \<and>
               ex_out y = (ex_out x)[i := field_word fu a]))"

lemma tracks_push: "tracks a x y \<Longrightarrow> tracks a (ex_push ws x) (ex_push ws y)"
  by (auto simp: tracks_def nth_append list_update_append split: option.splits)

lemma guard_conflict_Inr [simp]: "guard_conflict p tok = Inr u \<longleftrightarrow> p = None"
  by (simp add: guard_conflict_def split: option.split)

lemma tracks_tok:
  assumes t: "tracks a x y" and n: "1 < length args" and e: "expand_tok args ctx tok x = Inr x'"
  shows "\<exists>y'. expand_tok [a] ctx tok y = Inr y' \<and> tracks a x' y'"
proof (cases rule: expand_tok_cases[of ctx tok])
  case (fixed ws)
  with e tracks_push[OF t] show ?thesis by auto
next
  case (one subst)
  from e[unfolded one(1)] have none: "ex_field x = None"
    and x': "x' = ex_push (single_words args tok subst) (ex_single tok x)"
    by (auto simp: rbind_Inr_iff)
  with t have y: "ex_field y = None" "ex_out y = ex_out x" by (simp_all add: tracks_def)
  from n have "single_words args tok subst = [tok]"
    by (cases args; cases "tl args") (simp_all add: single_words_def)
  moreover from one(1)[of "[a]" y] y(1)
  have "expand_tok [a] ctx tok y = Inr (ex_push [subst a] (ex_single tok y))"
    by (simp add: guard_conflict_def single_words_def)
  ultimately show ?thesis using x' y(2) one(2) by (auto simp: tracks_def)
next
  case (many f)
  from e[unfolded many(1)] have "ex_field x = None"
    and x': "x' = ex_push (map f args) (x\<lparr>ex_field := Some tok\<rparr>)"
    by (auto simp: rbind_Inr_iff)
  with t many(1)[of "[a]" y]
  have "expand_tok [a] ctx tok y = Inr (ex_push [f a] (y\<lparr>ex_field := Some tok\<rparr>))"
    by (simp add: tracks_def guard_conflict_def)
  with x' t many(2) show ?thesis by (auto simp: tracks_def)
next
  case (bad err)
  with e show ?thesis by simp
qed

lemma tracks_toks:
  assumes "1 < length args"
  shows "tracks a x y \<Longrightarrow> expand_toks args ctx toks x = Inr x' \<Longrightarrow>
    \<exists>y'. expand_toks [a] ctx toks y = Inr y' \<and> tracks a x' y'"
proof (induction toks arbitrary: x y)
  case (Cons tok toks)
  then obtain x1 where x1: "expand_tok args ctx tok x = Inr x1" "expand_toks args ctx toks x1 = Inr x'"
    by (auto simp: rbind_Inr_iff)
  from tracks_tok[OF Cons.prems(1) assms x1(1)] obtain y1
    where "expand_tok [a] ctx tok y = Inr y1" "tracks a x1 y1" by blast
  with Cons.IH[OF _ x1(2)] show ?case by auto
qed simp

abbreviation expand_start :: expansion where
  "expand_start \<equiv> \<lparr>ex_out = [], ex_field = None, ex_idx = None\<rparr>"

lemma gen_multi_each:
  assumes g: "gen_entry_args exec args ctx = Inr (Multi insts)"
  shows "1 < length args" "length insts = length args"
    "i < length args \<Longrightarrow> gen_entry_args exec [args ! i] ctx = Inr (Single (insts ! i))"
proof -
  from g obtain cmd toks where ex: "exec = cmd # toks"
    by (cases exec) (simp_all add: gen_entry_args_def)
  with g obtain x where x: "expand_toks args ctx toks expand_start = Inr x"
    by (auto simp: gen_entry_args_def rbind_Inr_iff)
  with g ex obtain fu idx where f: "ex_field x = Some fu" "ex_idx x = Some idx"
    and n: "1 < length args" and fu: "fu = ''%f'' \<or> fu = ''%u''"
    and insts: "insts = map (instance_for cmd (ex_out x) fu idx) args"
    by (auto simp: gen_entry_args_def split: if_splits option.splits)
  show "1 < length args" by fact
  show "length insts = length args" by (simp add: insts)
  assume i: "i < length args"
  have "tracks (args ! i) expand_start expand_start" by (simp add: tracks_def)
  from tracks_toks[OF n this x] obtain y
    where y: "expand_toks [args ! i] ctx toks expand_start = Inr y" "tracks (args ! i) x y" by blast
  with f fu have "ex_field y = Some fu" "ex_idx y = Some idx" "ex_out x ! idx = fu"
    "ex_out y = (ex_out x)[idx := field_word fu (args ! i)]"
    by (auto simp: tracks_def standalone_def)
  then show "gen_entry_args exec [args ! i] ctx = Inr (Single (insts ! i))"
    using ex y(1) i fu insts by (auto simp: gen_entry_args_def instance_for_def field_word_def)
qed

end
