(* ===== verification/Util.thy ===== *)
theory Util
  imports Fs
begin

unbundle bit_operations_syntax

text \<open>
  src/util/mod.rs: looking up a command on the search path and the number of the foreground virtual
  terminal. \<open>metadata()\<close> of an existing file is taken to succeed.
\<close>

definition is_executable :: "fs \<Rightarrow> string \<Rightarrow> bool" where
  "is_executable s p \<longleftrightarrow> file_at s p \<noteq> None \<and> fs_mode s p AND 0x49 \<noteq> 0"

definition which :: "fs \<Rightarrow> env \<Rightarrow> string \<Rightarrow> string option" where
  "which s penv cmd =
     (if cmd = [] then None
      else if SLASH \<in> set cmd then (if is_executable s cmd then Some cmd else None)
      else (case bm_get penv ''PATH'' of
              None \<Rightarrow> None
            | Some path \<Rightarrow>
                List.find (is_executable s) (map (\<lambda>dir. path_join dir cmd) (split_on (CHR '':'') path))))"

lemma which_executable: "which s penv cmd = Some p \<Longrightarrow> is_executable s p \<and> cmd \<noteq> []"
  by (auto simp: which_def find_Some_iff split: if_splits option.splits)

text \<open>Directories earlier on the search path win.\<close>

lemma which_first:
  assumes "which s penv cmd = Some p" "SLASH \<notin> set cmd"
  shows "\<exists>path pre d post. bm_get penv ''PATH'' = Some path \<and>
    split_on (CHR '':'') path = pre @ d # post \<and> p = path_join d cmd \<and>
    (\<forall>e\<in>set pre. \<not> is_executable s (path_join e cmd))"
proof -
  from assms obtain path where path: "bm_get penv ''PATH'' = Some path"
    and f: "List.find (is_executable s) (map (\<lambda>d. path_join d cmd) (split_on (CHR '':'') path)) = Some p"
    by (auto simp: which_def split: if_splits option.splits)
  let ?ds = "split_on (CHR '':'') path"
  from f obtain i where i: "i < length ?ds" "p = path_join (?ds ! i) cmd"
    "\<forall>j<i. \<not> is_executable s (path_join (?ds ! j) cmd)"
    by (auto simp: find_Some_iff)
  have "?ds = take i ?ds @ ?ds ! i # drop (Suc i) ?ds" using i(1) by (simp add: id_take_nth_drop)
  moreover have "\<forall>e\<in>set (take i ?ds). \<not> is_executable s (path_join e cmd)"
    using i by (auto simp: in_set_conv_nth)
  ultimately show ?thesis using path i(2) by blast
qed

definition VT_FILE :: string where
  "VT_FILE = ''/sys/class/tty/tty0/active''"

definition read_fg_vt :: "fs \<Rightarrow> nat result" where
  "read_fg_vt s =
     rbind (map_err (Io VT_FILE) (std_read s VT_FILE)) (\<lambda>raw.
     ok_or
       (case strip_prefix ''tty'' (trim raw) of None \<Rightarrow> None | Some n \<Rightarrow> parse_u32 n)
       (Resolve (''unexpected foreground VT: '' @ debug_str (trim raw))))"

end
