(* ===== verification/Entry.thy ===== *)
theory Entry
  imports Field Util
begin

text \<open>
  Desktop entries, src/app/entry.rs: the parser, lookups with locales, and the validity checks. The
  lemmas say that a written entry reads back, and what a valid entry is known to have.
\<close>

section \<open>Parsing\<close>

record desktop_entry =
  de_filename :: string
  de_groups :: "(string, env) bmap"

definition group_header :: "string \<Rightarrow> string option" where
  "group_header trimmed =
     (case strip_prefix ''['' trimmed of None \<Rightarrow> None | Some r \<Rightarrow> strip_suffix '']'' r)"

text \<open>\<open>groups.entry(name).or_default()\<close>, and \<open>groups.get_mut(g).unwrap().insert(k, v)\<close>: the current
  group is always present.\<close>

definition open_group :: "string \<Rightarrow> (string, env) bmap \<Rightarrow> (string, env) bmap" where
  "open_group name groups = (if bm_has groups name then groups else bm_insert name [] groups)"

definition set_key :: "string \<Rightarrow> string \<Rightarrow> string \<Rightarrow> (string, env) bmap \<Rightarrow> (string, env) bmap" where
  "set_key g k v groups = bm_insert g (bm_insert k v (unwrap_or (bm_get groups g) [])) groups"

definition entry_line ::
  "string \<Rightarrow> (string, env) bmap \<times> string option \<Rightarrow> (string, env) bmap \<times> string option" where
  "entry_line raw st =
     (let (groups, current) = st;
          line = drop_trailing CR raw;
          trimmed = trim line
      in if trimmed = [] \<or> starts_with ''#'' trimmed then st
         else (case group_header trimmed of
                 Some name \<Rightarrow> (open_group name groups, Some name)
               | None \<Rightarrow>
                   (case (split_once (CHR ''='') line, current) of
                      (Some (k, v), Some g) \<Rightarrow> (set_key g (trim k) v groups, current)
                    | _ \<Rightarrow> st)))"

fun entry_lines ::
  "string list \<Rightarrow> (string, env) bmap \<times> string option \<Rightarrow> (string, env) bmap \<times> string option" where
  "entry_lines [] st = st"
| "entry_lines (l # ls) st = entry_lines ls (entry_line l st)"

definition entry_parse :: "string \<Rightarrow> string \<Rightarrow> desktop_entry result" where
  "entry_parse filename content =
     (let groups = fst (entry_lines (lines content) ([], None))
      in if \<not> bm_has groups ''Desktop Entry''
         then Inl (InvalidArg (filename @ '': missing [Desktop Entry] group''))
         else Inr \<lparr>de_filename = filename, de_groups = groups\<rparr>)"

section \<open>Lookups\<close>

definition entry_group :: "desktop_entry \<Rightarrow> string option \<Rightarrow> env option" where
  "entry_group e action =
     (case action of
        None \<Rightarrow> bm_get (de_groups e) ''Desktop Entry''
      | Some a \<Rightarrow> bm_get (de_groups e) (''Desktop Action '' @ a))"

definition entry_get :: "desktop_entry \<Rightarrow> string \<Rightarrow> string option \<Rightarrow> string option" where
  "entry_get e key action =
     (case entry_group e action of None \<Rightarrow> None | Some g \<Rightarrow> bm_get g key)"

definition split_list :: "string option \<Rightarrow> string list" where
  "split_list v = filter (\<lambda>s. s \<noteq> []) (split_on (CHR '';'') (unwrap_or v []))"

definition split_colon :: "string \<Rightarrow> string list" where
  "split_colon s = filter (\<lambda>s. s \<noteq> []) (split_on (CHR '':'') s)"

definition locale_candidates :: "env \<Rightarrow> string list" where
  "locale_candidates penv =
     (case filter (\<lambda>s. s \<noteq> [])
             (List.map_filter (bm_get penv) [''LANGUAGE'', ''LC_ALL'', ''LC_MESSAGES'', ''LANG'']) of
        [] \<Rightarrow> []
      | s # _ \<Rightarrow> filter (\<lambda>v. v \<noteq> []) (split_on (CHR '':'') s))"

definition locale_variants :: "string \<Rightarrow> string list" where
  "locale_variants loc =
     (let no_codeset = hd (split_on (CHR ''.'') loc);
          (base, modifier) =
            (case split_once (CHR ''@'') no_codeset of
               Some (b, m) \<Rightarrow> (b, Some m)
             | None \<Rightarrow> (no_codeset, None));
          lang = hd (split_on (CHR ''_'') base);
          with_mod = (\<lambda>b. case modifier of Some m \<Rightarrow> [b @ ''@'' @ m] | None \<Rightarrow> [])
      in with_mod base @ [base] @ (if lang \<noteq> base then with_mod lang @ [lang] else []))"

fun push_new :: "string list \<Rightarrow> string list \<Rightarrow> string list" where
  "push_new out [] = out"
| "push_new out (v # vs) = push_new (if v \<in> set out then out else out @ [v]) vs"

definition locale_variant_chain :: "env \<Rightarrow> string list" where
  "locale_variant_chain penv = push_new [] (concat (map locale_variants (locale_candidates penv)))"

definition entry_get_localized ::
  "env \<Rightarrow> desktop_entry \<Rightarrow> string \<Rightarrow> string option \<Rightarrow> string option" where
  "entry_get_localized penv e key action =
     (case entry_group e action of
        None \<Rightarrow> None
      | Some g \<Rightarrow>
          (case List.map_filter (\<lambda>cand. bm_get g (key @ ''['' @ cand @ '']'')) (locale_variant_chain penv) of
             v # _ \<Rightarrow> Some (expand_str v)
           | [] \<Rightarrow> map_option expand_str (bm_get g key)))"

definition entry_exec :: "desktop_entry \<Rightarrow> string option \<Rightarrow> string list result" where
  "entry_exec e action =
     rbind (ok_or (entry_get e ''Exec'' action) (InvalidArg (de_filename e @ '': no Exec''))) (\<lambda>raw.
     tokenize_exec (expand_str raw))"

definition entry_terminal :: "desktop_entry \<Rightarrow> bool" where
  "entry_terminal e \<longleftrightarrow> entry_get e ''Terminal'' None = Some ''true''"

definition entry_path :: "desktop_entry \<Rightarrow> string option" where
  "entry_path e = opt_filter (\<lambda>s. s \<noteq> []) (entry_get e ''Path'' None)"

definition entry_actions :: "desktop_entry \<Rightarrow> string list" where
  "entry_actions e = split_list (entry_get e ''Actions'' None)"

definition entry_categories :: "desktop_entry \<Rightarrow> string list" where
  "entry_categories e = split_list (entry_get e ''Categories'' None)"

section \<open>Validity\<close>

definition none_or_empty :: "string option \<Rightarrow> bool" where
  "none_or_empty v = (case v of None \<Rightarrow> True | Some s \<Rightarrow> s = [])"

definition check_action :: "desktop_entry \<Rightarrow> string \<Rightarrow> unit result" where
  "check_action e a =
     (if a \<notin> set (entry_actions e)
      then Inl (InvalidArg (de_filename e @ '' has no action '' @ a))
      else (case entry_group e (Some a) of
              None \<Rightarrow> Inl (InvalidArg (de_filename e @ '' has no action group for '' @ a))
            | Some grp \<Rightarrow>
                if none_or_empty (bm_get grp ''Name'')
                then Inl (InvalidArg (de_filename e @ '' action '' @ a @ '' does not have Name''))
                else if none_or_empty (bm_get grp ''Exec'')
                then Inl (InvalidArg (de_filename e @ '' action '' @ a @ '' does not have Exec''))
                else Inr ()))"

definition check_basic :: "fs \<Rightarrow> env \<Rightarrow> desktop_entry \<Rightarrow> string option \<Rightarrow> unit result" where
  "check_basic s penv e action =
     (if entry_get e ''Type'' None \<noteq> Some ''Application''
      then Inl (InvalidArg (de_filename e @ '' is not Type=Application''))
      else if none_or_empty (entry_get e ''Name'' None)
      then Inl (InvalidArg (de_filename e @ '' has no Name''))
      else if entry_get e ''Hidden'' None = Some ''true''
      then Inl (InvalidArg (de_filename e @ '' is hidden''))
      else
        rbind
          (case entry_get e ''TryExec'' None of
             Some tx \<Rightarrow>
               if tx \<noteq> [] \<and> which s penv tx = None
               then Inl (InvalidArg (de_filename e @ '' discarded by TryExec ('' @ tx @ '')''))
               else Inr ()
           | None \<Rightarrow> Inr ()) (\<lambda>_.
        rbind (case action of Some a \<Rightarrow> check_action e a | None \<Rightarrow> Inr ()) (\<lambda>_.
        rbind (entry_exec e action) (\<lambda>exec.
        case exec of
          [] \<Rightarrow> Inl (InvalidArg (de_filename e @ '': empty Exec''))
        | cmd # _ \<Rightarrow>
            if cmd = [] then Inl (InvalidArg (de_filename e @ '': empty Exec''))
            else if which s penv cmd = None
            then Inl (InvalidArg (de_filename e @ '' points to missing executable '' @ cmd))
            else Inr ()))))"

definition check_showin :: "env \<Rightarrow> desktop_entry \<Rightarrow> unit result" where
  "check_showin penv e =
     (let xcd = split_colon (unwrap_or (bm_get penv ''XDG_CURRENT_DESKTOP'') []);
          osi = split_list (entry_get e ''OnlyShowIn'' None);
          nsi = split_list (entry_get e ''NotShowIn'' None)
      in if osi \<noteq> [] \<and> \<not> list_ex (\<lambda>d. d \<in> set xcd) osi
         then Inl (InvalidArg (de_filename e @ '' discarded by OnlyShowIn''))
         else if nsi \<noteq> [] \<and> list_ex (\<lambda>d. d \<in> set xcd) nsi
         then Inl (InvalidArg (de_filename e @ '' discarded by NotShowIn''))
         else Inr ())"

section \<open>What a valid entry has\<close>

definition try_ok :: "fs \<Rightarrow> env \<Rightarrow> desktop_entry \<Rightarrow> bool" where
  "try_ok s penv e \<longleftrightarrow>
     (case entry_get e ''TryExec'' None of None \<Rightarrow> True | Some tx \<Rightarrow> tx = [] \<or> which s penv tx \<noteq> None)"

definition action_ok :: "desktop_entry \<Rightarrow> string \<Rightarrow> bool" where
  "action_ok e a \<longleftrightarrow> a \<in> set (entry_actions e) \<and>
     \<not> none_or_empty (entry_get e ''Name'' (Some a)) \<and> \<not> none_or_empty (entry_get e ''Exec'' (Some a))"

definition command_ok :: "fs \<Rightarrow> env \<Rightarrow> string list \<Rightarrow> bool" where
  "command_ok s penv exec \<longleftrightarrow>
     (case exec of [] \<Rightarrow> False | cmd # _ \<Rightarrow> which s penv cmd \<noteq> None)"

lemma none_or_empty_None [simp]: "none_or_empty None"
  by (simp add: none_or_empty_def)

lemma check_action_ok: "check_action e a = Inr () \<longleftrightarrow> action_ok e a"
  by (cases "entry_group e (Some a)") (auto simp: check_action_def action_ok_def entry_get_def)

lemma which_Nil [simp]: "which s penv [] = None"
  by (simp add: which_def)

lemma check_command_ok:
  "(case exec of
      [] \<Rightarrow> Inl x
    | cmd # _ \<Rightarrow> if cmd = [] then Inl x else if which s penv cmd = None then Inl (y cmd) else Inr ()) = Inr ()
   \<longleftrightarrow> command_ok s penv exec"
  by (auto simp: command_ok_def split: list.split)

lemma check_basic_ok:
  "check_basic s penv e action = Inr () \<longleftrightarrow>
     entry_get e ''Type'' None = Some ''Application'' \<and>
     \<not> none_or_empty (entry_get e ''Name'' None) \<and>
     entry_get e ''Hidden'' None \<noteq> Some ''true'' \<and>
     try_ok s penv e \<and> (\<forall>a. action = Some a \<longrightarrow> action_ok e a) \<and>
     (\<exists>exec. entry_exec e action = Inr exec \<and> command_ok s penv exec)"
proof -
  have a: "(case action of Some a \<Rightarrow> check_action e a | None \<Rightarrow> Inr ()) = Inr () \<longleftrightarrow>
      (\<forall>a. action = Some a \<longrightarrow> action_ok e a)"
    by (cases action) (simp_all add: check_action_ok)
  show ?thesis
    unfolding check_basic_def using a
    by (simp add: rbind_Inr_iff check_command_ok try_ok_def split: option.split)
qed

section \<open>Written entries read back\<close>

definition render_key :: "string \<times> string \<Rightarrow> string" where
  "render_key p = fst p @ ''='' @ snd p"

definition render_group :: "string \<times> env \<Rightarrow> string list" where
  "render_group g = (''['' @ fst g @ '']'') # map render_key (snd g)"

definition entry_render :: "(string, env) bmap \<Rightarrow> string" where
  "entry_render groups = unlines (concat (map render_group groups))"

text \<open>Keys of visible ASCII characters that begin neither a comment nor a group and hold no equals
  sign; values of one line that do not end in a carriage return.\<close>

definition key_ok :: "string \<Rightarrow> bool" where
  "key_ok k \<longleftrightarrow> k \<noteq> [] \<and> (\<forall>c\<in>set k. graphic c \<and> c \<noteq> CHR ''='') \<and> hd k \<noteq> CHR ''#'' \<and> hd k \<noteq> CHR ''[''"

definition value_ok :: "string \<Rightarrow> bool" where
  "value_ok v \<longleftrightarrow> NL \<notin> set v \<and> (v = [] \<or> last v \<noteq> CR)"

definition groups_ok :: "(string, env) bmap \<Rightarrow> bool" where
  "groups_ok groups \<longleftrightarrow> bm_wf groups \<and>
     (\<forall>g\<in>set groups. NL \<notin> set (fst g) \<and> bm_wf (snd g) \<and>
        (\<forall>p\<in>set (snd g). key_ok (fst p) \<and> value_ok (snd p)))"

lemma bm_insert_last: "\<forall>k\<in>set (map fst m). k < n \<Longrightarrow> bm_insert n v m = m @ [(n, v)]"
  by (induction m) (auto simp: less_not_sym)

lemma bm_insert_over: "\<forall>k\<in>set (map fst m). k < n \<Longrightarrow> bm_insert n v (m @ [(n, w)]) = m @ [(n, v)]"
  by (induction m) (auto simp: less_not_sym)

lemma bm_get_last: "\<forall>k\<in>set (map fst m). k < (n :: 'k :: linorder) \<Longrightarrow> bm_get (m @ [(n, w)]) n = Some w"
  by (induction m) (auto simp: bm_get_def)

lemma ws_len_rev_before: "graphic c \<Longrightarrow> ws_len_rev (t @ [c]) \<le> length t"
  using graphic_not_lead[of c]
  by (cases "t @ [c]" rule: ws_len_rev.cases; cases t rule: rev_cases)
     (auto simp: graphic_not_ws ws_tail_def Cons_eq_append_conv append_eq_Cons_conv)

lemma trim_rev_graphic: "graphic c \<Longrightarrow> \<exists>t'. trim_rev (t @ [c]) = t' @ [c]"
proof (induction "length t" arbitrary: t rule: less_induct)
  case less
  show ?case
  proof (cases "ws_len_rev (t @ [c]) = 0")
    case True
    then show ?thesis by (subst trim_rev.simps) simp
  next
    case False
    have n: "ws_len_rev (t @ [c]) \<le> length t" by (rule ws_len_rev_before[OF less.prems])
    have "length (drop (ws_len_rev (t @ [c])) t) < length t" using False n by simp
    from less.hyps[OF this less.prems] obtain t'
      where "trim_rev (drop (ws_len_rev (t @ [c])) t @ [c]) = t' @ [c]" by blast
    with False n show ?thesis by (subst trim_rev.simps) simp
  qed
qed

lemma trim_graphic_hd: "graphic c \<Longrightarrow> \<exists>t. trim (c # s) = c # t"
proof -
  assume g: "graphic c"
  obtain t where "trim_rev (rev s @ [c]) = t @ [c]" using trim_rev_graphic[OF g] by blast
  then show ?thesis by (simp add: trim_def trim_start_id ws_len_graphic[OF g] trim_end_def)
qed

lemma key_line:
  assumes "key_ok k" "value_ok v"
  shows "entry_line (render_key (k, v)) (groups, Some g) = (set_key g k v groups, Some g)"
proof -
  from assms(1) obtain c r where k: "k = c # r" "graphic c" "c \<noteq> CHR ''#''" "c \<noteq> CHR ''[''"
    by (cases k) (auto simp: key_ok_def)
  have "drop_trailing CR (k @ ''='' @ v) = k @ ''='' @ v"
    using assms(2) by (intro drop_trailing_id) (auto simp: value_ok_def)
  moreover obtain t where "trim (k @ ''='' @ v) = c # t"
    using trim_graphic_hd[OF k(2)] k(1) by auto
  moreover have "trim k = k" using assms(1) by (intro trim_graphic) (simp add: key_ok_def)
  moreover have "split_once (CHR ''='') (k @ ''='' @ v) = Some (k, v)"
    using assms(1) by (auto simp: key_ok_def str_simps)
  moreover have "\<not> starts_with ''#'' (c # t)" "group_header (c # t) = None" for t
    using k(3,4) by (simp_all add: starts_with_def group_header_def)
  ultimately show ?thesis
    by (simp add: entry_line_def render_key_def split del: if_split)
qed

lemma group_line:
  "entry_line (''['' @ g @ '']'') (groups, cur) = (open_group g groups, Some g)"
proof -
  have gr: "graphic (CHR ''['')" "graphic (CHR '']'')" by (simp_all add: graphic_def)
  have "drop_trailing CR (''['' @ g @ '']'') = ''['' @ g @ '']''" by (intro drop_trailing_id) simp
  moreover have "trim (''['' @ g @ '']'') = ''['' @ g @ '']''"
    by (intro trim_id) (simp_all add: ws_len_graphic ws_len_rev_graphic gr)
  moreover have "group_header (''['' @ g @ '']'') = Some g"
    by (simp add: group_header_def)
  ultimately show ?thesis by (simp add: entry_line_def starts_with_def)
qed

lemma key_lines:
  assumes "\<forall>p\<in>set ps. key_ok (fst p) \<and> value_ok (snd p)" "bm_wf (qs @ ps)"
    "\<forall>k\<in>set (map fst m). k < g"
  shows "entry_lines (map render_key ps @ ls) (m @ [(g, qs)], Some g) =
    entry_lines ls (m @ [(g, qs @ ps)], Some g)"
  using assms
proof (induction ps arbitrary: qs)
  case (Cons p ps)
  have "\<forall>k\<in>set (map fst qs). k < fst p" using Cons.prems(2) by (auto simp: bm_wf_def sorted_wrt_append)
  then have "set_key g (fst p) (snd p) (m @ [(g, qs)]) = m @ [(g, qs @ [p])]"
    using Cons.prems(3) by (simp add: set_key_def bm_get_last bm_insert_over bm_insert_last)
  moreover have "entry_line (render_key p) (m @ [(g, qs)], Some g) =
      (set_key g (fst p) (snd p) (m @ [(g, qs)]), Some g)"
    using key_line[of "fst p" "snd p"] Cons.prems(1) by simp
  ultimately show ?case using Cons.IH[of "qs @ [p]"] Cons.prems by simp
qed simp

lemma group_lines:
  assumes "groups_ok (m @ gs)"
  shows "fst (entry_lines (concat (map render_group gs)) (m, cur)) = m @ gs"
  using assms
proof (induction gs arbitrary: m cur)
  case (Cons g gs)
  have lt: "\<forall>k\<in>set (map fst m). k < fst g" and wf: "bm_wf (snd g)"
    and ks: "\<forall>p\<in>set (snd g). key_ok (fst p) \<and> value_ok (snd p)"
    using Cons.prems by (auto simp: groups_ok_def bm_wf_def sorted_wrt_append)
  have op: "open_group (fst g) m = m @ [(fst g, [])]"
    using lt by (auto simp: open_group_def bm_has_def bm_insert_last)
  have "entry_lines (concat (map render_group (g # gs))) (m, cur) =
      entry_lines (concat (map render_group gs)) (m @ [g], Some (fst g))"
    using key_lines[OF ks _ lt, of "[]"] wf
    by (simp add: render_group_def group_line[simplified] op)
  with Cons.IH[of "m @ [g]"] Cons.prems show ?case by simp
qed simp

lemma entry_lines_clean:
  assumes "groups_ok gs" "l \<in> set (concat (map render_group gs))"
  shows "NL \<notin> set l" "strip_cr l = l"
proof -
  from assms obtain g where g: "g \<in> set gs" "l \<in> set (render_group g)" by auto
  have "NL \<notin> set l \<and> strip_cr l = l"
  proof (cases "l = ''['' @ fst g @ '']''")
    case True
    with g assms(1) show ?thesis by (auto simp: groups_ok_def strip_cr_def)
  next
    case False
    with g obtain p where p: "p \<in> set (snd g)" "l = render_key p" by (auto simp: render_group_def)
    with g assms(1) have "key_ok (fst p)" "value_ok (snd p)" by (auto simp: groups_ok_def)
    have "\<not> graphic NL" by (simp add: graphic_def)
    with \<open>key_ok (fst p)\<close> have "NL \<notin> set (fst p)" unfolding key_ok_def by blast
    moreover have "last (render_key p) \<noteq> CR" "NL \<notin> set (snd p)"
      using \<open>value_ok (snd p)\<close> by (auto simp: render_key_def value_ok_def)
    ultimately show ?thesis unfolding p(2) by (simp add: render_key_def strip_cr_def del: last_append)
  qed
  then show "NL \<notin> set l" "strip_cr l = l" by simp_all
qed

lemma entry_parse_render:
  assumes "groups_ok groups" "bm_has groups ''Desktop Entry''"
  shows "entry_parse fn (entry_render groups) = Inr \<lparr>de_filename = fn, de_groups = groups\<rparr>"
proof -
  have "lines (entry_render groups) = map strip_cr (concat (map render_group groups))"
    unfolding entry_render_def using entry_lines_clean(1)[OF assms(1)] by (intro lines_unlines) blast
  also have "\<dots> = concat (map render_group groups)"
    using entry_lines_clean(2)[OF assms(1)] by (intro map_idI)
  finally have "fst (entry_lines (lines (entry_render groups)) ([], None)) = groups"
    using group_lines[of "[]" groups None] assms(1) by simp
  with assms(2) show ?thesis by (simp add: entry_parse_def)
qed

text \<open>The codeset is cut off together with a modifier that follows it: the comment's example
  \<open>de_DE.UTF-8@mod\<close> loses its modifier.\<close>

lemma locale_modifier_lost: "locale_variants ''de_DE.UTF-8@mod'' = [''de_DE'', ''de'']"
  by code_simp

lemma locale_modifier_kept: "locale_variants ''de_DE@mod'' = [''de_DE@mod'', ''de_DE'', ''de@mod'', ''de'']"
  by code_simp

end
