(* ===== verification/Find.thy ===== *)
theory Find
  imports Entry "HOL-Library.Multiset"
begin

text \<open>
  Finding desktop entries by identifier, src/app/find.rs. The recursive walks over a directory are
  one recursion over the entries still to visit; a directory's entries have longer paths than the
  directory, so the multiset of the distances to the longest directory name decreases. An error in
  the middle of a directory listing, which the source passes on, does not occur in the file system
  model; a directory that cannot be listed does.

  The lemmas say that the walk is the first match in the listing, and that the listing is exactly
  the desktop files below the directory.
\<close>

section \<open>The walk ends\<close>

definition longest_dir :: "fs \<Rightarrow> nat" where
  "longest_dir s = foldr max (map length (fs_dirs s)) 0"

definition walk_weight :: "fs \<Rightarrow> string \<Rightarrow> nat" where
  "walk_weight s p = Suc (longest_dir s) - length (drop_trailing SLASH p)"

lemma longest_dir_ge: "is_dir s p \<Longrightarrow> length p \<le> longest_dir s"
proof -
  have "p \<in> set ds \<Longrightarrow> length p \<le> foldr max (map length ds) 0" for ds
    by (induction ds) auto
  then show "is_dir s p \<Longrightarrow> length p \<le> longest_dir s" by (simp add: is_dir_def longest_dir_def)
qed

lemma drop_trailing_idem: "drop_trailing c (drop_trailing c s) = drop_trailing c s"
  by (simp add: drop_trailing_def dropWhile_idem)

lemma path_parent_shorter:
  "path_parent q = Some d \<Longrightarrow> length d < length (drop_trailing SLASH q)"
  using length_path_parent[of "drop_trailing SLASH q" d]
  by (simp add: path_parent_def drop_trailing_idem)

lemma listed_weight:
  assumes "is_dir s p" "std_read_dir s p = Inr es" "q \<in> set es"
  shows "walk_weight s q < walk_weight s p"
proof -
  let ?d = "drop_trailing SLASH p"
  from assms(2,3) have "path_parent q = Some ?d"
    by (auto simp: std_read_dir_def dir_entries_def Let_def split: option.splits if_splits)
  then have "length ?d < length (drop_trailing SLASH q)" by (rule path_parent_shorter)
  moreover have "length ?d \<le> longest_dir s"
    using longest_dir_ge[OF assms(1)] length_drop_trailing[of SLASH p] by simp
  ultimately show ?thesis by (simp add: walk_weight_def)
qed

definition walk_order :: "((fs \<times> string list) \<times> (fs \<times> string list)) set" where
  "walk_order = {((s, ps), (t, qs)). s = t \<and>
     (image_mset (walk_weight s) (mset ps), image_mset (walk_weight s) (mset qs)) \<in> mult less_than}"

lemma wf_walk_order: "wf walk_order"
proof (rule wf_subset)
  show "wf (inv_image (mult less_than) (\<lambda>(s, ps). image_mset (walk_weight s) (mset ps)))"
    by (intro wf_inv_image wf_mult) simp
  show "walk_order \<subseteq> inv_image (mult less_than) (\<lambda>(s, ps). image_mset (walk_weight s) (mset ps))"
    by (auto simp: walk_order_def)
qed

lemma walk_order_rest: "((s, rest), (s, path # rest)) \<in> walk_order"
proof -
  have "(image_mset (walk_weight s) (mset rest), image_mset (walk_weight s) (mset rest) + {#walk_weight s path#})
      \<in> mult less_than"
    using one_step_implies_mult[of "{#walk_weight s path#}" "{#}" less_than "image_mset (walk_weight s) (mset rest)"]
    by simp
  then show ?thesis by (simp add: walk_order_def)
qed

lemma walk_order_listed:
  assumes "is_dir s path" "std_read_dir s path = Inr es"
  shows "((s, es), (s, path # rest)) \<in> walk_order"
proof -
  let ?W = "\<lambda>ps. image_mset (walk_weight s) (mset ps)"
  have "({#} + ?W es, {#} + ?W (path # rest)) \<in> mult less_than"
    using listed_weight[OF assms] by (intro one_step_implies_mult) auto
  then show ?thesis by (simp add: walk_order_def)
qed

section \<open>Listing\<close>

definition entry_id_of :: "string \<Rightarrow> string \<Rightarrow> string" where
  "entry_id_of base path = replace_all ''/'' ''-'' (unwrap_or (path_strip_prefix base path) path)"

definition is_desktop_file :: "string \<Rightarrow> bool" where
  "is_desktop_file path \<longleftrightarrow> path_extension path = Some ''desktop''"

function collect_entries :: "fs \<Rightarrow> string \<Rightarrow> string list \<Rightarrow> (string \<times> string) list" where
  "collect_entries s base [] = []"
| "collect_entries s base (path # rest) =
     (if is_dir s path
      then (case std_read_dir s path of Inl e \<Rightarrow> [] | Inr es \<Rightarrow> collect_entries s base es) @
           collect_entries s base rest
      else if \<not> is_desktop_file path then collect_entries s base rest
      else (entry_id_of base path, path) # collect_entries s base rest)"
  by pat_completeness auto
termination
  by (relation "inv_image walk_order (\<lambda>(s, _, ps). (s, ps))")
     (auto simp: wf_walk_order walk_order_rest walk_order_listed)

definition collect_dir :: "fs \<Rightarrow> string \<Rightarrow> string \<Rightarrow> (string \<times> string) list" where
  "collect_dir s base dir =
     (case std_read_dir s dir of Inl e \<Rightarrow> [] | Inr rd \<Rightarrow> collect_entries s base rd)"

definition list_entries :: "fs \<Rightarrow> env \<Rightarrow> string \<Rightarrow> (string \<times> string) list" where
  "list_entries s penv subpath =
     concat (map (\<lambda>base. let dir = path_join base subpath
                         in if is_dir s dir then collect_dir s dir dir else [])
       (data_paths penv))"

section \<open>Finding\<close>

definition read_entry :: "fs \<Rightarrow> string \<Rightarrow> desktop_entry result" where
  "read_entry s path = rbind (map_err (Io path) (std_read s path)) (entry_parse path)"

function walk_entries :: "fs \<Rightarrow> string \<Rightarrow> string \<Rightarrow> string list \<Rightarrow> desktop_entry option result" where
  "walk_entries s base i [] = Inr None"
| "walk_entries s base i (path # rest) =
     (if is_dir s path
      then rbind (case std_read_dir s path of Inl e \<Rightarrow> Inr None | Inr es \<Rightarrow> walk_entries s base i es)
             (\<lambda>r. case r of Some e \<Rightarrow> Inr (Some e) | None \<Rightarrow> walk_entries s base i rest)
      else if \<not> is_desktop_file path then walk_entries s base i rest
      else if entry_id_of base path = i then rbind (read_entry s path) (\<lambda>e. Inr (Some e))
      else walk_entries s base i rest)"
  by pat_completeness auto
termination
  by (relation "inv_image walk_order (\<lambda>(s, _, _, ps). (s, ps))")
     (auto simp: wf_walk_order walk_order_rest walk_order_listed)

definition walk_dir :: "fs \<Rightarrow> string \<Rightarrow> string \<Rightarrow> string \<Rightarrow> desktop_entry option result" where
  "walk_dir s base dir i =
     (case std_read_dir s dir of Inl e \<Rightarrow> Inr None | Inr rd \<Rightarrow> walk_entries s base i rd)"

fun find_in :: "fs \<Rightarrow> string \<Rightarrow> string \<Rightarrow> string list \<Rightarrow> desktop_entry option result" where
  "find_in s subpath i [] = Inr None"
| "find_in s subpath i (base # bases) =
     (let dir = path_join base subpath
      in if \<not> is_dir s dir then find_in s subpath i bases
         else rbind (walk_dir s dir dir i)
                (\<lambda>r. case r of Some e \<Rightarrow> Inr (Some e) | None \<Rightarrow> find_in s subpath i bases))"

definition find_entry :: "fs \<Rightarrow> env \<Rightarrow> string \<Rightarrow> string \<Rightarrow> desktop_entry option result" where
  "find_entry s penv subpath i = find_in s subpath i (data_paths penv)"

text \<open>\<open>find_first\<close> takes a predicate; unreadable and unparsable files are passed over.\<close>

function walk_pred_entries ::
  "fs \<Rightarrow> string \<Rightarrow> (string \<Rightarrow> desktop_entry \<Rightarrow> bool) \<Rightarrow> string list \<Rightarrow> desktop_entry option result" where
  "walk_pred_entries s base pred [] = Inr None"
| "walk_pred_entries s base pred (path # rest) =
     (if is_dir s path
      then rbind
             (case std_read_dir s path of Inl e \<Rightarrow> Inr None | Inr es \<Rightarrow> walk_pred_entries s base pred es)
             (\<lambda>r. case r of Some e \<Rightarrow> Inr (Some e) | None \<Rightarrow> walk_pred_entries s base pred rest)
      else if \<not> is_desktop_file path then walk_pred_entries s base pred rest
      else (case read_entry s path of
              Inl _ \<Rightarrow> walk_pred_entries s base pred rest
            | Inr e \<Rightarrow> if pred (entry_id_of base path) e then Inr (Some e)
                       else walk_pred_entries s base pred rest))"
  by pat_completeness auto
termination
  by (relation "inv_image walk_order (\<lambda>(s, _, _, ps). (s, ps))")
     (auto simp: wf_walk_order walk_order_rest walk_order_listed)

definition walk_pred ::
  "fs \<Rightarrow> string \<Rightarrow> string \<Rightarrow> (string \<Rightarrow> desktop_entry \<Rightarrow> bool) \<Rightarrow> desktop_entry option result" where
  "walk_pred s base dir pred =
     (case std_read_dir s dir of Inl e \<Rightarrow> Inr None | Inr rd \<Rightarrow> walk_pred_entries s base pred rd)"

fun find_first_in ::
  "fs \<Rightarrow> string \<Rightarrow> (string \<Rightarrow> desktop_entry \<Rightarrow> bool) \<Rightarrow> string list \<Rightarrow> desktop_entry option result" where
  "find_first_in s subpath pred [] = Inr None"
| "find_first_in s subpath pred (base # bases) =
     (let dir = path_join base subpath
      in if \<not> is_dir s dir then find_first_in s subpath pred bases
         else rbind (walk_pred s dir dir pred)
                (\<lambda>r. case r of Some e \<Rightarrow> Inr (Some e) | None \<Rightarrow> find_first_in s subpath pred bases))"

definition find_first ::
  "fs \<Rightarrow> env \<Rightarrow> string \<Rightarrow> (string \<Rightarrow> desktop_entry \<Rightarrow> bool) \<Rightarrow> desktop_entry option result" where
  "find_first s penv subpath pred = find_first_in s subpath pred (data_paths penv)"

section \<open>The walk is the first match of the listing\<close>

definition pick_entry :: "fs \<Rightarrow> string \<Rightarrow> (string \<times> string) list \<Rightarrow> desktop_entry option result" where
  "pick_entry s i found =
     (case List.find (\<lambda>e. fst e = i) found of
        None \<Rightarrow> Inr None
      | Some e \<Rightarrow> rbind (read_entry s (snd e)) (\<lambda>d. Inr (Some d)))"

lemma rbind_Some: "rbind (rbind r (\<lambda>d. Inr (Some d))) (\<lambda>r. case r of Some e \<Rightarrow> Inr (Some e) | None \<Rightarrow> x) =
    rbind r (\<lambda>d. Inr (Some d))"
  by (cases r) simp_all

lemma find_append:
  "List.find P (xs @ ys) = (case List.find P xs of Some x \<Rightarrow> Some x | None \<Rightarrow> List.find P ys)"
  by (induction xs) auto

lemma pick_entry_append:
  "pick_entry s i (xs @ ys) =
   rbind (pick_entry s i xs) (\<lambda>r. case r of Some e \<Rightarrow> Inr (Some e) | None \<Rightarrow> pick_entry s i ys)"
  by (simp add: pick_entry_def find_append rbind_Some split: option.split)

lemma pick_entry_Nil [simp]: "pick_entry s i [] = Inr None"
  by (simp add: pick_entry_def)

lemma pick_entry_Cons:
  "pick_entry s i (e # es) =
   (if fst e = i then rbind (read_entry s (snd e)) (\<lambda>d. Inr (Some d)) else pick_entry s i es)"
  by (simp add: pick_entry_def)

lemma walk_entries_pick: "walk_entries s base i ps = pick_entry s i (collect_entries s base ps)"
proof (induction s base ps rule: collect_entries.induct)
  case (2 s base path rest)
  show ?case
  proof (cases "is_dir s path")
    case True
    have "(case std_read_dir s path of Inl e \<Rightarrow> Inr None | Inr es \<Rightarrow> walk_entries s base i es) =
        pick_entry s i (case std_read_dir s path of Inl e \<Rightarrow> [] | Inr es \<Rightarrow> collect_entries s base es)"
      using "2.IH"(1)[OF True] by (simp split: sum.split)
    with True "2.IH"(2)[OF True] show ?thesis by (simp only: walk_entries.simps collect_entries.simps if_True pick_entry_append)
  next
    case False
    with "2.IH"(3,4) show ?thesis by (simp add: pick_entry_Cons)
  qed
qed simp

lemma walk_dir_pick: "walk_dir s base dir i = pick_entry s i (collect_dir s base dir)"
  by (simp add: walk_dir_def collect_dir_def walk_entries_pick split: sum.split)

lemma find_in_pick:
  "find_in s subpath i bases = pick_entry s i
     (concat (map (\<lambda>base. let dir = path_join base subpath
                          in if is_dir s dir then collect_dir s dir dir else []) bases))"
proof (induction bases)
  case (Cons base bases)
  then show ?case
    by (cases "is_dir s (path_join base subpath)")
       (simp_all add: Let_def walk_dir_pick pick_entry_append)
qed simp

lemma find_entry_pick: "find_entry s penv subpath i = pick_entry s i (list_entries s penv subpath)"
  by (simp add: find_entry_def list_entries_def find_in_pick)

section \<open>The listing is what lies below\<close>

definition listed :: "fs \<Rightarrow> string \<Rightarrow> string \<Rightarrow> bool" where
  "listed s dir q \<longleftrightarrow> (\<exists>es. std_read_dir s dir = Inr es \<and> q \<in> set es)"

inductive below :: "fs \<Rightarrow> string \<Rightarrow> string \<Rightarrow> bool" for s where
  here: "listed s dir p \<Longrightarrow> \<not> is_dir s p \<Longrightarrow> below s dir p"
| deeper: "listed s dir d \<Longrightarrow> is_dir s d \<Longrightarrow> below s d p \<Longrightarrow> below s dir p"

inductive_cases belowE: "below s dir p"

lemma below_iff:
  "below s dir p \<longleftrightarrow> (\<exists>q. listed s dir q \<and> (if is_dir s q then below s q p else q = p))"
  by (auto intro: below.intros elim: belowE)

lemma collect_entries_iff:
  "(i, p) \<in> set (collect_entries s base ps) \<longleftrightarrow>
   i = entry_id_of base p \<and> is_desktop_file p \<and> (\<exists>q\<in>set ps. if is_dir s q then below s q p else q = p)"
proof (induction s base ps rule: collect_entries.induct)
  case (2 s base path rest)
  show ?case
  proof (cases "is_dir s path")
    case True
    have "(i, p) \<in> set (case std_read_dir s path of Inl e \<Rightarrow> [] | Inr es \<Rightarrow> collect_entries s base es) \<longleftrightarrow>
        i = entry_id_of base p \<and> is_desktop_file p \<and> below s path p"
    proof (cases "std_read_dir s path")
      case (Inl e)
      then show ?thesis using below_iff[of s path p] by (simp add: listed_def)
    next
      case (Inr es)
      then show ?thesis
        using "2.IH"(1)[OF True Inr] below_iff[of s path p] by (auto simp: listed_def)
    qed
    with True "2.IH"(2)[OF True] show ?thesis by auto
  next
    case False
    show ?thesis
    proof (cases "is_desktop_file path")
      case d: True
      with False "2.IH"(4)[OF False] show ?thesis by auto
    next
      case nd: False
      with False "2.IH"(3)[OF False] show ?thesis by auto
    qed
  qed
qed simp

lemma collect_dir_iff:
  "(i, p) \<in> set (collect_dir s base dir) \<longleftrightarrow> i = entry_id_of base p \<and> is_desktop_file p \<and> below s dir p"
proof (cases "std_read_dir s dir")
  case (Inl e)
  then show ?thesis unfolding below_iff[of s dir p] by (simp add: collect_dir_def listed_def)
next
  case (Inr es)
  then show ?thesis
    unfolding below_iff[of s dir p]
    by (simp add: collect_dir_def listed_def collect_entries_iff Bex_def)
qed

lemma list_entries_iff:
  "(i, p) \<in> set (list_entries s penv subpath) \<longleftrightarrow>
   (\<exists>base\<in>set (data_paths penv). let dir = path_join base subpath in
      is_dir s dir \<and> i = entry_id_of dir p \<and> is_desktop_file p \<and> below s dir p)"
  by (auto simp: list_entries_def collect_dir_iff Let_def)

end
