(* ===== verification/Comp.thy ===== *)
theory Comp
  imports Find Escape Plan
begin

text \<open>
  Classifying the main argument and resolving the compositor, src/comp.rs. Paths are byte strings
  (\<open>PathBuf::from\<close> keeps them). The lemmas say what a resolved compositor is known to satisfy, and
  with it that the drop-in paths built from its identifier stay in the unit directory.
\<close>

section \<open>The main argument\<close>

record main_arg =
  ma_entry_id :: "string option"
  ma_entry_action :: "string option"
  ma_executable :: "string option"
  ma_path :: "string option"

definition is_action_id :: "string \<Rightarrow> bool" where
  "is_action_id s \<longleftrightarrow> s \<noteq> [] \<and> list_all (\<lambda>c. is_alnum c \<or> c = CHR ''-'') s"

definition entry_id_char :: "char \<Rightarrow> bool" where
  "entry_id_char c \<longleftrightarrow> is_alnum c \<or> c \<in> {CHR ''_'', CHR ''.'', CHR ''-''}"

definition is_entry_id :: "string \<Rightarrow> bool" where
  "is_entry_id s \<longleftrightarrow>
     ends_with ''.desktop'' s \<and>
     (case s of c # _ \<Rightarrow> is_alnum c \<or> c = CHR ''_'' | [] \<Rightarrow> False) \<and>
     list_all entry_id_char s"

definition is_wm_id :: "string \<Rightarrow> bool" where
  "is_wm_id s \<longleftrightarrow> s \<noteq> [] \<and> list_all (\<lambda>c. entry_id_char c \<or> c = CHR '':'') s"

text \<open>\<open>p.rsplit('/').next()\<close>: what follows the last slash.\<close>

definition file_basename :: "string \<Rightarrow> string" where
  "file_basename p = last_component p"

definition normalize_user_path :: "env \<Rightarrow> string \<Rightarrow> string" where
  "normalize_user_path penv p =
     (case strip_prefix ''~/'' p of
        Some rest \<Rightarrow> (case bm_get penv ''HOME'' of Some home \<Rightarrow> home @ ''/'' @ rest | None \<Rightarrow> p)
      | None \<Rightarrow> p)"

definition split_action :: "string \<Rightarrow> (string \<times> string option) result" where
  "split_action arg =
     (case split_once (CHR '':'') arg of
        Some (i, action) \<Rightarrow>
          if action \<noteq> [] then
            (if \<not> is_action_id action
             then Inl (InvalidArg (''invalid Desktop Entry Action '' @ [DQ] @ action @ [DQ]))
             else Inr (i, Some action))
          else Inr (i, None)
      | None \<Rightarrow> Inr (arg, None))"

definition main_arg_parse :: "env \<Rightarrow> string \<Rightarrow> main_arg result" where
  "main_arg_parse penv arg =
     (if ends_with ''.desktop'' arg \<or> contains_str ''.desktop:'' arg then
        rbind (split_action arg) (\<lambda>(i, action).
        let path = (if SLASH \<in> set i then Some (normalize_user_path penv i) else None);
            entry_id = (case path of Some p \<Rightarrow> unwrap_or (path_file_name p) i | None \<Rightarrow> i)
        in if path = None \<and> \<not> is_entry_id entry_id
           then Inl (InvalidArg (''invalid Desktop Entry ID '' @ [DQ] @ entry_id @ [DQ]))
           else Inr \<lparr>ma_entry_id = Some entry_id, ma_entry_action = action,
                     ma_executable = None, ma_path = path\<rparr>)
      else Inr \<lparr>ma_entry_id = None, ma_entry_action = None, ma_executable = Some arg,
                ma_path = (if SLASH \<in> set arg then Some (normalize_user_path penv arg) else None)\<rparr>)"

section \<open>Resolution\<close>

record comp_globals =
  cg_cmdline :: "string list"
  cg_id :: string
  cg_id_unit_string :: string
  cg_bin_name :: string
  cg_bin_id :: string
  cg_desktop_names :: "string list"
  cg_name :: "string option"
  cg_description :: "string option"
  cg_cli_desktop_names :: "string list"
  cg_cli_desktop_names_exclusive :: bool

record resolve_input =
  ri_wm_cmdline :: "string list"
  ri_desktop_names :: "string list"
  ri_desktop_names_exclusive :: bool
  ri_name :: "string option"
  ri_description :: "string option"
  ri_xdg_current_desktop :: "string list"

definition is_word :: "char \<Rightarrow> bool" where
  "is_word c \<longleftrightarrow> is_alnum c \<or> c = CHR ''_''"

text \<open>The loop from the second character on, and the first character's own rule.\<close>

function sanitize_loop :: "string \<Rightarrow> string" where
  "sanitize_loop [] = []"
| "sanitize_loop (c # s) =
     (if \<not> is_word c then CHR ''_'' # sanitize_loop (dropWhile (\<lambda>x. \<not> is_word x) s)
      else c # sanitize_loop s)"
  by pat_completeness auto
termination
  by (relation "measure length") (auto simp: le_imp_less_Suc length_dropWhile_le)

definition sanitize_bin_id :: "string \<Rightarrow> string" where
  "sanitize_bin_id name =
     lower_str
       (case name of
          [] \<Rightarrow> []
        | c # s \<Rightarrow>
            if \<not> is_alpha c then CHR ''_'' # sanitize_loop (dropWhile (\<lambda>x. \<not> is_word x) s)
            else c # sanitize_loop s)"

fun dedup_preserving :: "string list \<Rightarrow> string list \<Rightarrow> string list" where
  "dedup_preserving seen [] = []"
| "dedup_preserving seen (x # xs) =
     (if x \<in> set seen then dedup_preserving seen xs else x # dedup_preserving (x # seen) xs)"

text \<open>The merge of desktop names, the same in both branches; a bare executable has none of its own.\<close>

definition merge_desktop_names :: "resolve_input \<Rightarrow> string list \<Rightarrow> string \<Rightarrow> string list" where
  "merge_desktop_names input entry_dn bin_name =
     dedup_preserving []
       (if ri_desktop_names_exclusive input then ri_desktop_names input
        else (let ns = ri_xdg_current_desktop input @ ri_desktop_names input @ entry_dn
              in if ns = [] then [bin_name] else ns))"

definition wm_id_error :: "string \<Rightarrow> error" where
  "wm_id_error i = Resolve ([DQ] @ i @ [DQ] @ '' is not a valid compositor id'')"

definition load_comp_entry :: "fs \<Rightarrow> env \<Rightarrow> main_arg \<Rightarrow> string \<Rightarrow> desktop_entry result" where
  "load_comp_entry s penv main entry_id =
     (case ma_path main of
        Some p \<Rightarrow> read_entry s p
      | None \<Rightarrow>
          rbind (find_entry s penv ''wayland-sessions'' entry_id) (\<lambda>found.
          ok_or found (Resolve (''compositor entry not found: '' @ entry_id))))"

definition resolve_entry ::
  "fs \<Rightarrow> env \<Rightarrow> resolve_input \<Rightarrow> main_arg \<Rightarrow> string \<Rightarrow> comp_globals result" where
  "resolve_entry s penv input main entry_id =
     rbind (load_comp_entry s penv main entry_id) (\<lambda>entry.
     let action = ma_entry_action main
     in rbind (check_basic s penv entry action) (\<lambda>_.
        rbind (entry_exec entry action) (\<lambda>exec.
        let cmdline = exec @ drop 1 (ri_wm_cmdline input)
        in if \<not> is_wm_id entry_id then Inl (wm_id_error entry_id)
           else
             (let bin_name = file_basename (case cmdline of c # _ \<Rightarrow> c | [] \<Rightarrow> entry_id);
                  entry_dn = split_list (entry_get entry ''DesktopNames'' None)
              in Inr
                \<lparr>cg_cmdline = cmdline, cg_id = entry_id,
                 cg_id_unit_string = simple_systemd_escape entry_id False,
                 cg_bin_name = bin_name, cg_bin_id = sanitize_bin_id bin_name,
                 cg_desktop_names = merge_desktop_names input entry_dn bin_name,
                 cg_name = opt_or_else (ri_name input) (entry_get_localized penv entry ''Name'' action),
                 cg_description =
                   opt_or_else (ri_description input) (entry_get_localized penv entry ''Comment'' action),
                 cg_cli_desktop_names = ri_desktop_names input,
                 cg_cli_desktop_names_exclusive = ri_desktop_names_exclusive input\<rparr>))))"

definition comp_resolve :: "fs \<Rightarrow> env \<Rightarrow> resolve_input \<Rightarrow> comp_globals result" where
  "comp_resolve s penv input =
     (case ri_wm_cmdline input of
        [] \<Rightarrow> Inl (InvalidArg ''no compositor command given'')
      | arg0 # _ \<Rightarrow>
          rbind (main_arg_parse penv arg0) (\<lambda>main.
          case ma_entry_id main of
            Some entry_id \<Rightarrow> resolve_entry s penv input main entry_id
          | None \<Rightarrow>
              (let i = file_basename arg0
               in if \<not> is_wm_id i then Inl (wm_id_error i)
                  else Inr
                    \<lparr>cg_cmdline = ri_wm_cmdline input, cg_id = i,
                     cg_id_unit_string = simple_systemd_escape i False,
                     cg_bin_name = i, cg_bin_id = sanitize_bin_id i,
                     cg_desktop_names = merge_desktop_names input [] i,
                     cg_name = ri_name input, cg_description = ri_description input,
                     cg_cli_desktop_names = ri_desktop_names input,
                     cg_cli_desktop_names_exclusive = ri_desktop_names_exclusive input\<rparr>)))"

section \<open>What a resolved compositor satisfies\<close>

lemma dedup_set: "set (dedup_preserving seen xs) = set xs - set seen"
  by (induction seen xs rule: dedup_preserving.induct) auto

lemma dedup_distinct: "distinct (dedup_preserving seen xs)"
  by (induction seen xs rule: dedup_preserving.induct) (auto simp: dedup_set)

lemma merge_distinct: "distinct (merge_desktop_names input dn b)"
  by (simp add: merge_desktop_names_def dedup_distinct Let_def)

lemma merge_set:
  "\<not> ri_desktop_names_exclusive input \<Longrightarrow> set (merge_desktop_names input dn b) \<noteq> {} \<and>
   set (ri_xdg_current_desktop input) \<union> set (ri_desktop_names input) \<union> set dn
     \<subseteq> set (merge_desktop_names input dn b)"
  by (auto simp: merge_desktop_names_def dedup_set Let_def)

text \<open>Names a POSIX shell accepts for a function.\<close>

definition bin_id_char :: "char \<Rightarrow> bool" where
  "bin_id_char c \<longleftrightarrow> is_lower c \<or> is_digit c \<or> c = CHR ''_''"

definition bin_id_ok :: "string \<Rightarrow> bool" where
  "bin_id_ok i \<longleftrightarrow> i \<noteq> [] \<and> \<not> is_digit (hd i) \<and> (\<forall>c\<in>set i. bin_id_char c)"

lemma class_codes:
  "is_upper c \<longleftrightarrow> 65 \<le> (of_char c :: nat) \<and> (of_char c :: nat) \<le> 90"
  "is_lower c \<longleftrightarrow> 97 \<le> (of_char c :: nat) \<and> (of_char c :: nat) \<le> 122"
  "is_digit c \<longleftrightarrow> 48 \<le> (of_char c :: nat) \<and> (of_char c :: nat) \<le> 57"
  by (simp_all add: is_upper_def is_lower_def is_digit_def less_eq_char_def)

lemma ascii_lower_code:
  "(of_char (ascii_lower c) :: nat) = (if is_upper c then of_char c + 32 else of_char c)"
  using class_codes(1)[of c] by (simp add: ascii_lower_def)

lemma ascii_lower_word:
  assumes "is_word c"
  shows "bin_id_char (ascii_lower c)" "is_alpha c \<Longrightarrow> \<not> is_digit (ascii_lower c)"
proof -
  show "is_alpha c \<Longrightarrow> \<not> is_digit (ascii_lower c)"
    by (auto simp: is_alpha_def class_codes ascii_lower_code)
  show "bin_id_char (ascii_lower c)"
  proof (cases "is_upper c")
    case True
    then show ?thesis by (simp add: bin_id_char_def class_codes ascii_lower_code)
  next
    case False
    with assms show ?thesis
      by (auto simp: bin_id_char_def is_word_def is_alnum_def is_alpha_def ascii_lower_def)
  qed
qed

lemma sanitize_loop_words: "c \<in> set (sanitize_loop s) \<Longrightarrow> is_word c"
  by (induction s rule: sanitize_loop.induct) (auto simp: is_word_def split: if_splits)

lemma sanitize_bin_id_ok:
  assumes "name \<noteq> []"
  shows "bin_id_ok (sanitize_bin_id name)"
proof -
  obtain c s where n: "name = c # s" using assms by (cases name) auto
  define f where "f = (if is_alpha c then c else CHR ''_'')"
  obtain r where r: "sanitize_bin_id name = lower_str (f # r)" "\<forall>x\<in>set r. is_word x"
    using n sanitize_loop_words by (cases "is_alpha c") (auto simp: sanitize_bin_id_def f_def)
  have fw: "is_word f" by (simp add: f_def is_word_def is_alnum_def)
  have "\<not> is_digit (ascii_lower f)"
  proof (cases "is_alpha c")
    case True
    then show ?thesis using ascii_lower_word(2)[OF fw] by (simp add: f_def)
  next
    case False
    then show ?thesis by (simp add: f_def class_codes(3) ascii_lower_code)
  qed
  moreover have "bin_id_char (ascii_lower x)" if "x \<in> set (f # r)" for x
    using that r(2) fw ascii_lower_word(1) by auto
  ultimately show ?thesis by (auto simp: r(1) bin_id_ok_def lower_str_def)
qed

definition comp_ok :: "comp_globals \<Rightarrow> bool" where
  "comp_ok cg \<longleftrightarrow>
     is_wm_id (cg_id cg) \<and> cg_id_unit_string cg = simple_systemd_escape (cg_id cg) False \<and>
     (cg_bin_name cg \<noteq> [] \<longrightarrow> bin_id_ok (cg_bin_id cg)) \<and> distinct (cg_desktop_names cg) \<and>
     (\<not> cg_cli_desktop_names_exclusive cg \<longrightarrow> cg_desktop_names cg \<noteq> []) \<and> cg_cmdline cg \<noteq> []"

lemma resolve_entry_ok:
  assumes "resolve_entry s penv input main i = Inr cg"
  shows "comp_ok cg"
proof -
  from assms obtain entry exec
    where c: "check_basic s penv entry (ma_entry_action main) = Inr ()"
      and e: "entry_exec entry (ma_entry_action main) = Inr exec"
      and w: "is_wm_id i"
      and cg: "cg_id cg = i" "cg_id_unit_string cg = simple_systemd_escape i False"
        "cg_bin_id cg = sanitize_bin_id (cg_bin_name cg)"
        "cg_cmdline cg = exec @ drop 1 (ri_wm_cmdline input)"
        "cg_desktop_names cg = merge_desktop_names input
           (split_list (entry_get entry ''DesktopNames'' None)) (cg_bin_name cg)"
        "cg_cli_desktop_names_exclusive cg = ri_desktop_names_exclusive input"
    by (auto simp: resolve_entry_def rbind_Inr_iff Let_def split: if_splits)
  from c e have "exec \<noteq> []" by (auto simp: check_basic_ok command_ok_def)
  with w cg sanitize_bin_id_ok merge_distinct merge_set show ?thesis
    by (auto simp: comp_ok_def)
qed

lemma comp_resolve_ok:
  assumes "comp_resolve s penv input = Inr cg"
  shows "comp_ok cg"
proof -
  from assms obtain arg0 rest where a: "ri_wm_cmdline input = arg0 # rest"
    by (cases "ri_wm_cmdline input") (simp_all add: comp_resolve_def)
  with assms obtain main where m: "main_arg_parse penv arg0 = Inr main"
    by (auto simp: comp_resolve_def rbind_Inr_iff)
  show ?thesis
  proof (cases "ma_entry_id main")
    case None
    with assms a m have w: "is_wm_id (file_basename arg0)"
      and cg: "cg_id cg = file_basename arg0" "cg_bin_name cg = file_basename arg0"
        "cg_id_unit_string cg = simple_systemd_escape (file_basename arg0) False"
        "cg_bin_id cg = sanitize_bin_id (file_basename arg0)" "cg_cmdline cg = arg0 # rest"
        "cg_desktop_names cg = merge_desktop_names input [] (file_basename arg0)"
        "cg_cli_desktop_names_exclusive cg = ri_desktop_names_exclusive input"
      by (auto simp: comp_resolve_def Let_def split: if_splits)
    then show ?thesis using sanitize_bin_id_ok merge_distinct merge_set
      by (auto simp: comp_ok_def is_wm_id_def)
  next
    case (Some i)
    with assms a m have "resolve_entry s penv input main i = Inr cg" by (simp add: comp_resolve_def)
    then show ?thesis by (rule resolve_entry_ok)
  qed
qed

section \<open>Unit paths stay in the unit directory\<close>

lemma wm_id_no_slash: "is_wm_id i \<Longrightarrow> SLASH \<notin> set i"
proof -
  have "\<not> (entry_id_char SLASH \<or> SLASH = CHR '':'')" by code_simp
  then show "is_wm_id i \<Longrightarrow> SLASH \<notin> set i" unfolding is_wm_id_def list_all_iff by blast
qed

lemma escaped_no_slash: "SLASH \<notin> set (simple_systemd_escape i start)"
  using escaped_chars[of SLASH i start] is_allowed_neq[of SLASH] by auto

lemma escape_inj: "simple_systemd_escape i start = simple_systemd_escape j start \<Longrightarrow> i = j"
  by (metis unescape_escape)

end
