(* ===== verification/Terminal.thy ===== *)
theory Terminal
  imports Comp World
begin

text \<open>
  Finding a terminal emulator and building its command line, src/app/terminal.rs.

  The negative cache is a HashMap from paths to modification times. Times of files come from the
  parameter \<open>mt\<close>, and the order in which the map's entries are written, which HashMap leaves open,
  from the parameter \<open>ord\<close>. The lemmas say that a cache that is honest about non-terminals never
  changes what the scan finds, and stays honest.
\<close>

section \<open>The command line\<close>

record term_opts =
  to_app_id :: "string option"
  to_title :: "string option"
  to_dir :: "string option"
  to_hold :: bool

definition first_key :: "desktop_entry \<Rightarrow> string list \<Rightarrow> string option" where
  "first_key e keys =
     (case List.map_filter (\<lambda>k. entry_get e k None) keys of
        v # _ \<Rightarrow> if v \<noteq> [] then Some v else None
      | [] \<Rightarrow> None)"

definition append_opt :: "string list \<Rightarrow> desktop_entry \<Rightarrow> string list \<Rightarrow> string option \<Rightarrow> string list" where
  "append_opt cmdline e keys value =
     (case value of
        None \<Rightarrow> cmdline
      | Some v \<Rightarrow>
          (case first_key e keys of
             None \<Rightarrow> cmdline
           | Some arg \<Rightarrow>
               (case strip_suffix ''='' arg of
                  Some prefix \<Rightarrow> cmdline @ [prefix @ ''='' @ v]
                | None \<Rightarrow> cmdline @ [arg, v])))"

definition build_terminal ::
  "desktop_entry \<Rightarrow> string option \<Rightarrow> term_opts \<Rightarrow> (string list \<times> string list) result" where
  "build_terminal e action opts =
     rbind (entry_exec e action) (\<lambda>exec.
     let exec_arg_raw =
           (case first_key e [''TerminalArgExec'', ''X-TerminalArgExec'', ''ExecArg'', ''X-ExecArg''] of
              Some v \<Rightarrow> expand_str v
            | None \<Rightarrow> ''-e'');
         exec_arg = (if exec_arg_raw = [] then [] else [exec_arg_raw]);
         c1 = append_opt exec e [''TerminalArgAppId'', ''X-TerminalArgAppId''] (to_app_id opts);
         c2 = append_opt c1 e [''TerminalArgTitle'', ''X-TerminalArgTitle''] (to_title opts);
         c3 = append_opt c2 e [''TerminalArgDir'', ''X-TerminalArgDir''] (to_dir opts);
         c4 = (case (to_hold opts, first_key e [''TerminalArgHold'', ''X-TerminalArgHold'']) of
                 (True, Some h) \<Rightarrow> c3 @ [h]
               | _ \<Rightarrow> c3)
     in Inr (c4, exec_arg))"

definition is_terminal :: "desktop_entry \<Rightarrow> bool" where
  "is_terminal e \<longleftrightarrow> ''TerminalEmulator'' \<in> set (entry_categories e)"

section \<open>The preference lists\<close>

record term_lists =
  tl_explicit :: "(string \<times> string option) list"
  tl_excluded :: "string list"
  tl_protected :: "string list"

definition parse_entry_ref :: "env \<Rightarrow> string \<Rightarrow> string option \<times> string option" where
  "parse_entry_ref penv s =
     (case main_arg_parse penv s of
        Inr m \<Rightarrow> if ma_entry_id m \<noteq> None \<and> ma_path m = None
                 then (ma_entry_id m, ma_entry_action m) else (None, None)
      | Inl _ \<Rightarrow> (None, None))"

definition list_entry :: "int \<Rightarrow> string \<Rightarrow> string option \<Rightarrow> term_lists \<Rightarrow> term_lists" where
  "list_entry fb i action t =
     (if fb = 0 \<and> (i, action) \<notin> set (tl_explicit t)
      then t\<lparr>tl_explicit := tl_explicit t @ [(i, action)]\<rparr>
      else if fb = - 1 \<and> action = None \<and> i \<notin> set (tl_protected t)
      then t\<lparr>tl_excluded := List.insert i (tl_excluded t)\<rparr>
      else if fb = 1 \<and> action = None
      then t\<lparr>tl_protected := List.insert i (tl_protected t), tl_excluded := removeAll i (tl_excluded t)\<rparr>
      else t)"

definition list_line :: "env \<Rightarrow> string \<Rightarrow> term_lists \<Rightarrow> term_lists" where
  "list_line penv raw t =
     (let line = trim raw
      in if line = [] \<or> starts_with ''#'' line then t
         else
           (let (fb, rest) =
                  (case strip_prefix ''-'' line of
                     Some r \<Rightarrow> (- 1, r)
                   | None \<Rightarrow> (case strip_prefix ''+'' line of Some r \<Rightarrow> (1, r) | None \<Rightarrow> (0, line)))
            in case parse_entry_ref penv rest of
                 (None, _) \<Rightarrow> t
               | (Some i, action) \<Rightarrow> list_entry fb i action t))"

definition parse_terminal_list :: "env \<Rightarrow> string \<Rightarrow> term_lists \<Rightarrow> term_lists" where
  "parse_terminal_list penv content t = fold (list_line penv) (lines content) t"

definition read_list_file :: "fs \<Rightarrow> env \<Rightarrow> string \<Rightarrow> term_lists \<Rightarrow> term_lists" where
  "read_list_file s penv p t =
     (case std_read s p of Inl _ \<Rightarrow> t | Inr content \<Rightarrow> parse_terminal_list penv content t)"

definition read_terminal_lists :: "fs \<Rightarrow> env \<Rightarrow> (string \<times> string option) list \<times> string list" where
  "read_terminal_lists s penv =
     (let files = map (\<lambda>d. d @ ''-xdg-terminals.list'')
                    (split_colon (unwrap_or (bm_get penv ''XDG_CURRENT_DESKTOP'') [])) @
                  [''xdg-terminals.list''];
          dirs = config_paths penv @ map (\<lambda>d. path_join d ''xdg-terminal-exec'') (data_dirs penv);
          paths = concat (map (\<lambda>dir. map (path_join dir) files) dirs);
          t = fold (read_list_file s penv) paths \<lparr>tl_explicit = [], tl_excluded = [], tl_protected = []\<rparr>
      in (tl_explicit t, tl_excluded t))"

section \<open>The negative cache\<close>

type_synonym neg_cache = "(string, nat) bmap"

definition not_terminals_path :: "env \<Rightarrow> string option" where
  "not_terminals_path penv =
     (case cache_home penv of
        Inr d \<Rightarrow> Some (path_join (path_join d ''wsmr'') ''not-terminals.list'')
      | Inl _ \<Rightarrow> None)"

definition cache_line :: "string \<Rightarrow> neg_cache \<Rightarrow> neg_cache" where
  "cache_line line m =
     (case split_once (CHR '' '') line of
        Some (mt, path) \<Rightarrow> (case parse_u64 mt of Some t \<Rightarrow> bm_insert path t m | None \<Rightarrow> m)
      | None \<Rightarrow> m)"

definition load_not_terminals :: "fs \<Rightarrow> env \<Rightarrow> neg_cache" where
  "load_not_terminals s penv =
     (case not_terminals_path penv of
        None \<Rightarrow> []
      | Some p \<Rightarrow>
          (case std_read s p of Inl _ \<Rightarrow> [] | Inr content \<Rightarrow> fold cache_line (lines content) []))"

definition cache_text :: "(string \<times> nat) list \<Rightarrow> string" where
  "cache_text ps =
     concat (map (\<lambda>(path, mt). if NL \<in> set path then [] else show_nat mt @ '' '' @ path @ [NL]) ps)"

definition save_not_terminals :: "(neg_cache \<Rightarrow> (string \<times> nat) list) \<Rightarrow> env \<Rightarrow> neg_cache \<Rightarrow> (fs, unit) io" where
  "save_not_terminals ord penv cache =
     (case not_terminals_path penv of
        None \<Rightarrow> io_return ()
      | Some p \<Rightarrow>
          io_bind
            (case path_parent p of
               Some dir \<Rightarrow> sys_ignore (std_create_dir_all dir)
             | None \<Rightarrow> io_return ()) (\<lambda>_.
          sys_ignore (std_write p (cache_text (ord cache)))))"

section \<open>Finding\<close>

definition valid_terminal :: "fs \<Rightarrow> env \<Rightarrow> desktop_entry \<Rightarrow> bool" where
  "valid_terminal s penv e \<longleftrightarrow>
     is_terminal e \<and> is_ok (check_basic s penv e None) \<and> is_ok (check_showin penv e)"

fun scan_loop ::
  "fs \<Rightarrow> env \<Rightarrow> (string \<Rightarrow> nat) \<Rightarrow> string list \<Rightarrow> (string \<times> string) list \<Rightarrow> neg_cache \<Rightarrow> bool \<Rightarrow>
   desktop_entry option \<times> neg_cache \<times> bool" where
  "scan_loop s penv mt excluded [] cache changed = (None, cache, changed)"
| "scan_loop s penv mt excluded (p # rest) cache changed =
     (if fst p \<in> set excluded \<or> bm_get cache (snd p) = Some (mt (snd p))
      then scan_loop s penv mt excluded rest cache changed
      else (case read_entry s (snd p) of
              Inl _ \<Rightarrow> scan_loop s penv mt excluded rest cache changed
            | Inr e \<Rightarrow>
                if valid_terminal s penv e then (Some e, cache, changed)
                else if \<not> is_terminal e
                then scan_loop s penv mt excluded rest (bm_insert (snd p) (mt (snd p)) cache) True
                else scan_loop s penv mt excluded rest cache changed))"

definition scan_for_terminal ::
  "(string \<Rightarrow> nat) \<Rightarrow> (neg_cache \<Rightarrow> (string \<times> nat) list) \<Rightarrow> env \<Rightarrow> string list \<Rightarrow>
   (fs, desktop_entry option) io" where
  "scan_for_terminal mt ord penv excluded s =
     (case scan_loop s penv mt excluded (list_entries s penv ''applications'')
             (load_not_terminals s penv) False of
        (found, cache, changed) \<Rightarrow>
          io_bind (io_when changed (save_not_terminals ord penv cache)) (\<lambda>_. io_return found) s)"

fun find_explicit ::
  "fs \<Rightarrow> env \<Rightarrow> (string \<times> string option) list \<Rightarrow> (desktop_entry \<times> string option) option result" where
  "find_explicit s penv [] = Inr None"
| "find_explicit s penv ((i, action) # rest) =
     rbind (find_entry s penv ''applications'' i) (\<lambda>found.
     case found of
       Some e \<Rightarrow> if is_terminal e \<and> is_ok (check_basic s penv e action) then Inr (Some (e, action))
                 else find_explicit s penv rest
     | None \<Rightarrow> find_explicit s penv rest)"

definition find_terminal_entry ::
  "(string \<Rightarrow> nat) \<Rightarrow> (neg_cache \<Rightarrow> (string \<times> nat) list) \<Rightarrow> env \<Rightarrow>
   (fs, desktop_entry \<times> string option) io" where
  "find_terminal_entry mt ord penv =
     io_bind (io_get (\<lambda>s. read_terminal_lists s penv)) (\<lambda>(explicit, excluded).
     io_bind (\<lambda>s. (find_explicit s penv explicit, s)) (\<lambda>chosen.
     case chosen of
       Some r \<Rightarrow> io_return r
     | None \<Rightarrow>
         io_bind (scan_for_terminal mt ord penv excluded) (\<lambda>found.
         case found of
           Some e \<Rightarrow> io_return (e, None)
         | None \<Rightarrow> io_fail (Resolve ''could not find a terminal emulator''))))"

definition resolve_terminal ::
  "(string \<Rightarrow> nat) \<Rightarrow> (neg_cache \<Rightarrow> (string \<times> nat) list) \<Rightarrow> env \<Rightarrow> term_opts \<Rightarrow>
   (fs, string list \<times> string list) io" where
  "resolve_terminal mt ord penv opts =
     io_bind (find_terminal_entry mt ord penv) (\<lambda>(e, action). io_lift (build_terminal e action opts))"

section \<open>The cache never changes the answer\<close>

text \<open>What a scan without a cache finds.\<close>

definition scan_pick :: "fs \<Rightarrow> env \<Rightarrow> string list \<Rightarrow> (string \<times> string) list \<Rightarrow> desktop_entry option" where
  "scan_pick s penv excluded ps =
     (case List.map_filter
             (\<lambda>p. if fst p \<in> set excluded then None
                  else (case read_entry s (snd p) of
                          Inr e \<Rightarrow> if valid_terminal s penv e then Some e else None
                        | Inl _ \<Rightarrow> None)) ps of
        e # _ \<Rightarrow> Some e
      | [] \<Rightarrow> None)"

definition honest_cache :: "fs \<Rightarrow> (string \<Rightarrow> nat) \<Rightarrow> neg_cache \<Rightarrow> bool" where
  "honest_cache s mt cache \<longleftrightarrow>
     (\<forall>p e. bm_get cache p = Some (mt p) \<longrightarrow> read_entry s p = Inr e \<longrightarrow> \<not> is_terminal e)"

lemma scan_pick_simps:
  "scan_pick s penv excluded [] = None"
  "scan_pick s penv excluded (p # ps) =
     (if fst p \<in> set excluded then scan_pick s penv excluded ps
      else (case read_entry s (snd p) of
              Inr e \<Rightarrow> if valid_terminal s penv e then Some e else scan_pick s penv excluded ps
            | Inl _ \<Rightarrow> scan_pick s penv excluded ps))"
  by (simp_all add: scan_pick_def map_filter_simps split: sum.split)

lemma honest_insert:
  assumes "read_entry s p = Inr e" "\<not> is_terminal e" "honest_cache s mt cache" "bm_wf cache"
  shows "honest_cache s mt (bm_insert p (mt p) cache)"
  using assms by (auto simp: honest_cache_def split: if_splits)

lemma scan_loop_pick:
  "honest_cache s mt cache \<Longrightarrow> bm_wf cache \<Longrightarrow>
   fst (scan_loop s penv mt excluded ps cache changed) = scan_pick s penv excluded ps \<and>
   honest_cache s mt (fst (snd (scan_loop s penv mt excluded ps cache changed)))"
proof (induction ps arbitrary: cache changed)
  case Nil
  then show ?case by (simp add: scan_pick_simps)
next
  case (Cons p ps)
  note IH = Cons.IH[OF Cons.prems]
  consider (out) "fst p \<in> set excluded"
    | (known) "fst p \<notin> set excluded" "bm_get cache (snd p) = Some (mt (snd p))"
    | (err) e where "fst p \<notin> set excluded" "bm_get cache (snd p) \<noteq> Some (mt (snd p))"
      "read_entry s (snd p) = Inl e"
    | (good) e where "fst p \<notin> set excluded" "bm_get cache (snd p) \<noteq> Some (mt (snd p))"
      "read_entry s (snd p) = Inr e" "valid_terminal s penv e"
    | (other) e where "fst p \<notin> set excluded" "bm_get cache (snd p) \<noteq> Some (mt (snd p))"
      "read_entry s (snd p) = Inr e" "\<not> valid_terminal s penv e" "\<not> is_terminal e"
    | (invalid) e where "fst p \<notin> set excluded" "bm_get cache (snd p) \<noteq> Some (mt (snd p))"
      "read_entry s (snd p) = Inr e" "\<not> valid_terminal s penv e" "is_terminal e"
    by (cases "read_entry s (snd p)") auto
  then show ?case
  proof cases
    case known
    then have "\<not> valid_terminal s penv e" if "read_entry s (snd p) = Inr e" for e
      using Cons.prems(1) that by (auto simp: honest_cache_def valid_terminal_def)
    with known IH show ?thesis by (auto simp: scan_pick_simps split: sum.split)
  next
    case (other e)
    with Cons.IH[OF honest_insert[OF other(3,5) Cons.prems]] Cons.prems(2) show ?thesis
      by (simp add: scan_pick_simps)
  qed (use IH Cons.prems(1) in \<open>simp_all add: scan_pick_simps\<close>)
qed

lemma load_wf: "bm_wf (load_not_terminals s penv)"
proof -
  have "bm_wf m \<Longrightarrow> bm_wf (fold cache_line ls m)" for ls m
    by (induction ls arbitrary: m) (auto simp: cache_line_def split: option.split)
  then show ?thesis by (simp add: load_not_terminals_def split: option.split sum.split)
qed

lemma file_at_save_not_terminals:
  "not_terminals_path penv \<noteq> Some q \<Longrightarrow> file_at (snd (save_not_terminals ord penv cache s)) q = file_at s q"
  by (auto simp: save_not_terminals_def io_bind_def sys_ignore_def file_at_std_write
      split: option.split sum.split prod.split)

lemma scan_for_terminal_pick:
  assumes "honest_cache s mt (load_not_terminals s penv)"
    "scan_for_terminal mt ord penv excluded s = (r, s')"
  shows "r = Inr (scan_pick s penv excluded (list_entries s penv ''applications''))"
    and "not_terminals_path penv \<noteq> Some q \<Longrightarrow> file_at s' q = file_at s q"
proof -
  obtain found cache changed
    where l: "scan_loop s penv mt excluded (list_entries s penv ''applications'')
      (load_not_terminals s penv) False = (found, cache, changed)"
    by (cases "scan_loop s penv mt excluded (list_entries s penv ''applications'')
      (load_not_terminals s penv) False") auto
  have f: "found = scan_pick s penv excluded (list_entries s penv ''applications'')"
    using scan_loop_pick[OF assms(1) load_wf, where penv = penv and excluded = excluded and ps = "list_entries s penv ''applications''" and changed = False] l
    by simp
  have ok: "fst (save_not_terminals ord penv cache s) = Inr ()"
    by (simp add: save_not_terminals_def io_bind_def sys_ignore_def split: option.split)
  have run: "(r, s') = io_bind (io_when changed (save_not_terminals ord penv cache)) (\<lambda>_. io_return found) s"
    using assms(2) l by (simp add: scan_for_terminal_def)
  have "(r, s') = (Inr found, if changed then snd (save_not_terminals ord penv cache s) else s)"
    unfolding run using ok
    by (cases "save_not_terminals ord penv cache s") (simp add: io_when_def io_bind_def)
  then show "r = Inr (scan_pick s penv excluded (list_entries s penv ''applications''))"
    "not_terminals_path penv \<noteq> Some q \<Longrightarrow> file_at s' q = file_at s q"
    using f file_at_save_not_terminals[of penv q ord cache s] by simp_all
qed

end
