(* ===== verification/Process.thy ===== *)
theory Process
  imports Bus
begin

text \<open>
  Processes: what a command is, and how a function that may replace the process or wait forever
  ends. A \<open>run\<close> gives None when it never returns (it polls for ever), \<open>Replaced\<close> when the process
  image was replaced by \<open>exec\<close>, and otherwise its result. The operating system's part is the record
  \<open>proc_ops\<close>: one field per call the source makes, each on the whole world, since a child process
  may change anything. Also here: the messages of src/error.rs and the reporting helpers of
  src/session/mod.rs.
\<close>

section \<open>Commands and outcomes\<close>

record command =
  cmd_argv :: "string list"
  cmd_env :: "env option"
  cmd_env_remove :: "string list"
  cmd_null_out :: bool
  cmd_null_err :: bool

definition plain_command :: "string list \<Rightarrow> command" where
  "plain_command argv =
     \<lparr>cmd_argv = argv, cmd_env = None, cmd_env_remove = [], cmd_null_out = False,
      cmd_null_err = False\<rparr>"

record cmd_output =
  co_stdout :: string
  co_stderr :: string
  co_success :: bool
  co_status :: string

record 'b proc_ops =
  pr_exec :: "command \<Rightarrow> 'b world \<Rightarrow> io_error option \<times> 'b world"
  pr_spawn :: "command \<Rightarrow> 'b world \<Rightarrow> (io_error + nat) \<times> 'b world"
  pr_feed :: "nat \<Rightarrow> string \<Rightarrow> 'b world \<Rightarrow> 'b world"
  pr_wait :: "nat \<Rightarrow> 'b world \<Rightarrow> (io_error + bool) \<times> 'b world"
  pr_status :: "command \<Rightarrow> 'b world \<Rightarrow> (io_error + bool) \<times> 'b world"
  pr_output :: "command \<Rightarrow> 'b world \<Rightarrow> (io_error + cmd_output) \<times> 'b world"
  pr_self_exe :: "'b world \<Rightarrow> io_error + string"
  pr_dup2 :: "nat \<Rightarrow> nat \<Rightarrow> 'b world \<Rightarrow> (io_error + unit) \<times> 'b world"
  pr_euid :: "'b world \<Rightarrow> nat"
  pr_ppid :: "'b world \<Rightarrow> nat"
  pr_pidfd_open :: "int \<Rightarrow> 'b world \<Rightarrow> (io_error + nat) \<times> 'b world"
  pr_poll :: "nat \<Rightarrow> 'b world \<Rightarrow> (io_error + unit) \<times> 'b world"
  pr_show_io :: "io_error \<Rightarrow> string"
  pr_show_zbus :: "zbus_error \<Rightarrow> string"

datatype 'a outcome = Done "'a result" | Replaced command

type_synonym ('w, 'a) run = "'w \<Rightarrow> ('a outcome \<times> 'w) option"

definition run_io :: "('w, 'a) io \<Rightarrow> ('w, 'a) run" where
  "run_io m w = (case m w of (r, w') \<Rightarrow> Some (Done r, w'))"

definition run_bind :: "('w, 'a) run \<Rightarrow> ('a \<Rightarrow> ('w, 'c) run) \<Rightarrow> ('w, 'c) run" where
  "run_bind m f w =
     (case m w of
        None \<Rightarrow> None
      | Some (Replaced c, w') \<Rightarrow> Some (Replaced c, w')
      | Some (Done (Inl e), w') \<Rightarrow> Some (Done (Inl e), w')
      | Some (Done (Inr x), w') \<Rightarrow> f x w')"

definition run_return :: "'a \<Rightarrow> ('w, 'a) run" where
  "run_return x = run_io (io_return x)"

definition run_fail :: "error \<Rightarrow> ('w, 'a) run" where
  "run_fail e = run_io (io_fail e)"

text \<open>A polling loop on the bus, as a run.\<close>

definition run_bus :: "('b \<Rightarrow> ('a result \<times> 'b) option) \<Rightarrow> ('b world, 'a) run" where
  "run_bus m w =
     (case m (w_bus w) of
        None \<Rightarrow> None
      | Some (r, b) \<Rightarrow> Some (Done r, w\<lparr>w_bus := b\<rparr>))"

text \<open>\<open>inspect_err\<close>: only a run that returns an error reports it.\<close>

definition run_inspect_err :: "('w, 'a) run \<Rightarrow> (error \<Rightarrow> 'w \<Rightarrow> 'w) \<Rightarrow> ('w, 'a) run" where
  "run_inspect_err m f w =
     (case m w of
        Some (Done (Inl e), w') \<Rightarrow> Some (Done (Inl e), f e w')
      | r \<Rightarrow> r)"

text \<open>\<open>Err(Error::io(name, cmd.exec()))\<close>.\<close>

definition exec_or_fail :: "'b proc_ops \<Rightarrow> string \<Rightarrow> command \<Rightarrow> ('b world, 'a) run" where
  "exec_or_fail pr name c w =
     (case pr_exec pr c w of
        (None, w') \<Rightarrow> Some (Replaced c, w')
      | (Some e, w') \<Rightarrow> Some (Done (Inl (Io name e)), w'))"

definition proc_io :: "string \<Rightarrow> ('b world \<Rightarrow> (io_error + 'a) \<times> 'b world) \<Rightarrow> ('b world, 'a) io" where
  "proc_io name m w =
     (case m w of (Inl e, w') \<Rightarrow> (Inl (Io name e), w') | (Inr x, w') \<Rightarrow> (Inr x, w'))"

lemma run_io_simps [simp]:
  "run_bind (run_return x) f = f x" "run_bind (run_fail e) f = run_fail e"
  by (simp_all add: run_bind_def run_return_def run_fail_def run_io_def fun_eq_iff)

lemma run_bind_io:
  "run_bind (run_io m) f w =
     (case m w of (Inl e, w') \<Rightarrow> Some (Done (Inl e), w') | (Inr x, w') \<Rightarrow> f x w')"
  by (simp add: run_bind_def run_io_def split: prod.split sum.split)

lemma run_bind_Replaced:
  "run_bind m f w = Some (Replaced c, w') \<longleftrightarrow>
     m w = Some (Replaced c, w') \<or> (\<exists>x w1. m w = Some (Done (Inr x), w1) \<and> f x w1 = Some (Replaced c, w'))"
  by (auto simp: run_bind_def split: option.splits prod.splits outcome.splits sum.splits)

lemma run_bind_Inr:
  "run_bind m f w = Some (Done (Inr y), w') \<longleftrightarrow>
     (\<exists>x w1. m w = Some (Done (Inr x), w1) \<and> f x w1 = Some (Done (Inr y), w'))"
  by (auto simp: run_bind_def split: option.splits prod.splits outcome.splits sum.splits)

lemma run_bind_Inl:
  "run_bind m f w = Some (Done (Inl e), w') \<longleftrightarrow>
     m w = Some (Done (Inl e), w') \<or>
     (\<exists>x w1. m w = Some (Done (Inr x), w1) \<and> f x w1 = Some (Done (Inl e), w'))"
  by (auto simp: run_bind_def split: option.splits prod.splits outcome.splits sum.splits)

lemma run_io_iff: "run_io m w = Some (Done r, w') \<longleftrightarrow> m w = (r, w')" "run_io m w \<noteq> Some (Replaced c, w')"
  by (auto simp: run_io_def split: prod.splits)

lemma run_return_iff:
  "run_return x w = Some (o', w') \<longleftrightarrow> o' = Done (Inr x) \<and> w' = w"
  "run_fail e w = Some (o', w') \<longleftrightarrow> o' = Done (Inl e) \<and> w' = w"
  by (auto simp: run_return_def run_fail_def run_io_def)

lemma exec_or_fail_not_Inr: "exec_or_fail pr n c w \<noteq> Some (Done (Inr x), w')"
  by (auto simp: exec_or_fail_def split: prod.splits option.splits)

section \<open>src/error.rs and the reports of src/session/mod.rs\<close>

definition show_error :: "'b proc_ops \<Rightarrow> error \<Rightarrow> string" where
  "show_error pr e =
     (case e of
        Io path source \<Rightarrow> path @ '': '' @ pr_show_io pr source
      | EnvMissing v \<Rightarrow> ''environment variable '' @ v @ '' is not set''
      | Dbus z \<Rightarrow> ''D-Bus: '' @ pr_show_zbus pr z
      | InvalidArg m \<Rightarrow> m
      | Resolve m \<Rightarrow> ''could not resolve '' @ m
      | NotImplemented milestone what \<Rightarrow> what @ '' is not implemented yet ('' @ milestone @ '')''
      | GenerationConflict m \<Rightarrow> m
      | PartialEnvUpdate operation applied failed z \<Rightarrow>
          operation @ '' succeeded on '' @ applied @ '', but failed on '' @ failed @ '': '' @
          pr_show_zbus pr z)"

text \<open>Standard error goes to the same log of lines, marked.\<close>

definition eprint :: "string \<Rightarrow> ('b world, unit) io" where
  "eprint l = print (''2> '' @ l)"

definition connect_session :: "'b bus_ops \<Rightarrow> ('b world, unit) io" where
  "connect_session ops = on_bus (dbus_io (c_session ops))"

definition connect_system :: "'b bus_ops \<Rightarrow> ('b world, unit) io" where
  "connect_system ops = on_bus (dbus_io (c_system ops))"

definition bus_notify :: "'b bus_ops \<Rightarrow> string \<Rightarrow> string \<Rightarrow> ('b, nat) io" where
  "bus_notify ops summary body =
     dbus_io (n_notify ops
       \<lparr>nt_app_name = ''wsmr'', nt_replaces_id = 0, nt_app_icon = ''applications-system'',
        nt_summary = summary, nt_body = body, nt_actions = [], nt_hints = [],
        nt_expire_timeout = - 1\<rparr>)"

definition notify_error :: "'b bus_ops \<Rightarrow> string \<Rightarrow> string \<Rightarrow> 'b world \<Rightarrow> 'b world" where
  "notify_error ops summary body w =
     (case connect_session ops w of
        (Inr _, w1) \<Rightarrow> snd (on_bus (bus_notify ops summary body) w1)
      | (Inl _, w1) \<Rightarrow> w1)"

definition log_to_journal :: "'b proc_ops \<Rightarrow> string \<Rightarrow> string \<Rightarrow> 'b world \<Rightarrow> 'b world" where
  "log_to_journal pr msg priority w =
     (case pr_spawn pr (plain_command [''systemd-cat'', ''--identifier=wsmr'', ''--priority='' @ priority]) w of
        (Inl _, w1) \<Rightarrow> w1
      | (Inr child, w1) \<Rightarrow> snd (pr_wait pr child (pr_feed pr child (msg @ [NL]) w1)))"

definition log_error_to_journal :: "'b proc_ops \<Rightarrow> string \<Rightarrow> 'b world \<Rightarrow> 'b world" where
  "log_error_to_journal pr msg = log_to_journal pr msg ''err''"

definition log_notice_to_journal :: "'b proc_ops \<Rightarrow> string \<Rightarrow> 'b world \<Rightarrow> 'b world" where
  "log_notice_to_journal pr msg = log_to_journal pr msg ''notice''"

end
