(* ===== verification/AppProps.thy ===== *)
theory AppProps
  imports Terminal Process RefBus
begin

text \<open>
  What the application side promises before anything is started: desktop entries and their Exec
  lines, finding entries, resolving the compositor and choosing a terminal, with runs on small disks.
\<close>

section \<open>Exec lines\<close>

text \<open>
  C31: the command line of a desktop entry is read back exactly. Whatever the words are, when they are
  quoted by the rules of the desktop entry specification, joined, escaped as a value and written
  into a well-formed entry file, parsing the file and tokenizing its Exec key gives those words.
\<close>

theorem exec_line_roundtrip:
  assumes "groups_ok groups" "bm_get groups ''Desktop Entry'' = Some g"
    "bm_get g ''Exec'' = Some (value_escape (join_with '' '' (map exec_quote ws)))" "ws \<noteq> []"
  shows "\<exists>e. entry_parse fn (entry_render groups) = Inr e \<and> entry_exec e None = Inr ws"
proof -
  from assms(2) have "bm_has groups ''Desktop Entry''"
    unfolding bm_has_iff by simp
  from entry_parse_render[OF assms(1) this, of fn] assms(2,3) tokenize_exec_joined[OF assms(4)]
  show ?thesis
    by (simp add: entry_exec_def entry_get_def entry_group_def ok_or_def expand_value_escape)
qed

definition demo_exec :: "string list" where
  "demo_exec = [''foot'', ''-e'', [CHR ''a'', DQ, CHR '' '', BSL, NL], []]"

definition demo_groups :: "(string, env) bmap" where
  "demo_groups = [(''Desktop Entry'',
     [(''Exec'', value_escape (join_with '' '' (map exec_quote demo_exec))), (''Name'', ''Foot'')])]"

theorem exec_line_roundtrip_witness:
  "\<exists>e. entry_parse ''/a/foot.desktop'' (entry_render demo_groups) = Inr e \<and>
       entry_exec e None = Inr demo_exec"
proof (rule exec_line_roundtrip)
  show "groups_ok demo_groups"
    unfolding groups_ok_def key_ok_def value_ok_def demo_groups_def demo_exec_def by code_simp
  show "bm_get demo_groups ''Desktop Entry'' = Some (snd (hd demo_groups))"
    "bm_get (snd (hd demo_groups)) ''Exec'' =
       Some (value_escape (join_with '' '' (map exec_quote demo_exec)))"
    by (simp_all add: demo_groups_def bm_get_def)
  show "demo_exec \<noteq> []" by (simp add: demo_exec_def)
qed

text \<open>
  C32: when a single-valued field makes several command lines out of several arguments, there is one
  per argument, in order, and each is the command line that argument alone would have given.
\<close>

theorem gen_multi_one_each:
  assumes "gen_entry_args exec args ctx = Inr (Multi insts)"
  shows "1 < length args \<and> map (\<lambda>a. gen_entry_args exec [a] ctx) args = map (\<lambda>i. Inr (Single i)) insts"
proof -
  note g = gen_multi_each[OF assms]
  have "map (\<lambda>a. gen_entry_args exec [a] ctx) args = map (\<lambda>i. Inr (Single i)) insts"
    by (rule nth_equalityI) (simp_all add: g(2) g(3))
  with g(1) show ?thesis ..
qed

definition demo_entry_ctx :: entry_ctx where
  "demo_entry_ctx = \<lparr>ec_name = ''Viewer'', ec_icon = [], ec_filename = ''/a/viewer.desktop''\<rparr>"

theorem gen_multi_one_each_witness:
  "map (\<lambda>a. gen_entry_args [''viewer'', ''%u'', ''%c''] [a] demo_entry_ctx) [''/a b'', ''http:x''] =
     map (\<lambda>i. Inr (Single i))
       [[''viewer'', ''file:///a%20b'', ''Viewer''], [''viewer'', ''http:x'', ''Viewer'']]"
proof -
  have "gen_entry_args [''viewer'', ''%u'', ''%c''] [''/a b'', ''http:x''] demo_entry_ctx =
      Inr (Multi [[''viewer'', ''file:///a%20b'', ''Viewer''], [''viewer'', ''http:x'', ''Viewer'']])"
    by code_simp
  from gen_multi_one_each[OF this] show ?thesis ..
qed



section \<open>Entries on disk\<close>

text \<open>
  C35: looking an identifier up gives the first entry of the listing that has it, parsed, with a read
  or parse error passed on, and no result when none has it; and the listing is exactly the desktop
  files that lie, at any depth, below the data directories.
\<close>

theorem find_entry_first_match:
  "find_entry s penv subpath i =
     (case List.find (\<lambda>e. fst e = i) (list_entries s penv subpath) of
        None \<Rightarrow> Inr None
      | Some e \<Rightarrow> rbind (read_entry s (snd e)) (\<lambda>d. Inr (Some d))) \<and>
   ((j, p) \<in> set (list_entries s penv subpath) \<longleftrightarrow>
     (\<exists>base\<in>set (data_paths penv). let dir = path_join base subpath in
        is_dir s dir \<and> j = entry_id_of dir p \<and> is_desktop_file p \<and> below s dir p))"
  unfolding find_entry_pick pick_entry_def list_entries_iff by (rule conjI) (rule refl)+

text \<open>A small data directory with a nested entry, a file of another kind and an executable.\<close>

definition viewer_groups :: "(string, env) bmap" where
  "viewer_groups = [(''Desktop Entry'',
     [(''Categories'', ''System;TerminalEmulator;''), (''Exec'', ''viewer %U''), (''Name'', ''Viewer''),
      (''Type'', ''Application'')])]"

definition app_fs :: fs where
  "app_fs = ref_fs\<lparr>
     fs_dirs := [''/d'', ''/d/applications'', ''/d/applications/kde'', ''/bin''],
     fs_files :=
       [(''/bin/viewer'', ''''), (''/d/applications/a.desktop'', ''[Desktop Entry]''),
        (''/d/applications/kde/v.desktop'', entry_render viewer_groups),
        (''/d/applications/notes.txt'', '''')],
     fs_mode := (\<lambda>p. if p = ''/bin/viewer'' then 493 else 420)\<rparr>"

definition app_env :: env where
  "app_env = [(''HOME'', ''/h''), (''PATH'', ''/bin''), (''XDG_DATA_DIRS'', ''/d'')]"

definition viewer_entry :: desktop_entry where
  "viewer_entry = \<lparr>de_filename = ''/d/applications/kde/v.desktop'', de_groups = viewer_groups\<rparr>"

lemma app_listing:
  "list_entries app_fs app_env ''applications'' =
     [(''a.desktop'', ''/d/applications/a.desktop''), (''kde-v.desktop'', ''/d/applications/kde/v.desktop'')]"
  by code_simp

lemma app_read: "read_entry app_fs ''/d/applications/kde/v.desktop'' = Inr viewer_entry"
  by code_simp

theorem find_entry_first_match_witness:
  "find_entry app_fs app_env ''applications'' ''kde-v.desktop'' = Inr (Some viewer_entry) \<and>
   find_entry app_fs app_env ''applications'' ''notes.txt'' = Inr None"
  using find_entry_first_match[of app_fs app_env "''applications''" "''kde-v.desktop''"]
    find_entry_first_match[of app_fs app_env "''applications''" "''notes.txt''"]
  by (simp add: app_listing app_read)

text \<open>
  An entry passes the basic check exactly when it is a visible application with a name, its
  TryExec (if any) is found, the requested action exists with a name and a command, and its
  command line is valid and starts with an executable that is found.
\<close>

theorem check_basic_exactly:
  "check_basic s penv e action = Inr () \<longleftrightarrow>
     entry_get e ''Type'' None = Some ''Application'' \<and>
     \<not> none_or_empty (entry_get e ''Name'' None) \<and>
     entry_get e ''Hidden'' None \<noteq> Some ''true'' \<and>
     try_ok s penv e \<and> (\<forall>a. action = Some a \<longrightarrow> action_ok e a) \<and>
     (\<exists>exec. entry_exec e action = Inr exec \<and> command_ok s penv exec)"
  by (rule check_basic_ok)

theorem check_basic_exactly_witness:
  "check_basic app_fs app_env viewer_entry None = Inr () \<and>
   check_basic app_fs app_env viewer_entry (Some ''new'') \<noteq> Inr ()"
proof -
  have "entry_get viewer_entry ''Type'' None = Some ''Application''"
    "\<not> none_or_empty (entry_get viewer_entry ''Name'' None)"
    "entry_get viewer_entry ''Hidden'' None \<noteq> Some ''true''" "try_ok app_fs app_env viewer_entry"
    "entry_exec viewer_entry None = Inr [''viewer'', ''%U'']"
    "command_ok app_fs app_env [''viewer'', ''%U'']" "\<not> action_ok viewer_entry ''new''"
    by code_simp+
  then show ?thesis
    using check_basic_exactly[of app_fs app_env viewer_entry None]
      check_basic_exactly[of app_fs app_env viewer_entry "Some ''new''"]
    by simp
qed

section \<open>The compositor\<close>

text \<open>
  C33: a resolved compositor is well formed: its identifier has only the allowed characters, its name
  in units is the escaped identifier, which has no slash and cannot be shared with another
  identifier, its shell name is one a POSIX shell accepts, and its desktop names have no duplicates.
\<close>

theorem comp_resolve_well_formed:
  assumes "comp_resolve s penv input = Inr cg"
  shows "comp_ok cg \<and> SLASH \<notin> set (cg_id_unit_string cg) \<and> unescape (cg_id_unit_string cg) = cg_id cg"
  using comp_resolve_ok[OF assms] escaped_no_slash unescape_escape by (simp add: comp_ok_def)

definition demo_resolve :: resolve_input where
  "demo_resolve =
     \<lparr>ri_wm_cmdline = [''/bin/my-comp'', ''--x''], ri_desktop_names = [''A'', ''B'', ''A''],
      ri_desktop_names_exclusive = False, ri_name = None, ri_description = None,
      ri_xdg_current_desktop = [''B'']\<rparr>"

theorem comp_resolve_well_formed_witness:
  "\<exists>cg. comp_resolve app_fs app_env demo_resolve = Inr cg \<and> comp_ok cg \<and>
        cg_desktop_names cg = [''B'', ''A''] \<and> unescape (cg_id_unit_string cg) = ''my-comp''"
proof -
  have "rbind (comp_resolve app_fs app_env demo_resolve) (\<lambda>cg. Inr (cg_desktop_names cg, cg_id cg)) =
       Inr ([''B'', ''A''], ''my-comp'')"
    by code_simp
  then obtain cg where cg: "comp_resolve app_fs app_env demo_resolve = Inr cg"
    "cg_desktop_names cg = [''B'', ''A'']" "cg_id cg = ''my-comp''"
    by (auto simp: rbind_Inr_iff)
  with comp_resolve_well_formed[OF cg(1)] show ?thesis by simp
qed

section \<open>The terminal\<close>




section \<open>Arguments that do not reach the application\<close>

text \<open>A field inside a longer word takes one argument. With several, the word is left as it is
  written and the arguments are dropped.\<close>

lemma embedded_field_drops_args:
  "gen_entry_args [''app'', ''--file=%f''] [''/a'', ''/b''] demo_entry_ctx =
     Inr (Single [''app'', ''--file=%f''])"
  by code_simp

end
