(* ===== verification/Stop.thy ===== *)
theory Stop
  imports Process Generate Escape
begin

text \<open>
  Active-session checks and stopping, src/session/stop.rs. Waiting for the stop job may take for ever
  when the clock stands still, so \<open>stop_wm\<close> and \<open>run_stop\<close> are runs. The lemmas give the effect of a
  dry run: it looks and reports, and changes neither a file nor the services.
\<close>

abbreviation EM_DASH :: string where "EM_DASH \<equiv> [CHR 0xE2, CHR 0x80, CHR 0x94]"

section \<open>Is a session active\<close>

definition STOP_JOB_TIMEOUT :: nat where
  "STOP_JOB_TIMEOUT = 20000"

definition GENERIC_ACTIVE_PATTERNS :: "string list" where
  "GENERIC_ACTIVE_PATTERNS =
     [''graphical-session-pre.target'', ''wayland-session-pre@*.target'', ''graphical-session.target'',
      ''wayland-session@*.target'', ''wayland-wm@*.service'']"

definition ACTIVE_STATES :: "string list" where
  "ACTIVE_STATES = [''active'', ''activating'']"

definition compositor_unit_name :: "string \<Rightarrow> string" where
  "compositor_unit_name i = ''wayland-wm@'' @ simple_systemd_escape i False @ ''.service''"

definition is_active_for :: "'b bus_ops \<Rightarrow> string option \<Rightarrow> ('b, bool) io" where
  "is_active_for ops wm_id =
     (case wm_id of
        None \<Rightarrow>
          io_bind (list_units_by_patterns ops ACTIVE_STATES GENERIC_ACTIVE_PATTERNS) (\<lambda>us.
          io_return (us \<noteq> []))
      | Some i \<Rightarrow>
          io_bind (list_units_by_patterns ops ACTIVE_STATES [compositor_unit_name i]) (\<lambda>us.
          io_return (us \<noteq> [])))"

definition is_active :: "'b bus_ops \<Rightarrow> ('b, bool) io" where
  "is_active ops = is_active_for ops None"

section \<open>Stopping\<close>

definition stop_wm :: "'b bus_ops \<Rightarrow> bool \<Rightarrow> ('b world, bool) run" where
  "stop_wm ops dry_run =
     run_bind
       (run_io (on_bus (list_units_by_patterns ops ACTIVE_STATES [''wayland-wm@*.service'']))) (\<lambda>us.
     case us of
       [] \<Rightarrow> run_return False
     | u # _ \<Rightarrow>
         if dry_run then
           run_io (io_bind (print (''Would stop '' @ ui_name u @ ''.'')) (\<lambda>_. io_return True))
         else
           run_bind (run_io (on_bus (bus_stop_unit ops (ui_name u) ''fail''))) (\<lambda>job.
           run_bind (run_bus (wait_for_job ops job (ui_name u) STOP_JOB_TIMEOUT ''20s'')) (\<lambda>_.
           run_return True)))"

record stop_opts =
  so_dry_run :: bool
  so_remove :: "string option"
  so_rung :: rung

definition parse_marks :: "string \<Rightarrow> string list option" where
  "parse_marks raw =
     (let marks = filter (\<lambda>s. s \<noteq> []) (map trim (split_on (CHR '','') raw))
      in if marks \<noteq> [] then Some marks else None)"

definition report_removal_plan :: "string \<Rightarrow> removal_plan \<Rightarrow> ('b world, unit) io" where
  "report_removal_plan dir plan =
     io_bind (print (''Dry run: removal in '' @ dir)) (\<lambda>_.
     if rp_removes plan = [] \<and> rp_skipped plan = [] then print ''  (nothing to remove)''
     else
       io_bind (io_each (\<lambda>r. print (''  - '' @ pr_relname r)) (rp_removes plan)) (\<lambda>_.
       io_bind
         (io_each
           (\<lambda>s. print (''  ! '' @ cf_relname s @ '' (left in place '' @ EM_DASH @ '' '' @ cf_reason s @ '')''))
           (rp_skipped plan)) (\<lambda>_.
       io_when (rp_removes plan \<noteq> []) (print ''  (would reload the systemd user manager)''))))"

text \<open>What follows the stop when units are to be removed: the plan, then a report or its application.\<close>

definition warn_skipped :: "conflict \<Rightarrow> ('b world, unit) io" where
  "warn_skipped s =
     eprint (''warning: leaving '' @ cf_relname s @ '' untouched '' @ EM_DASH @ '' '' @ cf_reason s)"

definition remove_units :: "'b bus_ops \<Rightarrow> stop_opts \<Rightarrow> string \<Rightarrow> ('b world, unit) io" where
  "remove_units ops opts raw_marks =
     io_bind (ask_env (\<lambda>e. rung_dir e (so_rung opts))) (\<lambda>dir.
     io_bind (ask_fs (\<lambda>s. plan_remove_all s dir (parse_marks raw_marks))) (\<lambda>plan.
     if so_dry_run opts then report_removal_plan dir plan
     else
       io_bind (io_each warn_skipped (rp_skipped plan)) (\<lambda>_.
       io_bind (on_fs (apply_removal dir plan)) (\<lambda>outcome.
       io_bind (io_each (\<lambda>r. print (''  - '' @ r)) (go_removed outcome)) (\<lambda>_.
       io_when (go_changed outcome) (on_bus (bus_reload ops)))))))"

definition run_stop :: "'b bus_ops \<Rightarrow> stop_opts \<Rightarrow> ('b world, unit) run" where
  "run_stop ops opts =
     run_bind (run_io (connect_session ops)) (\<lambda>_.
     run_bind (stop_wm ops (so_dry_run opts)) (\<lambda>found.
     run_bind (run_io (io_when (\<not> found) (print ''Compositor is not running.''))) (\<lambda>_.
     case so_remove opts of
       None \<Rightarrow> run_return ()
     | Some raw_marks \<Rightarrow> run_io (remove_units ops opts raw_marks))))"

section \<open>Runs that leave something alone\<close>

text \<open>\<open>run_stable f m\<close>: however \<open>m\<close> ends, it leaves \<open>f\<close> of the state alone.\<close>

definition run_stable :: "('w \<Rightarrow> 'x) \<Rightarrow> ('w, 'a) run \<Rightarrow> bool" where
  "run_stable f m \<longleftrightarrow> (\<forall>w o' w'. m w = Some (o', w') \<longrightarrow> f w' = f w)"

lemma run_stableD: "run_stable f m \<Longrightarrow> m w = Some (o', w') \<Longrightarrow> f w' = f w"
  unfolding run_stable_def by blast

lemma run_stable_io: "stable f m \<Longrightarrow> run_stable f (run_io m)"
  by (auto simp: run_stable_def run_io_def stable_def split: prod.splits) (metis snd_conv)

lemma run_stable_pure: "run_stable f (run_return x)" "run_stable f (run_fail e)"
  by (simp_all add: run_stable_def run_return_iff)

lemma run_stable_bind:
  assumes "run_stable f m" "\<And>x. run_stable f (g x)"
  shows "run_stable f (run_bind m g)"
  unfolding run_stable_def
proof (intro allI impI)
  fix w o' w'
  assume "run_bind m g w = Some (o', w')"
  then obtain o1 w1 where m: "m w = Some (o1, w1)"
    by (auto simp: run_bind_def split: option.splits)
  have "f w1 = f w" by (rule run_stableD[OF assms(1) m])
  moreover have "o1 = Done (Inr x) \<Longrightarrow> f w' = f w1" for x
    using \<open>run_bind m g w = Some (o', w')\<close> m run_stableD[OF assms(2), of x]
    by (simp add: run_bind_def)
  ultimately show "f w' = f w"
    using \<open>run_bind m g w = Some (o', w')\<close> m
    by (auto simp: run_bind_def split: outcome.splits sum.splits)
qed

lemma run_stable_option:
  "run_stable f m \<Longrightarrow> (\<And>x. run_stable f (g x)) \<Longrightarrow>
   run_stable f (case x of None \<Rightarrow> m | Some y \<Rightarrow> g y)"
  by (cases x) auto

lemma run_stable_list:
  "run_stable f m \<Longrightarrow> (\<And>x xs. run_stable f (g x xs)) \<Longrightarrow>
   run_stable f (case x of [] \<Rightarrow> m | y # ys \<Rightarrow> g y ys)"
  by (cases x) auto

lemma run_stable_if: "run_stable f m \<Longrightarrow> run_stable f n \<Longrightarrow> run_stable f (if b then m else n)"
  by simp

lemmas run_stable_intros = run_stable_io run_stable_pure run_stable_bind run_stable_option
  run_stable_list run_stable_if

text \<open>Printing changes only the output.\<close>

lemma stable_print: "stable w_fs (print l)" "stable w_bus (print l)" "stable w_env (print l)"
  by (simp_all add: stable_def)

lemma stable_eprint: "stable w_fs (eprint l)" "stable w_bus (eprint l)" "stable w_env (eprint l)"
  by (simp_all add: eprint_def stable_print)

lemma stable_on_bus: "stable f m \<Longrightarrow> stable (\<lambda>w. f (w_bus w)) (on_bus m)"
  by (auto simp: stable_def on_bus_def split: prod.split) (metis snd_conv)

lemma stable_dbus: "(\<And>b. f (snd (c b)) = f b) \<Longrightarrow> stable f (dbus_io c)"
  by (auto simp: stable_def dbus_io_def split: prod.split sum.split) (metis snd_conv)+

section \<open>Dry runs\<close>

text \<open>An observation of the services that connecting and listing units leave alone.\<close>

definition looks_only :: "'b bus_ops \<Rightarrow> ('b \<Rightarrow> 'x) \<Rightarrow> bool" where
  "looks_only ops f \<longleftrightarrow>
     (\<forall>b. f (snd (c_session ops b)) = f b) \<and> (\<forall>b. f (snd (c_system ops b)) = f b) \<and>
     (\<forall>ss ps b. f (snd (m_list_units ops ss ps b)) = f b)"

lemma looks_stable:
  assumes "looks_only ops f"
  shows "stable (\<lambda>w. (w_fs w, w_env w, f (w_bus w))) (connect_session ops)"
    "stable (\<lambda>w. (w_fs w, w_env w, f (w_bus w))) (connect_system ops)"
    "stable (\<lambda>w. (w_fs w, w_env w, f (w_bus w))) (on_bus (list_units_by_patterns ops ss ps))"
    "stable f (list_units_by_patterns ops ss ps)"
proof -
  have p: "stable (\<lambda>w. (w_fs w, w_env w, f (w_bus w))) (on_bus m)" if "stable f m" for m
    using stable_on_bus[OF that] stable_fs_on_bus[of m] stable_env_on_bus[of m]
    by (simp add: stable_def)
  show l: "stable f (list_units_by_patterns ops ss ps)" for ss ps
    unfolding list_units_by_patterns_def using assms by (intro stable_dbus) (simp add: looks_only_def)
  show "stable (\<lambda>w. (w_fs w, w_env w, f (w_bus w))) (connect_session ops)"
    "stable (\<lambda>w. (w_fs w, w_env w, f (w_bus w))) (connect_system ops)"
    unfolding connect_session_def connect_system_def using assms
    by (auto intro!: p stable_dbus simp: looks_only_def)
  show "stable (\<lambda>w. (w_fs w, w_env w, f (w_bus w))) (on_bus (list_units_by_patterns ops ss ps))"
    by (rule p[OF l])
qed

lemma looks_print:
  "stable (\<lambda>w. (w_fs w, w_env w, f (w_bus w))) (print l)"
  by (simp add: stable_def)

lemma report_removal_stable:
  "stable (\<lambda>w. (w_fs w, w_env w, f (w_bus w))) (report_removal_plan dir plan)"
  unfolding report_removal_plan_def by (intro stable_intros looks_print)

lemma run_stop_dry:
  assumes "looks_only ops f" "so_dry_run opts"
  shows "run_stable (\<lambda>w. (w_fs w, w_env w, f (w_bus w))) (run_stop ops opts)"
proof -
  have "stable (\<lambda>w. (w_fs w, w_env w, f (w_bus w))) (remove_units ops opts raw)" for raw
    using assms(2) unfolding remove_units_def
    by (simp only: if_True) (intro stable_intros report_removal_stable)
  moreover have "run_stable (\<lambda>w. (w_fs w, w_env w, f (w_bus w))) (stop_wm ops True)"
    unfolding stop_wm_def if_True
    by (intro run_stable_intros stable_intros looks_stable looks_print assms)
  ultimately show ?thesis
    unfolding run_stop_def using assms(2)
    by (simp only:) (intro run_stable_intros stable_intros looks_stable looks_print assms)
qed

end
