(* ===== verification/Ready.thy ===== *)
theory Ready
  imports Complex_Main Stop SessState Comp
begin

text \<open>
  The commands that run inside a session: waiting (src/session/wait.rs), the compositor's helper and
  the readiness watcher (src/session/exec.rs), finalize (src/session/finalize.rs) and cleanup-env
  (src/session/cleanup.rs). Times are in milliseconds, timeouts in microseconds as systemd gives
  them. The library's parser of floating-point numbers is the parameter \<open>parse_f64\<close>; the watcher's
  run has no result when \<open>settle_time\<close> panics on the value it gives.
\<close>

section \<open>Waiting\<close>

definition wait_timeout :: "env \<Rightarrow> nat" where
  "wait_timeout penv =
     1000000 *
     unwrap_or
       (opt_filter (\<lambda>n. 1 \<le> n)
         (case bm_get penv ''UWSM_WAIT_VARNAMES_TIMEOUT'' of Some s \<Rightarrow> parse_u64 s | None \<Rightarrow> None))
       30"

text \<open>A parsed \<open>f64\<close>, and the duration made of it in seconds: None where \<open>from_secs_f64\<close> panics, on
  a value that does not fit 64 bits, infinity included.\<close>

datatype f64_value = Finite rat | PosInfinity | NegInfinity | NotANumber

fun f64_not_negative :: "f64_value \<Rightarrow> bool" where
  "f64_not_negative (Finite q) = (0 \<le> q)"
| "f64_not_negative PosInfinity = True"
| "f64_not_negative _ = False"

fun from_secs_f64 :: "f64_value \<Rightarrow> rat option" where
  "from_secs_f64 (Finite q) = (if 0 \<le> q \<and> q < 2 ^ 64 then Some q else None)"
| "from_secs_f64 _ = None"

definition settle_time :: "(string \<Rightarrow> f64_value option) \<Rightarrow> env \<Rightarrow> rat option" where
  "settle_time parse_f64 penv =
     from_secs_f64
       (unwrap_or
         (opt_filter f64_not_negative
           (case bm_get penv ''UWSM_WAIT_VARNAMES_SETTLETIME'' of Some s \<Rightarrow> parse_f64 s | None \<Rightarrow> None))
         (Finite (1 / 5)))"

definition expected_vars :: "string list \<Rightarrow> string list" where
  "expected_vars varnames = bs_of_list (filter keep_name varnames)"

definition missing_error :: "string list \<Rightarrow> string list \<Rightarrow> error" where
  "missing_error expected have_names =
     Resolve (''timed out waiting for activation-env variables: '' @
       join_with '', '' (filter (\<lambda>n. n \<notin> set have_names) expected))"

partial_function (option) waitenv_loop ::
  "'b bus_ops \<Rightarrow> string list \<Rightarrow> nat \<Rightarrow> nat \<Rightarrow> 'b \<Rightarrow> (unit result \<times> 'b) option" where
  "waitenv_loop ops expected start timeout b =
     (case systemd_vars ops b of
        (Inl e, b1) \<Rightarrow> Some (Inl e, b1)
      | (Inr vars, b1) \<Rightarrow>
          if set expected \<subseteq> set (bm_keys vars) then Some (Inr (), b1)
          else if timeout \<le> 1000 * (t_now ops b1 - start)
          then Some (Inl (missing_error expected (bm_keys vars)), b1)
          else waitenv_loop ops expected start timeout (t_sleep ops 500 b1))"

definition waitenv ::
  "'b bus_ops \<Rightarrow> string list \<Rightarrow> nat \<Rightarrow> 'b \<Rightarrow> (unit result \<times> 'b) option" where
  "waitenv ops varnames timeout b =
     waitenv_loop ops (expected_vars varnames) (t_now ops b) timeout b"

text \<open>\<open>ESRCH\<close> is 3 and \<open>EINTR\<close> is 4; a poll that is always interrupted never returns.\<close>

partial_function (option) poll_loop :: "'b proc_ops \<Rightarrow> nat \<Rightarrow> 'b world \<Rightarrow> (unit outcome \<times> 'b world) option" where
  "poll_loop pr fd w =
     (case pr_poll pr fd w of
        (Inr _, w1) \<Rightarrow> Some (Done (Inr ()), w1)
      | (Inl e, w1) \<Rightarrow>
          if e = IoOs 4 then poll_loop pr fd w1 else Some (Done (Inl (Io ''poll'' e)), w1))"

definition waitpid :: "'b proc_ops \<Rightarrow> int \<Rightarrow> ('b world, unit) run" where
  "waitpid pr pid w =
     (if pid \<le> 0 then run_fail (InvalidArg (''invalid PID: '' @ show_int pid)) w
      else (case pr_pidfd_open pr pid w of
              (Inl e, w1) \<Rightarrow>
                if e = IoOs 3 then Some (Done (Inr ()), w1)
                else Some (Done (Inl (Io ''pidfd_open'' e)), w1)
            | (Inr fd, w1) \<Rightarrow> poll_loop pr fd w1))"

section \<open>Exporting\<close>

definition env_words :: "env \<Rightarrow> string \<Rightarrow> string list" where
  "env_words penv n = split_whitespace (unwrap_or (bm_get penv n) [])"

text \<open>The clean-up obligation is recorded before the variables are exported.\<close>

definition export_recorded :: "'b bus_ops \<Rightarrow> env \<Rightarrow> ('b world, unit) io" where
  "export_recorded ops vars =
     io_bind (append_cleanup (bm_keys vars)) (\<lambda>_. on_bus (set_systemd_vars_with ops vars))"

definition exec_systemd_notify :: "'b proc_ops \<Rightarrow> string list \<Rightarrow> ('b world, 'a) run" where
  "exec_systemd_notify pr args =
     exec_or_fail pr ''systemd-notify'' (plain_command (''systemd-notify'' # args))"

section \<open>The compositor and its watcher\<close>

definition exec_compositor :: "'b proc_ops \<Rightarrow> string list \<Rightarrow> ('b world, unit) run" where
  "exec_compositor pr cmdline =
     (case cmdline of
        [] \<Rightarrow> run_fail (InvalidArg ''empty compositor command line'')
      | prog # _ \<Rightarrow> exec_or_fail pr prog (plain_command cmdline))"

definition aux_exec :: "'b proc_ops \<Rightarrow> comp_globals \<Rightarrow> ('b world, unit) run" where
  "aux_exec pr cg =
     run_bind (run_io (proc_io ''current_exe'' (\<lambda>w. (pr_self_exe pr w, w)))) (\<lambda>self_exe.
     run_bind
       (run_io
         (proc_io ''spawn readiness watcher''
           (pr_spawn pr (plain_command [self_exe, ''aux'', ''readiness'', cg_id cg])))) (\<lambda>_.
     exec_compositor pr (cg_cmdline cg)))"

definition env_diff :: "env \<Rightarrow> env \<Rightarrow> env" where
  "env_diff pre post = filter (\<lambda>(k, v). bm_get pre k \<noteq> Some v) post"

definition wm_service :: "comp_globals \<Rightarrow> string" where
  "wm_service cg = ''wayland-wm@'' @ cg_id_unit_string cg @ ''.service''"

definition list_activating :: "'b bus_ops \<Rightarrow> ('b world, unit_info list) io" where
  "list_activating ops =
     on_bus (list_units_by_patterns ops [''activating''] [''wayland-wm@*.service''])"

text \<open>The end of the watcher: declare readiness, or narrow the notification access, or nothing.\<close>

definition declare_readiness :: "'b bus_ops \<Rightarrow> 'b proc_ops \<Rightarrow> string \<Rightarrow> ('b world, unit) run" where
  "declare_readiness ops pr u =
     run_bind (run_io (list_activating ops)) (\<lambda>activating.
     if activating \<noteq> [] then exec_systemd_notify pr [''READY=1'', ''NOTIFYACCESS=exec'']
     else
       run_bind (run_io (on_bus (active_wm_unit ops))) (\<lambda>wm.
       if wm = None then run_return ()
       else
         run_bind (run_io (io_try (on_bus (service_notify_access ops u)))) (\<lambda>r.
         if r = Inr ''all'' then exec_systemd_notify pr [''NOTIFYACCESS=exec'']
         else run_return ())))"

definition watch_vars :: "env \<Rightarrow> string list" where
  "watch_vars penv = ''WAYLAND_DISPLAY'' # env_words penv ''UWSM_WAIT_VARNAMES''"

text \<open>\<open>sleep(settle_time())\<close>, in whole milliseconds; a panic of \<open>settle_time\<close> ends the process.\<close>

definition settle ::
  "(string \<Rightarrow> f64_value option) \<Rightarrow> 'b bus_ops \<Rightarrow> env \<Rightarrow> ('b world, unit) run" where
  "settle parse_f64 ops penv =
     (case settle_time parse_f64 penv of
        None \<Rightarrow> (\<lambda>_. None)
      | Some secs \<Rightarrow> run_io (on_bus (\<lambda>b. (Inr (), t_sleep ops (nat \<lceil>1000 * secs\<rceil>) b))))"

definition readiness_watch ::
  "'b bus_ops \<Rightarrow> 'b proc_ops \<Rightarrow> (string \<Rightarrow> f64_value option) \<Rightarrow> comp_globals \<Rightarrow>
   ('b world, unit) run" where
  "readiness_watch ops pr parse_f64 cg =
     run_bind (run_io (connect_session ops)) (\<lambda>_.
     run_bind (run_io (on_bus (systemd_vars ops))) (\<lambda>env_pre.
     run_bind (run_io (io_try (on_bus (service_timeout_start_usec ops (wm_service cg))))) (\<lambda>t.
     run_bind (run_io (io_get w_env)) (\<lambda>penv.
     run_bind
       (run_bus (waitenv ops (watch_vars penv)
         (case t of Inr us \<Rightarrow> us | Inl _ \<Rightarrow> wait_timeout penv))) (\<lambda>_.
     run_bind (settle parse_f64 ops penv) (\<lambda>_.
     run_bind (run_io (on_bus (systemd_vars ops))) (\<lambda>env_post.
     run_bind
       (run_io (io_when (env_diff env_pre env_post \<noteq> [])
         (export_recorded ops (env_diff env_pre env_post)))) (\<lambda>_.
     declare_readiness ops pr (wm_service cg)))))))))"

section \<open>Finalize and cleanup-env\<close>

definition finalize_env :: "env \<Rightarrow> string list \<Rightarrow> env" where
  "finalize_env penv extra_vars =
     bm_of_list
       (List.map_filter
         (\<lambda>n. if keep_name n then map_option (Pair n) (bm_get penv n) else None)
         ([''WAYLAND_DISPLAY'', ''DISPLAY''] @ extra_vars))"

definition finalize_notify :: "'b bus_ops \<Rightarrow> 'b proc_ops \<Rightarrow> ('b world, unit) run" where
  "finalize_notify ops pr =
     run_bind (run_io (list_activating ops)) (\<lambda>activating.
     if activating \<noteq> [] then exec_systemd_notify pr [''READY=1'', ''NOTIFYACCESS=exec'']
     else
       run_bind (run_io (on_bus (active_wm_unit ops))) (\<lambda>wm.
       case wm of
         None \<Rightarrow> run_return ()
       | Some u \<Rightarrow>
           run_bind (run_io (on_bus (service_notify_access ops u))) (\<lambda>access.
           if access = ''all'' then exec_systemd_notify pr [''NOTIFYACCESS=exec'']
           else run_return ())))"

definition no_display_error :: error where
  "no_display_error =
     Resolve (''WAYLAND_DISPLAY is not set '' @ EM_DASH @ '' are we being run by a Wayland compositor?'')"

definition finalize :: "'b bus_ops \<Rightarrow> 'b proc_ops \<Rightarrow> string list \<Rightarrow> ('b world, unit) run" where
  "finalize ops pr extra_vars =
     run_bind (run_io (io_get w_env)) (\<lambda>penv.
     if non_empty_var penv ''WAYLAND_DISPLAY'' = None then run_fail no_display_error
     else
       run_bind (run_io (connect_session ops)) (\<lambda>_.
       run_bind (run_io (export_recorded ops (finalize_env penv extra_vars))) (\<lambda>_.
       finalize_notify ops pr)))"

definition cleanup_env :: "'b bus_ops \<Rightarrow> ('b world, unit) io" where
  "cleanup_env ops =
     io_bind (connect_session ops) (\<lambda>_.
     io_bind (end_generation (session_state_ops ops)) (\<lambda>_.
     io_bind (wpath ''env_session.conf'') (\<lambda>conf.
     io_bind (on_fs (sys_ignore (std_remove_file conf))) (\<lambda>_.
     io_bind (wpath ''libexec'') (\<lambda>libexec.
     on_fs (sys_ignore (std_remove_dir_all libexec)))))))"

section \<open>Waiting ends\<close>

text \<open>Under the clock contract of the services \<open>waitenv\<close> returns, and when it does the variables
  were there, or the time was up and some were missing.\<close>

lemma systemd_vars_now:
  assumes "systemd_vars ops b = (r, b')" "\<And>b. t_now ops b \<le> t_now ops (snd (m_environment ops b))"
  shows "t_now ops b \<le> t_now ops b'"
  using assms(1) assms(2)[of b]
  by (auto simp: systemd_vars_def io_bind_def dbus_io_def split: prod.splits sum.splits)

lemma waitenv_loop_ends:
  assumes c: "clock ops" and e: "\<And>b. t_now ops b \<le> t_now ops (snd (m_environment ops b))"
  shows "\<exists>r b'. waitenv_loop ops expected start timeout b = Some (r, b')"
proof (induction "start + timeout - t_now ops b" arbitrary: b rule: less_induct)
  case less
  obtain r b1 where v: "systemd_vars ops b = (r, b1)" by (cases "systemd_vars ops b")
  have n: "t_now ops b \<le> t_now ops b1" by (rule systemd_vars_now[OF v e])
  show ?case
  proof (cases r)
    case (Inl err)
    then show ?thesis using v by (subst waitenv_loop.simps) simp
  next
    case (Inr vars)
    have s: "t_now ops b1 + 500 \<le> t_now ops (t_sleep ops 500 b1)" by (rule clock.sleep_now[OF c])
    show ?thesis
    proof (cases "set expected \<subseteq> set (bm_keys vars) \<or> timeout \<le> 1000 * (t_now ops b1 - start)")
      case True
      then show ?thesis using v Inr by (subst waitenv_loop.simps) auto
    next
      case False
      then have "start + timeout - t_now ops (t_sleep ops 500 b1) < start + timeout - t_now ops b"
        using n s by (cases "t_now ops b1 \<le> start") auto
      from less(1)[OF this] show ?thesis using v Inr False by (subst waitenv_loop.simps) auto
    qed
  qed
qed

definition waitenv_answer ::
  "'b bus_ops \<Rightarrow> string list \<Rightarrow> nat \<Rightarrow> nat \<Rightarrow> unit result \<times> 'b \<Rightarrow> bool" where
  "waitenv_answer ops expected start timeout y \<longleftrightarrow>
     (\<exists>b1 r. systemd_vars ops b1 = (r, snd y) \<and>
       (case r of
          Inl e \<Rightarrow> fst y = Inl e
        | Inr vars \<Rightarrow>
            if set expected \<subseteq> set (bm_keys vars) then fst y = Inr ()
            else fst y = Inl (missing_error expected (bm_keys vars)) \<and>
              timeout \<le> 1000 * (t_now ops (snd y) - start)))"

lemma waitenv_loop_meaning:
  assumes run: "waitenv_loop ops expected start timeout b = Some y"
  shows "waitenv_answer ops expected start timeout y"
proof (rule waitenv_loop.raw_induct
    [where P = "\<lambda>ops expected start timeout b y. waitenv_answer ops expected start timeout y",
     OF _ run])
  fix loop and ops :: "'a bus_ops" and expected start timeout b y
  assume IH: "\<And>ops expected start timeout b y.
      loop ops expected start timeout b = Some y \<Longrightarrow> waitenv_answer ops expected start timeout y"
    and l: "(case systemd_vars ops b of
        (Inl e, b1) \<Rightarrow> Some (Inl e, b1)
      | (Inr vars, b1) \<Rightarrow>
          if set expected \<subseteq> set (bm_keys vars) then Some (Inr (), b1)
          else if timeout \<le> 1000 * (t_now ops b1 - start)
          then Some (Inl (missing_error expected (bm_keys vars)), b1)
          else loop ops expected start timeout (t_sleep ops 500 b1)) = Some y"
  obtain r b1 where v: "systemd_vars ops b = (r, b1)" by (cases "systemd_vars ops b")
  show "waitenv_answer ops expected start timeout y"
  proof (cases r)
    case (Inl e)
    with l v show ?thesis unfolding waitenv_answer_def by (intro exI[of _ b] exI[of _ r]) auto
  next
    case (Inr vars)
    consider (there) "set expected \<subseteq> set (bm_keys vars)"
      | (late) "\<not> set expected \<subseteq> set (bm_keys vars)" "timeout \<le> 1000 * (t_now ops b1 - start)"
      | (again) "\<not> set expected \<subseteq> set (bm_keys vars)" "\<not> timeout \<le> 1000 * (t_now ops b1 - start)"
      by blast
    then show ?thesis
    proof cases
      case again
      with l v Inr show ?thesis by (intro IH[of ops expected start timeout "t_sleep ops 500 b1"]) simp
    next
      case there
      with l v Inr show ?thesis unfolding waitenv_answer_def by (intro exI[of _ b] exI[of _ r]) auto
    next
      case late
      with l v Inr show ?thesis unfolding waitenv_answer_def by (intro exI[of _ b] exI[of _ r]) auto
    qed
  qed
qed

text \<open>The settle time panics on the word that the library parses as infinity, and only on values that
  are too large.\<close>

lemma settle_time_panics:
  "parse_f64 ''inf'' = Some PosInfinity \<Longrightarrow>
   settle_time parse_f64 [(''UWSM_WAIT_VARNAMES_SETTLETIME'', ''inf'')] = None"
  by (simp add: settle_time_def bm_get_def)

lemma settle_time_bounds: "settle_time parse_f64 penv = Some t \<Longrightarrow> 0 \<le> t \<and> t < 2 ^ 64"
  unfolding settle_time_def by (erule from_secs_f64.elims) (auto split: if_splits)

end
