(* ===== verification/Prepare.thy ===== *)
theory Prepare
  imports Ready Util EnvDelta
begin

text \<open>
  The env-preloader: deducing the session's identity, running the shell loader, exporting what it
  changed (src/session/prepare.rs) and the helper scripts it runs (src/session/helpers.rs). The two
  scripts of src/libexec are compiled into the program as data: they are the record
  \<open>helper_scripts\<close>, and what the loader prints is the answer of the operation \<open>pr_output\<close>.
\<close>

section \<open>src/session/helpers.rs\<close>

record helper_scripts =
  hs_prepare_env :: string
  hs_signal_handler :: string

definition set_executable :: "string \<Rightarrow> (fs, unit) io" where
  "set_executable path = sys_io path (std_set_mode path 493)"

definition helper_body :: "helper_scripts \<Rightarrow> string \<Rightarrow> string result" where
  "helper_body hs name =
     (if name = ''prepare-env.sh'' then Inr (hs_prepare_env hs)
      else if name = ''signal-handler.sh'' then Inr (hs_signal_handler hs)
      else Inl (InvalidArg (''unknown helper script '' @ debug_str name)))"

definition extract_helper :: "helper_scripts \<Rightarrow> string \<Rightarrow> ('b world, string) io" where
  "extract_helper hs name =
     io_bind (io_lift (helper_body hs name)) (\<lambda>body.
     io_bind (ask_env runtime_dir) (\<lambda>rt.
     let dir = path_join (path_join rt ''wsmr'') ''libexec'';
         path = path_join dir name
     in io_bind (on_fs (sys_io dir (std_create_dir_all dir))) (\<lambda>_.
        io_bind (on_fs (sys_io path (std_write path body))) (\<lambda>_.
        io_bind (on_fs (set_executable path)) (\<lambda>_. io_return path)))))"

section \<open>The session's identity\<close>

definition session_conf :: "env \<Rightarrow> env" where
  "session_conf e =
     bm_of_list (List.map_filter (\<lambda>k. map_option (Pair k) (non_empty_var e k)) SESSION_SPECIFIC)"

definition save_session_conf :: "env \<Rightarrow> ('b world, unit) io" where
  "save_session_conf e =
     io_bind (wpath ''env_session.conf'') (\<lambda>p. on_fs (save_env p (session_conf e) Newline))"

text \<open>The map that the source updates in place is passed and returned.\<close>

definition deduce_session_with :: "'b bus_ops \<Rightarrow> env \<Rightarrow> nat \<Rightarrow> ('b world, env) io" where
  "deduce_session_with ops env_login vt =
     io_bind (on_bus (session_by_vt ops vt)) (\<lambda>found.
     case found of
       None \<Rightarrow> io_fail (Resolve (''could not determine login session on VT '' @ show_nat vt))
     | Some (sid, seat) \<Rightarrow>
         (let e = bm_insert ''XDG_SEAT'' seat (bm_insert ''XDG_SESSION_ID'' sid env_login)
          in io_bind (save_session_conf e) (\<lambda>_. io_return e)))"

definition login_vt :: "env \<Rightarrow> ('b world, nat \<times> env) io" where
  "login_vt env_login =
     (case (case bm_get env_login ''XDG_VTNR'' of Some s \<Rightarrow> parse_u32 s | None \<Rightarrow> None) of
        Some v \<Rightarrow> io_return (v, env_login)
      | None \<Rightarrow>
          io_bind (ask_fs read_fg_vt) (\<lambda>v.
          io_return (v, bm_insert ''XDG_VTNR'' (show_nat v) env_login)))"

definition deduce_session :: "'b bus_ops \<Rightarrow> env \<Rightarrow> ('b world, env) io" where
  "deduce_session ops env_login =
     (if non_empty_var env_login ''XDG_SEAT'' \<noteq> None \<and> non_empty_var env_login ''XDG_SESSION_ID'' \<noteq> None
      then io_return env_login
      else
        io_bind (login_vt env_login) (\<lambda>(vt, e).
        io_bind (connect_system ops) (\<lambda>_. deduce_session_with ops e vt)))"

text \<open>The fallback binding to the session leader; whatever fails is only reported.\<close>

definition start_bindpid :: "'b proc_ops \<Rightarrow> nat \<Rightarrow> ('b world, unit) io" where
  "start_bindpid pr leader w =
     (Inr (), snd (pr_status pr (plain_command
        [''systemctl'', ''--user'', ''start'', ''wayland-session-bindpid@'' @ show_nat leader @ ''.service'']) w))"

definition bind_to_leader :: "'b bus_ops \<Rightarrow> 'b proc_ops \<Rightarrow> string \<Rightarrow> ('b world, unit) io" where
  "bind_to_leader ops pr sid =
     io_bind
       (io_try (io_bind (connect_system ops) (\<lambda>_. on_bus (session_leader ops sid)))) (\<lambda>r.
     case r of
       Inl e \<Rightarrow> eprint (''wsmr: could not determine session-leader PID: '' @ show_error pr e)
     | Inr leader \<Rightarrow>
         io_bind
           (eprint (''wsmr: no bindpid unit active; binding to session-leader PID '' @ show_nat leader))
           (\<lambda>_. start_bindpid pr leader))"

definition ensure_bindpid :: "'b bus_ops \<Rightarrow> 'b proc_ops \<Rightarrow> env \<Rightarrow> ('b world, unit) io" where
  "ensure_bindpid ops pr e =
     io_bind
       (io_try (on_bus (list_units_by_patterns ops ACTIVE_STATES [''wayland-session-bindpid@*.service''])))
       (\<lambda>r.
     case r of
       Inl err \<Rightarrow> eprint (''wsmr: could not check for a bindpid unit: '' @ show_error pr err)
     | Inr us \<Rightarrow>
         if us \<noteq> [] then io_return ()
         else (case non_empty_var e ''XDG_SESSION_ID'' of
                 None \<Rightarrow> eprint ''wsmr: no XDG_SESSION_ID; skipping bindpid fallback''
               | Some sid \<Rightarrow> bind_to_leader ops pr sid))"

section \<open>The loader\<close>

definition sh_quote :: "string \<Rightarrow> string" where
  "sh_quote s =
     (if s = [] then [SQ, SQ]
      else if list_all (\<lambda>c. is_alnum c \<or> c \<in> set ''@%+=:,./-_'') s then s
      else [SQ] @ replace_all [SQ] [SQ, DQ, SQ, DQ, SQ] s @ [SQ])"

definition aux_lines :: "comp_globals \<Rightarrow> string \<Rightarrow> bool \<Rightarrow> string list" where
  "aux_lines cg mark have_login =
     [''__SELF_NAME__=wsmr'',
      ''__WM_ID__='' @ sh_quote (cg_id cg),
      ''__WM_ID_UNIT_STRING__='' @ sh_quote (cg_id_unit_string cg),
      ''__WM_BIN_ID__='' @ sh_quote (cg_bin_id cg),
      ''__WM_DESKTOP_NAMES__='' @ sh_quote (join_with '':'' (cg_desktop_names cg)),
      ''__WM_FIRST_DESKTOP_NAME__='' @
        sh_quote (case cg_desktop_names cg of n # _ \<Rightarrow> n | [] \<Rightarrow> []),
      ''__WM_DESKTOP_NAMES_EXCLUSIVE__=false'',
      ''__LOAD_PROFILE__='' @ (if have_login then ''true'' else ''false''),
      ''__OIFS__='' @ [DQ, CHR '' '', TAB, NL, DQ],
      ''__RANDOM_MARK__='' @ mark,
      ''IN_UWSM_ENV_PRELOADER=true'']"

definition aux_vars :: "comp_globals \<Rightarrow> string \<Rightarrow> bool \<Rightarrow> string" where
  "aux_vars cg mark have_login = join_with [NL] (aux_lines cg mark have_login) @ [NL]"

text \<open>The mark is drawn like the generation's identifier.\<close>

definition random_mark :: "('b world, string) io" where
  "random_mark = random_hex_id"

definition loader_command :: "string \<Rightarrow> string \<Rightarrow> env \<Rightarrow> command" where
  "loader_command script aux_path env_merged =
     (plain_command [''/bin/sh'', script, aux_path])\<lparr>cmd_env := Some env_merged\<rparr>"

definition loader_result :: "cmd_output \<Rightarrow> string \<Rightarrow> env result" where
  "loader_result out mark =
     rbind (parse_shell_dump (co_stdout out) mark) (\<lambda>parsed.
     if \<not> co_success out
     then Inl (Resolve (''env preloader shell exited with '' @ co_status out @ '': '' @
                        trim (co_stderr out)))
     else Inr (sd_env parsed))"

definition run_loader ::
  "'b proc_ops \<Rightarrow> helper_scripts \<Rightarrow> comp_globals \<Rightarrow> env \<Rightarrow> string \<Rightarrow> bool \<Rightarrow> ('b world, env) io" where
  "run_loader pr hs cg env_merged mark have_login =
     io_bind (wpath (''vars_'' @ mark)) (\<lambda>aux_path.
     io_bind
       (case path_parent aux_path of
          Some p \<Rightarrow> on_fs (sys_io p (std_create_dir_all p))
        | None \<Rightarrow> io_return ()) (\<lambda>_.
     io_bind (on_fs (sys_io aux_path (std_write aux_path (aux_vars cg mark have_login)))) (\<lambda>_.
     io_bind (extract_helper hs ''prepare-env.sh'') (\<lambda>script.
     io_bind
       (proc_io ''/bin/sh'' (pr_output pr (loader_command script aux_path env_merged))) (\<lambda>out.
     io_bind (on_fs (sys_ignore (std_remove_file aux_path))) (\<lambda>_.
     io_lift (loader_result out mark)))))))"

section \<open>The whole preparation\<close>

definition apply_delta :: "'b bus_ops \<Rightarrow> env_changes \<Rightarrow> ('b world, unit) io" where
  "apply_delta ops ch =
     io_bind (append_cleanup (ch_cleanup ch)) (\<lambda>_.
     io_bind (io_when (ch_set ch \<noteq> []) (on_bus (set_systemd_vars_with ops (ch_set ch)))) (\<lambda>_.
     io_when (ch_unset ch \<noteq> []) (on_bus (unset_systemd_vars_with ops (ch_unset ch)))))"

definition take_login_env :: "('b world, env) io" where
  "take_login_env =
     io_bind (wpath ''env_login'') (\<lambda>p.
     io_bind (ask_fs (\<lambda>s. load_env s p)) (\<lambda>e.
     io_bind (on_fs (sys_ignore (std_remove_file p))) (\<lambda>_. io_return e)))"

definition prepare_env ::
  "'b bus_ops \<Rightarrow> 'b proc_ops \<Rightarrow> helper_scripts \<Rightarrow> comp_globals \<Rightarrow> ('b world, unit) io" where
  "prepare_env ops pr hs cg =
     io_bind (connect_session ops) (\<lambda>_.
     io_bind take_login_env (\<lambda>env_login0.
     let have_login = (env_login0 \<noteq> [])
     in io_bind (deduce_session ops env_login0) (\<lambda>env_login.
        io_bind (ensure_bindpid ops pr env_login) (\<lambda>_.
        io_bind (on_bus (systemd_vars ops)) (\<lambda>env_pre.
        io_bind (begin_generation (session_state_ops ops) env_pre) (\<lambda>_.
        io_bind random_mark (\<lambda>mark.
        io_bind (run_loader pr hs cg (bm_extend env_pre env_login) mark have_login) (\<lambda>env_post.
        apply_delta ops (compute_changes env_pre env_post)))))))))"

section \<open>Quoting in the loader's variables\<close>

lemma sh_quote_shlex: "sh_quote s = shlex_quote s"
  by (simp add: sh_quote_def shlex_quote_def shlex_safe_def[abs_def])

text \<open>A shell reads an assignment with a quoted value back as one word.\<close>

lemma sh_split_assignment:
  assumes "list_all shlex_safe n"
  shows "sh_split (n @ sh_quote v) = Some [n @ v]"
proof -
  have "sh_split_from Bare None (n @ shlex_quote v @ []) =
      sh_split_from Bare (if n = [] then None else Some n) (shlex_quote v @ [])"
  proof (cases "n = []")
    case False
    with assms show ?thesis using sh_split_safe[of n None "shlex_quote v"] by simp
  qed simp
  with sh_split_quote[of "if n = [] then None else Some n" v "[]"] show ?thesis
    by (simp add: sh_split_def sh_quote_shlex)
qed

end
