(* ===== verification/Protocol.thy ===== *)
theory Protocol
  imports Prepare
begin

text \<open>
  The session as a whole: prepare-env, then any number of finalize and readiness runs of separate
  processes, with others changing variables of their own meanwhile, then cleanup-env. The invariant
  says that every variable the session added is recorded under the current generation, so the end of
  the session can take it back, wherever a run failed. The contract \<open>session_host\<close> collects what is
  relied on of the services and the operating system.
\<close>

section \<open>Operations that keep an invariant\<close>

definition io_keeps :: "('w \<Rightarrow> bool) \<Rightarrow> ('w, 'a) io \<Rightarrow> bool" where
  "io_keeps P m \<longleftrightarrow> (\<forall>w r w'. P w \<longrightarrow> m w = (r, w') \<longrightarrow> P w')"

definition run_keeps :: "('w \<Rightarrow> bool) \<Rightarrow> ('w, 'a) run \<Rightarrow> bool" where
  "run_keeps P m \<longleftrightarrow> (\<forall>w o' w'. P w \<longrightarrow> m w = Some (o', w') \<longrightarrow> P w')"

lemma io_keepsD: "io_keeps P m \<Longrightarrow> P w \<Longrightarrow> m w = (r, w') \<Longrightarrow> P w'"
  unfolding io_keeps_def by blast

lemma run_keepsD: "run_keeps P m \<Longrightarrow> P w \<Longrightarrow> m w = Some (o', w') \<Longrightarrow> P w'"
  unfolding run_keeps_def by blast

lemma io_keeps_bind: "io_keeps P m \<Longrightarrow> (\<And>x. io_keeps P (g x)) \<Longrightarrow> io_keeps P (io_bind m g)"
proof -
  assume m: "io_keeps P m" and g: "\<And>x. io_keeps P (g x)"
  show ?thesis
    unfolding io_keeps_def
  proof (intro allI impI)
    fix w r w'
    assume P: "P w" and run: "io_bind m g w = (r, w')"
    obtain r1 w1 where mw: "m w = (r1, w1)" by (cases "m w")
    have P1: "P w1" by (rule io_keepsD[OF m P mw])
    with run mw io_keepsD[OF g P1] show "P w'" by (cases r1) (auto simp: io_bind_def)
  qed
qed

lemma io_keeps_when: "io_keeps P m \<Longrightarrow> io_keeps P (io_when b m)"
  by (auto simp: io_keeps_def io_when_def io_return_def)

lemma io_keeps_view: "(\<And>w w'. f w' = f w \<Longrightarrow> P w' = P w) \<Longrightarrow> stable f m \<Longrightarrow> io_keeps P m"
  unfolding io_keeps_def using stableD by metis

lemma run_keeps_io: "io_keeps P m \<Longrightarrow> run_keeps P (run_io m)"
  by (auto simp: run_keeps_def io_keeps_def run_io_def split: prod.splits)

lemma run_keeps_pure: "run_keeps P (run_return x)" "run_keeps P (run_fail e)"
  by (simp_all add: run_keeps_def run_return_iff)

lemma run_keeps_bind:
  assumes "run_keeps P m" "\<And>x. run_keeps P (g x)"
  shows "run_keeps P (run_bind m g)"
  unfolding run_keeps_def
proof (intro allI impI)
  fix w o' w'
  assume P: "P w" and run: "run_bind m g w = Some (o', w')"
  then obtain o1 w1 where m: "m w = Some (o1, w1)"
    by (auto simp: run_bind_def split: option.splits)
  have P1: "P w1" by (rule run_keepsD[OF assms(1) P m])
  have "o1 = Done (Inr x) \<Longrightarrow> P w'" for x
    using run m run_keepsD[OF assms(2) P1, of x] by (simp add: run_bind_def)
  with P1 show "P w'" using run m by (auto simp: run_bind_def split: outcome.splits sum.splits)
qed

lemma run_keeps_if: "run_keeps P m \<Longrightarrow> run_keeps P n \<Longrightarrow> run_keeps P (if b then m else n)"
  by simp

lemma run_keeps_option:
  "run_keeps P m \<Longrightarrow> (\<And>x. run_keeps P (g x)) \<Longrightarrow>
   run_keeps P (case x of None \<Rightarrow> m | Some y \<Rightarrow> g y)"
  by (cases x) auto

lemmas run_keeps_intros = run_keeps_pure run_keeps_bind run_keeps_if run_keeps_option run_keeps_io

section \<open>What a session's processes see\<close>

definition fs_view :: "string \<Rightarrow> fs \<Rightarrow>
    (string \<Rightarrow> io_error option) \<times> string option list \<times> bool list" where
  "fs_view D s =
     (fs_rfail s, map (file_at s) [gen_file D, pre_file D, cleanup_list D],
      map (is_dir s) [gen_file D, pre_file D, cleanup_list D])"

definition state_view :: "string \<Rightarrow> ('b \<Rightarrow> 'x) \<Rightarrow> 'b world \<Rightarrow>
    (error + string) \<times> ((string \<Rightarrow> io_error option) \<times> string option list \<times> bool list) \<times> 'x" where
  "state_view D act w = (session_dir (w_env w), fs_view D (w_fs w), act (w_bus w))"

lemma state_view_on_fs: "stable (fs_view D) m \<Longrightarrow> stable (state_view D act) (on_fs m)"
  by (auto simp: stable_def state_view_def on_fs_def split: prod.split) (metis snd_conv)

lemma state_view_on_bus: "stable act m \<Longrightarrow> stable (state_view D act) (on_bus m)"
  by (auto simp: stable_def state_view_def on_bus_def split: prod.split) (metis snd_conv)

lemma state_view_ask:
  "stable (state_view D act) (ask_fs h)" "stable (state_view D act) (ask_env k)"
  "stable (state_view D act) (io_get g)" "stable (state_view D act) (print l)"
  "stable (state_view D act) (eprint l)"
  by (simp_all add: stable_def state_view_def eprint_def)

text \<open>What \<open>unset\<close> and \<open>set\<close> may do is said of the names they are given.\<close>

definition recorded :: "string \<Rightarrow> 'b world \<Rightarrow> string \<Rightarrow> bool" where
  "recorded D w k \<longleftrightarrow> k \<in> set (listed_now (w_fs w) D) \<or> k \<in> set always_cleanup"

text \<open>The invariant: \<open>A\<close> is the activation environment before the session, \<open>X\<close> the names that
  others change meanwhile.\<close>

definition session_inv ::
  "('b \<Rightarrow> string \<Rightarrow> string option) \<Rightarrow> (string \<Rightarrow> string option) \<Rightarrow> string set \<Rightarrow> string \<Rightarrow>
   'b world \<Rightarrow> bool" where
  "session_inv act A X D w \<longleftrightarrow>
     session_dir (w_env w) = Inr D \<and> rfail_ok (w_fs w) \<and>
     (\<exists>g. v_gen (w_fs w) D = Some g \<and> gen_ok g) \<and>
     (\<forall>k. keep_name k \<longrightarrow> bm_get (v_pre (w_fs w) D) k = A k) \<and>
     (\<forall>k. k \<notin> X \<longrightarrow> \<not> keep_name k \<longrightarrow> act (w_bus w) k = A k) \<and>
     (\<forall>k. k \<notin> X \<longrightarrow> k \<notin> set never_cleanup \<longrightarrow> keep_name k \<longrightarrow> A k = None \<longrightarrow>
        act (w_bus w) k \<noteq> None \<longrightarrow> recorded D w k)"

lemma session_inv_view:
  assumes "state_view D act w' = state_view D act w"
  shows "session_inv act A X D w' = session_inv act A X D w"
proof -
  have f: "file_at (w_fs w') (gen_file D) = file_at (w_fs w) (gen_file D)"
    "file_at (w_fs w') (pre_file D) = file_at (w_fs w) (pre_file D)"
    "file_at (w_fs w') (cleanup_list D) = file_at (w_fs w) (cleanup_list D)"
    "session_dir (w_env w') = session_dir (w_env w)" "fs_rfail (w_fs w') = fs_rfail (w_fs w)"
    "act (w_bus w') = act (w_bus w)"
    using assms by (simp_all add: state_view_def fs_view_def)
  then show ?thesis
    by (simp add: session_inv_def recorded_def v_gen_def v_pre_def v_listed_def rfail_ok_def)
qed

lemma io_keeps_session: "stable (state_view D act) m \<Longrightarrow> io_keeps (session_inv act A X D) m"
  by (rule io_keeps_view[OF session_inv_view])

text \<open>A change of the bus keeps the invariant when it only touches exportable names that are restored,
  exempt or recorded.\<close>

lemma session_inv_bus:
  assumes i: "session_inv act A X D w"
    and c: "\<And>k. k \<notin> X \<Longrightarrow> act b k = act (w_bus w) k \<or>
      keep_name k \<and> (k \<in> set never_cleanup \<or> A k \<noteq> None \<or> recorded D w k)"
  shows "session_inv act A X D (w\<lparr>w_bus := b\<rparr>)"
proof -
  have rec: "recorded D (w\<lparr>w_bus := b\<rparr>) k = recorded D w k" for k by (simp add: recorded_def)
  have "act b k = A k" if "k \<notin> X" "\<not> keep_name k" for k
    using c[of k] i that by (simp add: session_inv_def)
  moreover have "recorded D w k"
    if "k \<notin> X" "k \<notin> set never_cleanup" "keep_name k" "A k = None" "act b k \<noteq> None" for k
  proof (cases "act b k = act (w_bus w) k")
    case True
    with i that show ?thesis unfolding session_inv_def by metis
  next
    case False
    with c[of k] that show ?thesis by blast
  qed
  ultimately show ?thesis using i by (auto simp: session_inv_def rec)
qed

text \<open>Recording names keeps the invariant and records them.\<close>

lemma append_recorded:
  assumes i: "session_inv act A X D w" and run: "append_cleanup names w = (r, w')"
  shows "session_inv act A X D w'" "w_bus w' = w_bus w"
    "r = Inr u \<Longrightarrow> k \<in> set names \<Longrightarrow> keep_name k \<Longrightarrow> recorded D w' k"
proof -
  from i obtain g where D: "session_dir (w_env w) = Inr D" and rf: "rfail_ok (w_fs w)"
    and g: "v_gen (w_fs w) D = Some g" "gen_ok g"
    by (auto simp: session_inv_def)
  have all: "w_bus w' = w_bus w \<and> w_env w' = w_env w \<and> rfail_ok (w_fs w') \<and>
    v_gen (w_fs w') D = Some g \<and> v_pre (w_fs w') D = v_pre (w_fs w) D \<and>
    set (v_listed (w_fs w) D) \<subseteq> set (v_listed (w_fs w') D) \<and>
    (is_ok r \<longrightarrow> (\<forall>k\<in>set names. keep_name k \<longrightarrow> CleanupEntry g k \<in> set (v_listed (w_fs w') D)))"
  proof (cases r)
    case (Inl e)
    with append_cleanup_err[OF D rf, of names e w'] run g show ?thesis by simp
  next
    case (Inr u)
    with run have "append_cleanup names w = (Inr u, w')" by simp
    from append_cleanup_ok[OF D rf this] g show ?thesis by auto
  qed
  then have l: "k \<in> set (listed_now (w_fs w) D) \<Longrightarrow> k \<in> set (listed_now (w_fs w') D)" for k
    using g by (auto simp: listed_names_def)
  show "w_bus w' = w_bus w" using all by blast
  have rec: "recorded D w k \<Longrightarrow> recorded D w' k" for k using l by (auto simp: recorded_def)
  have inv: "\<forall>k. keep_name k \<longrightarrow> bm_get (v_pre (w_fs w) D) k = A k"
    "\<forall>k. k \<notin> X \<longrightarrow> \<not> keep_name k \<longrightarrow> act (w_bus w) k = A k"
    "\<forall>k. k \<notin> X \<longrightarrow> k \<notin> set never_cleanup \<longrightarrow> keep_name k \<longrightarrow> A k = None \<longrightarrow>
        act (w_bus w) k \<noteq> None \<longrightarrow> recorded D w k"
    using i unfolding session_inv_def by blast+
  show "session_inv act A X D w'"
    unfolding session_inv_def using D g all inv rec by simp
  show "r = Inr u \<Longrightarrow> k \<in> set names \<Longrightarrow> keep_name k \<Longrightarrow> recorded D w' k"
    using all by (force simp: recorded_def listed_names_def)
qed

section \<open>The contract\<close>

locale session_host = systemd_manager ops act
  for ops :: "'b bus_ops" and act :: "'b \<Rightarrow> string \<Rightarrow> string option" +
  fixes pr :: "'b proc_ops"
  assumes connect_act: "act (snd (c_session ops b)) = act b" "act (snd (c_system ops b)) = act b"
    and list_units_act: "act (snd (m_list_units ops ss ps b)) = act b"
    and service_act: "act (snd (s_notify_access ops p b)) = act b"
      "act (snd (s_timeout_start_usec ops p b)) = act b"
    and login_act: "act (snd (l_list_sessions ops b)) = act b"
      "act (snd (l_get_session ops i b)) = act b" "act (snd (l_vtnr ops p b)) = act b"
      "act (snd (l_leader ops p b)) = act b"
    and sleep_act: "act (t_sleep ops ms b) = act b"
    and exec_view: "state_view D act (snd (pr_exec pr c w)) = state_view D act w"
    and status_view: "state_view D act (snd (pr_status pr c w)) = state_view D act w"
    and output_view: "state_view D act (snd (pr_output pr c w)) = state_view D act w"
begin

abbreviation inv :: "(string \<Rightarrow> string option) \<Rightarrow> string set \<Rightarrow> string \<Rightarrow> 'b world \<Rightarrow> bool" where
  "inv A X D \<equiv> session_inv act A X D"

lemma dbus_stable:
  "stable act (dbus_io (c_session ops))" "stable act (dbus_io (c_system ops))"
  "stable act (dbus_io (m_list_units ops ss ps))" "stable act (dbus_io (m_get_unit ops u))"
  "stable act (dbus_io (m_environment ops))" "stable act (dbus_io (s_notify_access ops p))"
  "stable act (dbus_io (s_timeout_start_usec ops p))" "stable act (dbus_io (l_list_sessions ops))"
  "stable act (dbus_io (l_get_session ops i))" "stable act (dbus_io (l_vtnr ops p))"
  "stable act (dbus_io (l_leader ops p))"
  by (intro stable_dbus connect_act list_units_act get_unit_act environment_act service_act
      login_act)+

lemma looks_view:
  "stable (state_view D act) (connect_session ops)" "stable (state_view D act) (connect_system ops)"
  "stable (state_view D act) (on_bus (list_units_by_patterns ops ss ps))"
  "stable (state_view D act) (on_bus (systemd_vars ops))"
  "stable (state_view D act) (on_bus (service_notify_access ops u))"
  "stable (state_view D act) (on_bus (service_timeout_start_usec ops u))"
  "stable (state_view D act) (on_bus (active_wm_unit ops))"
  unfolding connect_session_def connect_system_def list_units_by_patterns_def systemd_vars_def
    service_notify_access_def service_timeout_start_usec_def active_wm_unit_def
  by (intro state_view_on_bus stable_intros dbus_stable)+

lemma exec_keeps: "run_keeps (inv A X D) (exec_or_fail pr n c)"
  unfolding run_keeps_def exec_or_fail_def
proof (intro allI impI)
  fix w o' w'
  assume i: "inv A X D w"
    and run: "(case pr_exec pr c w of
        (None, w') \<Rightarrow> Some (Replaced c, w')
      | (Some e, w') \<Rightarrow> Some (Done (Inl (Io n e)), w')) = Some (o', w')"
  then have "w' = snd (pr_exec pr c w)" by (auto split: prod.splits option.splits)
  with exec_view[of D c w] i session_inv_view show "inv A X D w'" by metis
qed

lemma waitenv_act: "waitenv_loop ops expected start timeout b = Some y \<Longrightarrow> act (snd y) = act b"
proof (rule waitenv_loop.raw_induct
    [where P = "\<lambda>o' expected start timeout b y. o' = ops \<longrightarrow> act (snd y) = act b", THEN mp])
  fix loop and o' :: "'b bus_ops" and expected start timeout b y
  assume IH: "\<And>o' expected start timeout b y.
      loop o' expected start timeout b = Some y \<Longrightarrow> o' = ops \<longrightarrow> act (snd y) = act b"
    and l: "(case systemd_vars o' b of
        (Inl e, b1) \<Rightarrow> Some (Inl e, b1)
      | (Inr vars, b1) \<Rightarrow>
          if set expected \<subseteq> set (bm_keys vars) then Some (Inr (), b1)
          else if timeout \<le> 1000 * (t_now o' b1 - start)
          then Some (Inl (missing_error expected (bm_keys vars)), b1)
          else loop o' expected start timeout (t_sleep o' 500 b1)) = Some y"
  show "o' = ops \<longrightarrow> act (snd y) = act b"
  proof
    assume o: "o' = ops"
    obtain r b1 where v: "systemd_vars ops b = (r, b1)" by (cases "systemd_vars ops b")
    have b1: "act b1 = act b"
    proof (cases r)
      case (Inl e)
      with v show ?thesis using vars_err by blast
    next
      case (Inr m)
      with v show ?thesis using vars_ok by blast
    qed
    show "act (snd y) = act b"
      using l v b1 o IH[of ops expected start timeout "t_sleep ops 500 b1" y] sleep_act
      by (auto split: sum.splits if_splits)
  qed
qed auto

lemma run_bus_keeps:
  assumes "\<And>b y. m b = Some y \<Longrightarrow> act (snd y) = act b"
  shows "run_keeps (inv A X D) (run_bus m)"
  unfolding run_keeps_def
proof (intro allI impI)
  fix w o' w'
  assume i: "inv A X D w" and run: "run_bus m w = Some (o', w')"
  then obtain r b where m: "m (w_bus w) = Some (r, b)" and w': "w' = w\<lparr>w_bus := b\<rparr>"
    by (auto simp: run_bus_def split: option.splits)
  from assms[OF m] w' have "state_view D act w' = state_view D act w" by (simp add: state_view_def)
  with i session_inv_view show "inv A X D w'" by metis
qed

text \<open>Exporting recorded variables keeps the invariant, however it ends.\<close>

lemma export_keeps:
  assumes "bm_wf m" "\<forall>k. bm_get m k \<noteq> None \<longrightarrow> keep_name k"
  shows "io_keeps (inv A X D) (export_recorded ops m)"
  unfolding io_keeps_def
proof (intro allI impI)
  fix w r w'
  assume i: "inv A X D w" and run: "export_recorded ops m w = (r, w')"
  obtain r1 w1 where a: "append_cleanup (bm_keys m) w = (r1, w1)"
    by (cases "append_cleanup (bm_keys m) w")
  note ap = append_recorded[OF i a]
  show "inv A X D w'"
  proof (cases r1)
    case (Inl e)
    with run a ap(1) show ?thesis by (simp add: export_recorded_def io_bind_def)
  next
    case (Inr u)
    with run a have "on_bus (set_systemd_vars_with ops m) w1 = (r, w')"
      by (simp add: export_recorded_def io_bind_def)
    then obtain b where s: "set_systemd_vars_with ops m (w_bus w1) = (r, b)"
      and w': "w' = w1\<lparr>w_bus := b\<rparr>"
      by (auto simp: on_bus_iff)
    show ?thesis
      unfolding w'
    proof (rule session_inv_bus[OF ap(1)])
      fix k
      show "act b k = act (w_bus w1) k \<or>
          keep_name k \<and> (k \<in> set never_cleanup \<or> A k \<noteq> None \<or> recorded D w1 k)"
        using set_any[OF assms s, of k] assms(2) ap(3)[OF Inr, of k] by (auto simp: bm_keys_iff)
    qed
  qed
qed

lemma finalize_env_ok: "bm_wf (finalize_env penv vs)"
  "bm_get (finalize_env penv vs) k \<noteq> None \<Longrightarrow> keep_name k"
proof -
  show "bm_wf (finalize_env penv vs)" by (simp add: finalize_env_def)
  let ?l = "List.map_filter
         (\<lambda>n. if keep_name n then map_option (Pair n) (bm_get penv n) else None)
         ([''WAYLAND_DISPLAY'', ''DISPLAY''] @ vs)"
  assume "bm_get (finalize_env penv vs) k \<noteq> None"
  then obtain v where "map_of (rev ?l) k = Some v" by (auto simp: finalize_env_def bm_get_of_list)
  from map_of_SomeD[OF this] show "keep_name k" by (auto simp: map_filter_def split: if_splits)
qed

lemma notify_keeps: "run_keeps (inv A X D) (finalize_notify ops pr)"
  unfolding finalize_notify_def list_activating_def exec_systemd_notify_def
  by (intro run_keeps_intros io_keeps_session looks_view exec_keeps)

lemma finalize_keeps: "run_keeps (inv A X D) (finalize ops pr vs)"
  unfolding finalize_def
  by (intro run_keeps_intros io_keeps_session looks_view exec_keeps notify_keeps export_keeps
      state_view_ask finalize_env_ok(1)) (use finalize_env_ok(2) in blast)

end

end
