(* ===== verification/Lifecycle.thy ===== *)
theory Lifecycle
  imports Protocol
begin

text \<open>
  The life of a session: the readiness watcher keeps the invariant of theory \<open>Protocol\<close>,
  prepare-env establishes it from a clean start, cleanup-env turns it into the environment of before
  the session. The steps of a running session are an inductive relation over worlds; each process of
  the session is one step, and a step of the outside may change the variables it is allowed to.
\<close>

section \<open>Predicates on what the session sees\<close>

definition viewed :: "string \<Rightarrow> ('b \<Rightarrow> 'x) \<Rightarrow> ('b world \<Rightarrow> bool) \<Rightarrow> bool" where
  "viewed D act P \<longleftrightarrow>
     (\<forall>w w'. state_view D act w' = state_view D act w \<longrightarrow> P w' = P w) \<and>
     (\<forall>w. P w \<longrightarrow> session_dir (w_env w) = Inr D)"

lemma viewedD: "viewed D act P \<Longrightarrow> P w \<Longrightarrow> session_dir (w_env w) = Inr D"
  "viewed D act P \<Longrightarrow> state_view D act w' = state_view D act w \<Longrightarrow> P w' = P w"
  unfolding viewed_def by blast+

lemma viewed_session: "viewed D act (session_inv act A X D)"
proof -
  have "session_inv act A X D w \<Longrightarrow> session_dir (w_env w) = Inr D" for w
    unfolding session_inv_def by blast
  with session_inv_view show ?thesis unfolding viewed_def by blast
qed

lemma viewed_same:
  "session_dir (w_env w0) = Inr D \<Longrightarrow> viewed D act (\<lambda>w. state_view D act w = state_view D act w0)"
  unfolding viewed_def by (auto simp: state_view_def)

lemma viewed_keeps: "viewed D act P \<Longrightarrow> stable (state_view D act) m \<Longrightarrow> io_keeps P m"
  by (rule io_keeps_view[where f = "state_view D act"]) (rule viewedD(2))

lemma viewed_wpath:
  assumes "viewed D act P" "io_keeps P (g (path_join D n))"
  shows "io_keeps P (io_bind (wpath n) g)"
  unfolding io_keeps_def
proof (intro allI impI)
  fix w r w'
  assume P: "P w" and run: "io_bind (wpath n) g w = (r, w')"
  have "session_dir (w_env w) = Inr D" by (rule viewedD(1)[OF assms(1) P])
  from run session_dirD(3)[OF this, of n] have "g (path_join D n) w = (r, w')"
    by (simp add: wpath_def io_bind_ask_env)
  from io_keepsD[OF assms(2) P this] show "P w'" .
qed

lemma viewed_runtime:
  assumes "viewed D act P" "\<And>rt. path_join rt BIN_NAME = D \<Longrightarrow> io_keeps P (g rt)"
  shows "io_keeps P (io_bind (ask_env runtime_dir) g)"
  unfolding io_keeps_def
proof (intro allI impI)
  fix w r w'
  assume P: "P w" and run: "io_bind (ask_env runtime_dir) g w = (r, w')"
  have "session_dir (w_env w) = Inr D" by (rule viewedD(1)[OF assms(1) P])
  then obtain rt where rt: "runtime_dir (w_env w) = Inr rt" "path_join rt BIN_NAME = D"
    by (auto simp: session_dir_def rbind_Inr_iff)
  with run have "g rt w = (r, w')" by (simp add: io_bind_ask_env)
  from io_keepsD[OF assms(2)[OF rt(2)] P this] show "P w'" .
qed

lemma io_keeps_pure: "io_keeps P (io_return x)" "io_keeps P (io_fail e)" "io_keeps P (io_lift r)"
  "io_keeps P (io_get f)" "io_keeps P (ask_fs h)"
  by (simp_all add: io_keeps_def)

lemma io_keeps_try: "io_keeps P m \<Longrightarrow> io_keeps P (io_try m)"
  by (auto simp: io_keeps_def io_try_def split: prod.splits)

lemma io_keeps_option:
  "io_keeps P m \<Longrightarrow> (\<And>x. io_keeps P (g x)) \<Longrightarrow> io_keeps P (case x of None \<Rightarrow> m | Some y \<Rightarrow> g y)"
  by (cases x) auto

lemma io_keeps_sum:
  "(\<And>e. io_keeps P (g e)) \<Longrightarrow> (\<And>x. io_keeps P (h x)) \<Longrightarrow>
   io_keeps P (case r of Inl e \<Rightarrow> g e | Inr x \<Rightarrow> h x)"
  by (cases r) auto

lemma io_keeps_prod: "(\<And>x y. io_keeps P (g x y)) \<Longrightarrow> io_keeps P (case p of (x, y) \<Rightarrow> g x y)"
  by (cases p) auto

lemma io_keeps_if: "io_keeps P m \<Longrightarrow> io_keeps P n \<Longrightarrow> io_keeps P (if b then m else n)"
  by simp

lemmas io_keeps_intros =
  io_keeps_bind io_keeps_when io_keeps_try io_keeps_option io_keeps_sum io_keeps_prod io_keeps_if
  io_keeps_pure

section \<open>Files other than the state's\<close>

definition other_file :: "string \<Rightarrow> string \<Rightarrow> bool" where
  "other_file D p \<longleftrightarrow> p \<notin> {gen_file D, pre_file D, cleanup_list D}"

lemma is_dir_calls [simp]:
  "is_dir (snd (std_create p s)) q = is_dir s q"
  "is_dir (snd (std_write_all p c s)) q = is_dir s q"
  "is_dir (snd (std_sync p s)) q = is_dir s q"
  "is_dir (snd (std_rename p p' s)) q = is_dir s q"
  "is_dir (snd (std_remove_file p s)) q = is_dir s q"
  "is_dir (snd (std_set_mode p n s)) q = is_dir s q"
  by (auto simp: std_create_def std_write_all_def std_sync_def std_rename_def std_remove_file_def
      std_set_mode_def sys_call_def Let_def is_dir_def put_file_def del_file_def split: option.split)

lemma write_calls:
  "is_dir (snd (std_write p c s)) q = is_dir s q" "fs_rfail (snd (std_write p c s)) = fs_rfail s"
proof -
  obtain r s1 where c: "std_create p s = (r, s1)" by (cases "std_create p s")
  have s1: "is_dir s1 q = is_dir s q" "fs_rfail s1 = fs_rfail s"
    using is_dir_calls(1)[of p s q] rfail_sys(2)[of p s] c by simp_all
  show "is_dir (snd (std_write p c s)) q = is_dir s q" "fs_rfail (snd (std_write p c s)) = fs_rfail s"
    using c s1 by (cases r; simp add: std_write_def)+
qed

lemma is_dir_create_other:
  "p \<noteq> q \<Longrightarrow> length p \<le> length q \<Longrightarrow> is_dir (snd (std_create_dir_all p s)) q = is_dir s q"
  using length_ancestors[of q p]
  by (auto simp: std_create_dir_all_def sys_call_def Let_def is_dir_def split: option.split)

lemma fs_view_calls:
  "other_file D p \<Longrightarrow> fs_view D (snd (std_write p c s)) = fs_view D s"
  "other_file D p \<Longrightarrow> fs_view D (snd (std_remove_file p s)) = fs_view D s"
  "fs_view D (snd (std_set_mode p n s)) = fs_view D s"
  by (auto simp: fs_view_def other_file_def file_at_frame write_calls)

lemma fs_view_create_dir:
  assumes "other_file D p" "length p \<le> length (pre_file D)"
  shows "fs_view D (snd (std_create_dir_all p s)) = fs_view D s"
proof -
  have "length (pre_file D) \<le> length q \<Longrightarrow> p \<noteq> q \<Longrightarrow>
      is_dir (snd (std_create_dir_all p s)) q = is_dir s q" for q
    using assms(2) is_dir_create_other[of p q s] by simp
  then show ?thesis using assms(1) by (auto simp: fs_view_def other_file_def path_join_def)
qed

lemma fs_view_atomic:
  assumes D: "D \<noteq> []" "last D \<noteq> SLASH" and n: "plain_name n" "other_file D (path_join D n)"
  shows "stable (fs_view D) (atomic_write_path (path_join D n) c)"
proof -
  let ?m = "atomic_write D n c"
  have eq: "atomic_write_path (path_join D n) c = ?m"
    using n D by (simp add: atomic_write_path_def path_parent_join path_file_name_join)
  have f: "stable (\<lambda>s. file_at s q) ?m" if "q \<in> {gen_file D, pre_file D, cleanup_list D}" for q
    unfolding keeps_stable[symmetric]
    by (rule keeps_atomic_write) (use that n(2) in \<open>auto simp: other_file_def\<close>)
  have via: "stable (\<lambda>s. is_dir s q) (write_via t d c)" for t d q
    unfolding write_via_def write_temp_def
    by (intro stable_intros stable_sys_io stable_sys_ignore) simp_all
  have d: "stable (\<lambda>s. is_dir s q) ?m" if "length D < length q" for q
    unfolding atomic_write_via Let_def
    using n(1) D that
    by (intro stable_intros stable_sys_io via)
       (simp add: path_parent_join is_dir_create_dir_all)
  have l: "length D < length (gen_file D)" "length D < length (pre_file D)"
    "length D < length (cleanup_list D)"
    using D by (simp_all add: length_state_file)
  show ?thesis
    unfolding eq using rfail_atomic_write[of D n c] f d l by (simp add: stable_def fs_view_def)
qed

section \<open>The processes of a session\<close>

context session_host
begin

lemma viewed_inv: "viewed D act (inv A X D)"
  by (rule viewed_session)

lemma by_vt_loop_stable: "stable act (session_by_vt_loop ops uid vt ss)"
proof (induction ss)
  case (Cons a ss)
  then show ?case
    unfolding session_by_vt_loop.simps session_vtnr_def by (intro stable_intros dbus_stable)
qed (simp add: stable_def)

lemma login_views:
  "stable (state_view D act) (on_bus (session_by_vt ops vt))"
  "stable (state_view D act) (on_bus (session_leader ops i))"
  unfolding session_by_vt_def session_leader_def
  by (intro state_view_on_bus stable_intros dbus_stable by_vt_loop_stable)+

lemma process_views:
  "stable (state_view D act) (start_bindpid pr n)"
  "stable (state_view D act) (proc_io m (pr_output pr c))"
  using status_view output_view[of D c]
  by (auto simp: stable_def start_bindpid_def proc_io_def split: prod.split sum.split)
     (metis snd_conv)+

lemma random_view: "stable (state_view D act) random_mark"
  by (simp add: stable_def random_mark_def random_hex_id_def Let_def state_view_def)

text \<open>The watcher: what it exports it has just read, so the names are exportable.\<close>

lemma env_diff_ok:
  assumes "bm_wf post" "\<forall>k. bm_get post k \<noteq> None \<longrightarrow> keep_name k"
  shows "bm_wf (env_diff pre post)" "\<forall>k. bm_get (env_diff pre post) k \<noteq> None \<longrightarrow> keep_name k"
proof -
  show wf: "bm_wf (env_diff pre post)" using assms(1) by (simp add: env_diff_def)
  have "(k, v) \<in> set (env_diff pre post) \<Longrightarrow> (k, v) \<in> set post" for k v
    by (auto simp: env_diff_def)
  then show "\<forall>k. bm_get (env_diff pre post) k \<noteq> None \<longrightarrow> keep_name k"
    using assms(2) bm_get_in_iff[OF wf] bm_get_in_iff[OF assms(1)] by (metis not_None_eq option.distinct(1))
qed

lemma run_keeps_vars:
  assumes "\<And>m. bm_wf m \<Longrightarrow> \<forall>k. bm_get m k \<noteq> None \<longrightarrow> keep_name k \<Longrightarrow> run_keeps (inv A X D) (g m)"
  shows "run_keeps (inv A X D) (run_bind (run_io (on_bus (systemd_vars ops))) g)"
  unfolding run_keeps_def
proof (intro allI impI)
  fix w o' w'
  assume i: "inv A X D w" and run: "run_bind (run_io (on_bus (systemd_vars ops))) g w = Some (o', w')"
  obtain r b where v: "systemd_vars ops (w_bus w) = (r, b)" by (cases "systemd_vars ops (w_bus w)")
  have i1: "inv A X D (w\<lparr>w_bus := b\<rparr>)"
    using io_keepsD[OF io_keeps_session[OF looks_view(4)] i, of r "w\<lparr>w_bus := b\<rparr>"] v
    by (simp add: on_bus_def)
  show "inv A X D w'"
  proof (cases r)
    case (Inl e)
    with run v i1 show ?thesis by (simp add: run_bind_io on_bus_def)
  next
    case (Inr m)
    with vars_ok v have m: "bm_wf m" "\<forall>k. bm_get m k \<noteq> None \<longrightarrow> keep_name k" by auto
    from run v Inr have "g m (w\<lparr>w_bus := b\<rparr>) = Some (o', w')" by (simp add: run_bind_io on_bus_def)
    from run_keepsD[OF assms[OF m] i1 this] show ?thesis .
  qed
qed

lemma declare_keeps: "run_keeps (inv A X D) (declare_readiness ops pr u)"
  unfolding declare_readiness_def list_activating_def exec_systemd_notify_def
  by (intro run_keeps_intros io_keeps_session looks_view stable_try exec_keeps)

lemma sleep_view: "stable (state_view D act) (on_bus (\<lambda>b. (Inr (), t_sleep ops n b)))"
  by (rule state_view_on_bus) (simp add: stable_def sleep_act)

lemma settle_keeps: "run_keeps (inv A X D) (settle parse_f64 ops penv)"
  unfolding settle_def
  by (cases "settle_time parse_f64 penv")
     (simp add: run_keeps_def, auto intro!: run_keeps_intros io_keeps_session sleep_view)

lemma readiness_keeps: "run_keeps (inv A X D) (readiness_watch ops pr parse_f64 cg)"
  unfolding readiness_watch_def waitenv_def
  by (intro run_keeps_vars run_keeps_intros io_keeps_session looks_view stable_try state_view_ask
      run_bus_keeps settle_keeps io_keeps_when export_keeps env_diff_ok declare_keeps)
     (use waitenv_act in blast)+

section \<open>Preparing\<close>

lemma names_other:
  "other_file D (path_join D (''vars_'' @ m))" "other_file D (path_join D ''env_login'')"
  "other_file D (path_join D ''env_session.conf'')" "other_file D (path_join D ''libexec'')"
  by (auto simp: other_file_def path_join_def)

lemma dir_other: "session_dir e = Inr D \<Longrightarrow> other_file D D"
  using session_dirD(1,2)[of e D] by (auto simp: other_file_def path_join_def)

lemma helper_other: "other_file D (path_join (path_join D ''libexec'') n)" if "n \<noteq> []" "hd n \<noteq> SLASH"
  using that by (auto simp: other_file_def path_join_def)

lemma take_login_keeps: "viewed D act P \<Longrightarrow> io_keeps P take_login_env"
  unfolding take_login_env_def
  by (intro viewed_wpath io_keeps_intros viewed_keeps state_view_on_fs stable_sys_ignore)
     (auto simp: fs_view_calls names_other)

lemma conf_keeps:
  assumes v: "viewed D act P" and D: "D \<noteq> []" "last D \<noteq> SLASH"
  shows "io_keeps P (save_session_conf e)"
  unfolding save_session_conf_def save_env_def
  by (intro viewed_wpath[OF v] viewed_keeps[OF v] state_view_on_fs fs_view_atomic D names_other)
     code_simp

lemma deduce_keeps:
  assumes v: "viewed D act P" and D: "D \<noteq> []" "last D \<noteq> SLASH"
  shows "io_keeps P (deduce_session ops e)"
  unfolding deduce_session_def deduce_session_with_def login_vt_def Let_def
  by (intro io_keeps_intros viewed_keeps[OF v looks_view(2)] viewed_keeps[OF v login_views(1)]
      conf_keeps[OF v D])

lemma ensure_keeps:
  assumes v: "viewed D act P"
  shows "io_keeps P (ensure_bindpid ops pr e)"
  unfolding ensure_bindpid_def bind_to_leader_def
  by (intro io_keeps_intros viewed_keeps[OF v looks_view(2)] viewed_keeps[OF v looks_view(3)]
      viewed_keeps[OF v login_views(2)] viewed_keeps[OF v process_views(1)]
      viewed_keeps[OF v state_view_ask(5)])

lemma extract_keeps:
  assumes v: "viewed D act P"
  shows "io_keeps P (extract_helper hs ''prepare-env.sh'')"
proof -
  have "io_keeps P (on_fs (sys_io d (std_create_dir_all d)))" if "d = path_join D ''libexec''" for d
    unfolding that
    by (intro viewed_keeps[OF v] state_view_on_fs stable_sys_io fs_view_create_dir names_other)
       (simp add: path_join_def)
  moreover have "io_keeps P (on_fs (sys_io p (std_write p c)))"
    if "p = path_join (path_join D ''libexec'') ''prepare-env.sh''" for p c
    using that by (intro viewed_keeps[OF v] state_view_on_fs stable_sys_io fs_view_calls)
      (simp add: helper_other)
  moreover have "io_keeps P (on_fs (set_executable p))" for p
    unfolding set_executable_def
    by (intro viewed_keeps[OF v] state_view_on_fs stable_sys_io fs_view_calls)
  ultimately show ?thesis
    unfolding extract_helper_def Let_def
    by (intro io_keeps_bind io_keeps_pure viewed_runtime[OF v]) (auto simp: BIN_NAME_def)
qed

lemma loader_keeps:
  assumes v: "viewed D act P" and D: "session_dir e = Inr D" and m: "SLASH \<notin> set mark"
  shows "io_keeps P (run_loader pr hs cg env mark login)"
proof -
  let ?p = "path_join D (''vars_'' @ mark)"
  have "plain_name (''vars_'' @ mark)" using m by (simp add: plain_name_def)
  then have p: "path_parent ?p = Some D" using session_dirD(1,2)[OF D] by (simp add: path_parent_join)
  have "io_keeps P (on_fs (sys_io D (std_create_dir_all D)))"
    by (intro viewed_keeps[OF v] state_view_on_fs stable_sys_io fs_view_create_dir dir_other[OF D])
       (simp add: path_join_def)
  moreover have "io_keeps P (on_fs (sys_io ?p (std_write ?p c)))"
    "io_keeps P (on_fs (sys_ignore (std_remove_file ?p)))" for c
    by (intro viewed_keeps[OF v] state_view_on_fs stable_sys_io stable_sys_ignore fs_view_calls
        names_other)+
  ultimately show ?thesis
    unfolding run_loader_def
    by (intro viewed_wpath[OF v], unfold p option.case)
       (intro io_keeps_bind io_keeps_pure extract_keeps[OF v] viewed_keeps[OF v process_views(2)])
qed

lemma mark_plain: "random_mark w = (Inr mark, w') \<Longrightarrow> SLASH \<notin> set mark"
proof -
  have d: "digit_char n \<noteq> SLASH" if "n < 16" for n
  proof -
    from that have "n \<in> set [0..<16]" by simp
    moreover have "list_all (\<lambda>n. digit_char n \<noteq> SLASH) [0..<16]" by code_simp
    ultimately show ?thesis unfolding list_all_iff by blast
  qed
  have "SLASH \<notin> set (hex2 b)" for b
  proof -
    have "(of_char b :: nat) div 16 < 16" "(of_char b :: nat) mod 16 < 16"
      using nat_of_char_less_256[of b] by (simp_all add: less_mult_imp_div_less)
    then show ?thesis using d by (auto simp: hex2_def dest: sym)
  qed
  then show "random_mark w = (Inr mark, w') \<Longrightarrow> SLASH \<notin> set mark"
    by (auto simp: random_mark_def random_hex_id_def Let_def)
qed

text \<open>Exporting the delta: what it sets is recorded first, what it unsets was there before.\<close>

lemma unset_keeps:
  assumes "\<forall>n\<in>set ns. keep_name n \<and> A n \<noteq> None"
  shows "io_keeps (inv A X D) (on_bus (unset_systemd_vars_with ops ns))"
  unfolding io_keeps_def
proof (intro allI impI)
  fix w r w'
  assume i: "inv A X D w" and run: "on_bus (unset_systemd_vars_with ops ns) w = (r, w')"
  then obtain b where u: "unset_systemd_vars_with ops ns (w_bus w) = (r, b)" and w': "w' = w\<lparr>w_bus := b\<rparr>"
    by (auto simp: on_bus_iff)
  show "inv A X D w'"
    unfolding w' by (rule session_inv_bus[OF i]) (use unset_any[OF _ u] assms in blast)
qed

lemma set_keeps:
  assumes m: "bm_wf m" "\<forall>k. bm_get m k \<noteq> None \<longrightarrow> keep_name k" and i: "inv A X D w"
    and rec: "\<forall>k. bm_get m k \<noteq> None \<longrightarrow> k \<notin> set never_cleanup \<longrightarrow> recorded D w k"
    and run: "on_bus (set_systemd_vars_with ops m) w = (r, w')"
  shows "inv A X D w'"
proof -
  obtain b where s: "set_systemd_vars_with ops m (w_bus w) = (r, b)" and w': "w' = w\<lparr>w_bus := b\<rparr>"
    using run by (auto simp: on_bus_iff)
  show ?thesis
    unfolding w'
    by (rule session_inv_bus[OF i]) (use set_any[OF m s] m(2) rec in \<open>metis option.distinct(1)\<close>)
qed

lemma delta_keeps:
  assumes pre: "\<forall>k. bm_get pre k = (if keep_name k then A k else None)"
    and post: "bm_wf post" "\<forall>k. bm_get post k \<noteq> None \<longrightarrow> keep_name k"
  shows "io_keeps (inv A X D) (apply_delta ops (compute_changes pre post))"
  unfolding io_keeps_def
proof (intro allI impI)
  let ?c = "compute_changes pre post"
  fix w r w'
  assume i: "inv A X D w" and run: "apply_delta ops ?c w = (r, w')"
  have kept: "\<forall>k. bm_get (ch_set ?c) k \<noteq> None \<longrightarrow> keep_name k"
    using post(2) by (auto simp: bm_get_ch_set[OF post(1)])
  have un: "io_keeps (inv A X D) (io_when (ch_unset ?c \<noteq> []) (on_bus (unset_systemd_vars_with ops (ch_unset ?c))))"
    by (intro io_keeps_when unset_keeps ballI)
       (use pre in \<open>metis set_ch_unset\<close>)
  obtain r1 w1 where a: "append_cleanup (ch_cleanup ?c) w = (r1, w1)"
    by (cases "append_cleanup (ch_cleanup ?c) w")
  note ap = append_recorded[OF i a]
  show "inv A X D w'"
  proof (cases r1)
    case (Inl e)
    with run a ap(1) show ?thesis by (simp add: apply_delta_def io_bind_def)
  next
    case (Inr u)
    let ?set = "io_when (ch_set ?c \<noteq> []) (on_bus (set_systemd_vars_with ops (ch_set ?c)))"
    obtain r2 w2 where s: "?set w1 = (r2, w2)" by (cases "?set w1")
    have "inv A X D w2"
    proof (cases "ch_set ?c = []")
      case False
      have "\<forall>k. bm_get (ch_set ?c) k \<noteq> None \<longrightarrow> k \<notin> set never_cleanup \<longrightarrow> recorded D w1 k"
        using ap(3)[OF Inr] kept by (auto simp: set_ch_cleanup)
      from set_keeps[OF bm_wf_ch_set kept ap(1) this] s False show ?thesis by (simp add: io_when_def)
    qed (use s ap(1) in \<open>simp add: io_when_def\<close>)
    with run a Inr s io_keepsD[OF un, of w2 r w'] show ?thesis
      by (cases r2) (auto simp: apply_delta_def io_bind_def)
  qed
qed

text \<open>A clean start: when nothing is left of an earlier session, beginning a generation leaves the
  environment alone.\<close>

lemma begin_clean_bus:
  assumes D: "session_dir (w_env w) = Inr D" and c: "\<not> state_present (w_fs w) D"
    and run: "begin_generation bus pre w = (r, w')"
  shows "w_bus w' = w_bus w"
  using begin_generation_cases[OF D run]
proof cases
  case 1
  then show ?thesis using lock_frame(1)[OF D] by blast
next
  case (2 e u w1)
  note v = lock_views[OF D 2(1)]
  from 2(2) v(5) c show ?thesis by (simp add: restore_unfold[OF v(6)])
next
  case (3 u w1 u2 w2 i w3)
  note v = lock_views[OF D 3(1)]
  from 3(2) v(5) c have "w2 = w1" by (simp add: restore_unfold[OF v(6)])
  moreover have "stable w_bus (write_generation D i pre)"
    unfolding write_generation_def by (intro stable_intros)
  from stableD[OF this 3(4)] have "w_bus w' = w_bus w3" .
  ultimately show ?thesis
    using random_hex_id_ok(3)[OF 3(3)] lock_frame(1)[OF D 3(1)] by simp
qed

lemma begin_establishes:
  assumes D: "session_dir (w_env w) = Inr D" and rf: "rfail_ok (w_fs w)"
    and c: "\<not> state_present (w_fs w) D" and pre: "bm_wf pre" "nul_free pre"
    and A: "\<forall>k. bm_get pre k = (if keep_name k then act (w_bus w) k else None)"
    and run: "begin_generation (session_state_ops ops) pre w = (Inr i, w')"
  shows "inv (act (w_bus w)) X D w'"
proof -
  have ct: "env_contract (session_state_ops ops) act"
    by (rule session_bus_contract) unfold_locales
  note b = begin_generation_ok[OF ct D rf pre run]
  have "bm_get (filter_map pre) k = act (w_bus w) k" if "keep_name k" for k
    using A that pre(1) by (simp add: bm_get_filter_map)
  moreover have "act (w_bus w') = act (w_bus w)" by (simp add: begin_clean_bus[OF D c run])
  ultimately show ?thesis using b D by (auto simp: session_inv_def)
qed

lemma io_keeps_mark:
  assumes "io_keeps P random_mark" "\<And>m. SLASH \<notin> set m \<Longrightarrow> io_keeps P (g m)"
  shows "io_keeps P (io_bind random_mark g)"
  unfolding io_keeps_def
proof (intro allI impI)
  fix w r w'
  assume P: "P w" and run: "io_bind random_mark g w = (r, w')"
  obtain m w1 where m: "random_mark w = (Inr m, w1)"
    by (simp add: random_mark_def random_hex_id_def Let_def)
  with run have "g m w1 = (r, w')" by (simp add: io_bind_def)
  from io_keepsD[OF assms(2)[OF mark_plain[OF m]] io_keepsD[OF assms(1) P m] this] show "P w'" .
qed

lemma loader_result_ok:
  "loader_result out mark = Inr post \<Longrightarrow> bm_wf post \<and> (\<forall>k. bm_get post k \<noteq> None \<longrightarrow> keep_name k)"
  by (auto simp: loader_result_def parse_shell_dump_def rbind_Inr_iff split: if_splits option.splits
      intro!: parse_env_nul_kept)

lemma loader_env:
  "run_loader pr hs cg env mark login w = (Inr post, w') \<Longrightarrow>
   bm_wf post \<and> (\<forall>k. bm_get post k \<noteq> None \<longrightarrow> keep_name k)"
  unfolding run_loader_def io_bind_Inr_iff by (elim exE conjE) (simp add: loader_result_ok)

text \<open>The two halves of prepare-env: what happens before the snapshot only looks, and what happens
  after the generation began keeps the invariant.\<close>

definition before_snapshot :: "('b world, bool \<times> env) io" where
  "before_snapshot =
     io_bind (connect_session ops) (\<lambda>_.
     io_bind take_login_env (\<lambda>env_login0.
     io_bind (deduce_session ops env_login0) (\<lambda>env_login.
     io_bind (ensure_bindpid ops pr env_login) (\<lambda>_. io_return (env_login0 \<noteq> [], env_login)))))"

definition after_snapshot :: "helper_scripts \<Rightarrow> comp_globals \<Rightarrow> env \<Rightarrow> bool \<times> env \<Rightarrow> ('b world, unit) io" where
  "after_snapshot hs cg env_pre x =
     io_bind random_mark (\<lambda>mark.
     io_bind (run_loader pr hs cg (bm_extend env_pre (snd x)) mark (fst x)) (\<lambda>env_post.
     apply_delta ops (compute_changes env_pre env_post)))"

lemma prepare_split:
  "prepare_env ops pr hs cg =
     io_bind before_snapshot (\<lambda>x.
     io_bind (on_bus (systemd_vars ops)) (\<lambda>env_pre.
     io_bind (begin_generation (session_state_ops ops) env_pre) (\<lambda>_.
     after_snapshot hs cg env_pre x)))"
  unfolding prepare_env_def before_snapshot_def after_snapshot_def Let_def
  by (simp only: io_bind_assoc io_bind_return fst_conv snd_conv)

lemma head_keeps:
  assumes v: "viewed D act P" and D: "D \<noteq> []" "last D \<noteq> SLASH"
  shows "io_keeps P before_snapshot"
  unfolding before_snapshot_def
  by (intro io_keeps_bind io_keeps_pure take_login_keeps[OF v] deduce_keeps[OF v D] ensure_keeps[OF v]
      viewed_keeps[OF v looks_view(1)])

lemma tail_keeps:
  assumes D: "session_dir e = Inr D"
    and pre: "\<forall>k. bm_get pre k = (if keep_name k then A k else None)"
  shows "io_keeps (inv A X D) (after_snapshot hs cg pre x)"
proof -
  have l: "io_keeps (inv A X D) (io_bind (run_loader pr hs cg env mark b)
      (\<lambda>post. apply_delta ops (compute_changes pre post)))" if m: "SLASH \<notin> set mark" for env mark b
    unfolding io_keeps_def
  proof (intro allI impI)
    fix w r w'
    assume i: "inv A X D w" and run: "io_bind (run_loader pr hs cg env mark b)
      (\<lambda>post. apply_delta ops (compute_changes pre post)) w = (r, w')"
    obtain r1 w1 where ld: "run_loader pr hs cg env mark b w = (r1, w1)"
      by (cases "run_loader pr hs cg env mark b w")
    have i1: "inv A X D w1" by (rule io_keepsD[OF loader_keeps[OF viewed_inv D m] i ld])
    show "inv A X D w'"
    proof (cases r1)
      case (Inl err)
      with run ld i1 show ?thesis by (simp add: io_bind_def)
    next
      case (Inr post)
      with loader_env ld have "bm_wf post" "\<forall>k. bm_get post k \<noteq> None \<longrightarrow> keep_name k" by blast+
      from io_keepsD[OF delta_keeps[OF pre this] i1] run ld Inr show ?thesis by (simp add: io_bind_def)
    qed
  qed
  show ?thesis
    unfolding after_snapshot_def
    by (intro io_keeps_mark l viewed_keeps[OF viewed_inv random_view])
qed

text \<open>Wherever prepare-env stops, either the environment is untouched or everything it added is
  recorded; when it succeeds, the latter.\<close>

lemma prepare_establishes:
  assumes D: "session_dir (w_env w) = Inr D" and rf: "rfail_ok (w_fs w)"
    and c: "\<not> state_present (w_fs w) D"
    and nul: "\<forall>k v. act (w_bus w) k = Some v \<longrightarrow> NUL \<notin> set v"
    and run: "prepare_env ops pr hs cg w = (r, w')"
  shows "inv (act (w_bus w)) X D w' \<or> \<not> is_ok r \<and> act (w_bus w') = act (w_bus w)"
proof -
  let ?V = "\<lambda>x. state_view D act x = state_view D act w"
  note v = viewed_same[OF D]
  obtain r1 w1 where h: "before_snapshot w = (r1, w1)" by (cases "before_snapshot w")
  have V1: "?V w1" by (rule io_keepsD[OF head_keeps[OF v session_dirD(1,2)[OF D]] refl h])
  obtain r2 w2 where s: "on_bus (systemd_vars ops) w1 = (r2, w2)" by (cases "on_bus (systemd_vars ops) w1")
  have V2: "?V w2" by (rule io_keepsD[OF viewed_keeps[OF v looks_view(4)] V1 s])
  have a: "act (w_bus w1) = act (w_bus w)" "act (w_bus w2) = act (w_bus w)"
    using V1 V2 by (simp_all add: state_view_def)
  show ?thesis
  proof (cases "is_ok r1 \<and> is_ok r2")
    case False
    then have "\<not> is_ok r \<and> (w' = w1 \<or> w' = w2)"
      using run h s by (auto simp: prepare_split io_bind_def split: sum.splits)
    with a show ?thesis by auto
  next
    case True
    then obtain x pre where x: "r1 = Inr x" and pre: "r2 = Inr pre" by (auto simp: is_ok_iff)
    from s pre obtain b where b: "systemd_vars ops (w_bus w1) = (Inr pre, b)" by (auto simp: on_bus_iff)
    from vars_ok[OF b] a have wf: "bm_wf pre"
      and A: "\<forall>k. bm_get pre k = (if keep_name k then act (w_bus w) k else None)" by auto
    have nf: "nul_free pre"
      unfolding nul_free_def
    proof
      fix p assume "p \<in> set pre"
      then have "bm_get pre (fst p) = Some (snd p)" using bm_get_in_iff[OF wf] by simp
      with A nul show "NUL \<notin> set (snd p)" by (auto split: if_splits)
    qed
    have w2: "session_dir (w_env w2) = Inr D" "rfail_ok (w_fs w2)" "\<not> state_present (w_fs w2) D"
      using V2 D rf c
      by (auto simp: state_view_def fs_view_def rfail_ok_def state_present_def path_exists_def)
    obtain r3 w3 where g: "begin_generation (session_state_ops ops) pre w2 = (r3, w3)"
      by (cases "begin_generation (session_state_ops ops) pre w2")
    show ?thesis
    proof (cases r3)
      case (Inl e)
      with run h s x pre g begin_clean_bus[OF w2(1,3) g] a show ?thesis
        by (auto simp: prepare_split io_bind_def)
    next
      case (Inr i)
      from begin_establishes[OF w2 wf nf _ g[unfolded Inr]] A a(2)
      have i3: "inv (act (w_bus w)) X D w3" by simp
      from run h s x pre g Inr have "after_snapshot hs cg pre x w3 = (r, w')"
        by (simp add: prepare_split io_bind_def)
      from io_keepsD[OF tail_keeps[OF D A] i3 this] show ?thesis ..
    qed
  qed
qed

section \<open>Ending\<close>

lemma cleanup_restores:
  assumes i: "inv A X D w" and run: "cleanup_env ops w = (Inr u, w')"
    and k: "k \<notin> X" "k \<notin> set never_cleanup \<or> A k \<noteq> None"
  shows "act (w_bus w') k = A k"
proof -
  obtain u1 w1 u2 w2 where c: "connect_session ops w = (Inr u1, w1)"
    and e: "end_generation (session_state_ops ops) w1 = (Inr u2, w2)"
    and rest: "io_bind (wpath ''env_session.conf'') (\<lambda>conf.
       io_bind (on_fs (sys_ignore (std_remove_file conf))) (\<lambda>_.
       io_bind (wpath ''libexec'') (\<lambda>libexec. on_fs (sys_ignore (std_remove_dir_all libexec))))) w2 =
       (Inr u, w')"
    using run unfolding cleanup_env_def io_bind_Inr_iff by blast
  have i1: "inv A X D w1" by (rule io_keepsD[OF io_keeps_session[OF looks_view(1)] i c])
  from i1 obtain g where D: "session_dir (w_env w1) = Inr D" and rf: "rfail_ok (w_fs w1)"
    and g: "v_gen (w_fs w1) D = Some g"
    by (auto simp: session_inv_def)
  from g have p: "state_present (w_fs w1) D"
    by (auto simp: v_gen_def state_present_def path_exists_def split: option.splits)
  have "env_contract (session_state_ops ops) act"
    by (rule session_bus_contract) unfold_locales
  note r = end_generation_ok[OF this D rf p e, of k]
  have "stable w_bus (io_bind (wpath ''env_session.conf'') (\<lambda>conf.
       io_bind (on_fs (sys_ignore (std_remove_file conf))) (\<lambda>_.
       io_bind (wpath ''libexec'') (\<lambda>libexec. on_fs (sys_ignore (std_remove_dir_all libexec))))))"
    unfolding wpath_def by (intro stable_intros)
  from stableD[OF this rest] r
  have w': "act (w_bus w') k =
      restored (listed_now (w_fs w1) D) (v_pre (w_fs w1) D) (act (w_bus w1)) k" by simp
  have pre: "bm_get (v_pre (w_fs w1) D) k = (if keep_name k then A k else None)"
  proof (cases "keep_name k")
    case True
    with i1 show ?thesis by (simp add: session_inv_def)
  next
    case False
    with v_pre_kept[of "w_fs w1" D k] show ?thesis by (cases "bm_get (v_pre (w_fs w1) D) k") auto
  qed
  have rec: "recorded D w1 k" if "keep_name k" "A k = None" "act (w_bus w1) k \<noteq> None"
    using i1 k that unfolding session_inv_def by blast
  have other: "act (w_bus w1) k = A k" if "\<not> keep_name k" using i1 k that by (simp add: session_inv_def)
  show ?thesis
    unfolding w' restored_def pre using rec other k
    by (cases "act (w_bus w1) k") (auto simp: owned_def recorded_def split: option.split)
qed

end

text \<open>The steps of a running session: its own processes, which may end in any way, and the outside,
  which may change the variables of \<open>X\<close>, give each process its own environment and change files
  other than the state's.\<close>

inductive session_step ::
  "'b bus_ops \<Rightarrow> 'b proc_ops \<Rightarrow> ('b \<Rightarrow> string \<Rightarrow> string option) \<Rightarrow> string set \<Rightarrow> string \<Rightarrow>
   'b world \<Rightarrow> 'b world \<Rightarrow> bool"
  for ops pr act X D where
  finalize: "finalize ops pr vs w = Some (o', w') \<Longrightarrow> session_step ops pr act X D w w'"
| readiness: "readiness_watch ops pr parse_f64 cg w = Some (o', w') \<Longrightarrow> session_step ops pr act X D w w'"
| outside: "session_dir (w_env w') = Inr D \<Longrightarrow> fs_view D (w_fs w') = fs_view D (w_fs w) \<Longrightarrow>
    (\<And>k. k \<notin> X \<Longrightarrow> act (w_bus w') k = act (w_bus w) k) \<Longrightarrow> session_step ops pr act X D w w'"

inductive_cases session_step_cases: "session_step ops pr act X D w w'"

context session_host
begin

lemma step_keeps: "session_step ops pr act X D w w' \<Longrightarrow> inv A X D w \<Longrightarrow> inv A X D w'"
proof (erule session_step_cases)
  assume i: "inv A X D w" and e: "session_dir (w_env w') = Inr D"
    "fs_view D (w_fs w') = fs_view D (w_fs w)"
    and a: "\<And>k. k \<notin> X \<Longrightarrow> act (w_bus w') k = act (w_bus w) k"
  have "inv A X D (w\<lparr>w_bus := w_bus w'\<rparr>)" by (rule session_inv_bus[OF i]) (simp add: a)
  moreover have "session_dir (w_env w) = Inr D" by (rule viewedD(1)[OF viewed_inv i])
  then have "state_view D act w' = state_view D act (w\<lparr>w_bus := w_bus w'\<rparr>)"
    using e by (simp add: state_view_def)
  ultimately show "inv A X D w'" using viewedD(2)[OF viewed_inv] by blast
qed (use run_keepsD[OF finalize_keeps] run_keepsD[OF readiness_keeps] in blast)+

lemma steps_keep: "(session_step ops pr act X D)\<^sup>*\<^sup>* w w' \<Longrightarrow> inv A X D w \<Longrightarrow> inv A X D w'"
  by (induction rule: rtranclp_induct) (auto intro: step_keeps)

lemma session_restores:
  assumes D: "session_dir (w_env w) = Inr D" and rf: "rfail_ok (w_fs w)"
    and c: "\<not> state_present (w_fs w) D"
    and nul: "\<forall>k v. act (w_bus w) k = Some v \<longrightarrow> NUL \<notin> set v"
    and prep: "prepare_env ops pr hs cg w = (Inr (), w1)"
    and steps: "(session_step ops pr act X D)\<^sup>*\<^sup>* w1 w2"
    and clean: "cleanup_env ops w2 = (Inr (), w3)"
    and k: "k \<notin> X" "k \<notin> set never_cleanup \<or> act (w_bus w) k \<noteq> None"
  shows "act (w_bus w3) k = act (w_bus w) k"
proof -
  from prepare_establishes[OF D rf c nul prep, of X] have "inv (act (w_bus w)) X D w1" by simp
  from cleanup_restores[OF steps_keep[OF steps this] clean k] show ?thesis .
qed

end

end
