(* ===== verification/RefProc.thy ===== *)
theory RefProc
  imports Lifecycle
begin

text \<open>
  An instance of the operating system's process calls, beside the reference services of theory
  \<open>RefBus\<close>: programs that succeed and a loader that prints the environment it was given with one
  more variable. With it the contract \<open>session_host\<close> holds, so the theorems that rest on it are not
  empty. No theorem about the program assumes that the system is this instance.
\<close>

definition ref_dump :: "command \<Rightarrow> string" where
  "ref_dump c =
     (case cmd_argv c of
        [sh, script, aux] \<Rightarrow>
          (case find_str ''vars_'' aux of
             Some (dir, mark) \<Rightarrow> mark @ env0 (bm_insert ''LOADED'' ''1'' (unwrap_or (cmd_env c) []))
           | None \<Rightarrow> [])
      | _ \<Rightarrow> [])"

definition ref_proc :: "sbus proc_ops" where
  "ref_proc = \<lparr>
     pr_exec = (\<lambda>c w. (None, w\<lparr>w_out := w_out w @ cmd_argv c\<rparr>)),
     pr_spawn = (\<lambda>c w. (Inr 42, w\<lparr>w_out := w_out w @ cmd_argv c\<rparr>)),
     pr_feed = (\<lambda>n s w. w),
     pr_wait = (\<lambda>n w. (Inr True, w)),
     pr_status = (\<lambda>c w. (Inr True, w\<lparr>w_out := w_out w @ cmd_argv c\<rparr>)),
     pr_output = (\<lambda>c w. (Inr \<lparr>co_stdout = ref_dump c, co_stderr = [], co_success = True,
       co_status = ''exit status: 0''\<rparr>, w)),
     pr_self_exe = (\<lambda>w. Inr ''/bin/wsmr''),
     pr_dup2 = (\<lambda>a b w. (Inr (), w)),
     pr_euid = (\<lambda>w. 1000),
     pr_ppid = (\<lambda>w. 1),
     pr_pidfd_open = (\<lambda>p w. (Inr 5, w)),
     pr_poll = (\<lambda>n w. (Inr (), w)),
     pr_show_io = (\<lambda>e. ''io error''),
     pr_show_zbus = (\<lambda>e. ''zbus error'') \<rparr>"

interpretation ref_host: session_host ref_ops sb_act ref_proc
  by unfold_locales
     (simp_all add: ref_ops_def ref_proc_def sb_timeout_start_def sb_call_snd state_view_def sb_act_def fun_eq_iff)

end
