(* ===== verification/LifeProps.thy ===== *)
theory LifeProps
  imports RefProc
begin

text \<open>
  What a whole session promises, with runs on the reference services and system.
\<close>

section \<open>A session from start to end\<close>

definition life_fs :: fs where
  "life_fs = ref_fs\<lparr>
     fs_files := [(''/run/wsmr/env_login'', ''XDG_SEAT=seat0'' @ [NUL] @ ''XDG_SESSION_ID=1'')],
     fs_dirs := [''/run/wsmr'', ''/run'', ''/'']\<rparr>"

definition life_world :: "sbus world" where
  "life_world = (ref_world life_fs (ref_bus [(''FOO'', ''old'')]))\<lparr>
     w_env := [(''WAYLAND_DISPLAY'', ''wayland-1''), (''XDG_RUNTIME_DIR'', ''/run'')]\<rparr>"

definition life_scripts :: helper_scripts where
  "life_scripts = \<lparr>hs_prepare_env = '':'', hs_signal_handler = '':''\<rparr>"

definition life_comp :: comp_globals where
  "life_comp = \<lparr>cg_cmdline = [''sway''], cg_id = ''sway'', cg_id_unit_string = ''sway'',
     cg_bin_name = ''sway'', cg_bin_id = ''sway'', cg_desktop_names = [''sway''], cg_name = None,
     cg_description = None, cg_cli_desktop_names = [], cg_cli_desktop_names_exclusive = False\<rparr>"

abbreviation life_prepare :: "(sbus world, unit) io" where
  "life_prepare \<equiv> prepare_env ref_ops ref_proc life_scripts life_comp"

definition life_prepared :: "sbus world" where
  "life_prepared = snd (life_prepare life_world)"

definition life_final :: "sbus world" where
  "life_final = (case finalize ref_ops ref_proc [] life_prepared of Some y \<Rightarrow> snd y | None \<Rightarrow> life_prepared)"

lemma life_start:
  "session_dir (w_env life_world) = Inr ''/run/wsmr''" "\<not> state_present (w_fs life_world) ''/run/wsmr''"
  by code_simp+

lemma life_rfail: "rfail_ok (w_fs life_world)"
  by (simp add: rfail_ok_def life_world_def life_fs_def ref_world_def ref_fs_def)

lemma life_nul: "\<forall>k v. sb_act (w_bus life_world) k = Some v \<longrightarrow> NUL \<notin> set v"
  by (simp add: sb_act_def life_world_def ref_world_def ref_bus_def)

text \<open>The whole session, evaluated once.\<close>

lemma life_run:
  "(case life_prepare life_world of (r, w) \<Rightarrow>
      (r, (case finalize ref_ops ref_proc [] w of
             Some (o', w2) \<Rightarrow> Some (o', sb_env (w_bus w2), fst (cleanup_env ref_ops w2))
           | None \<Rightarrow> None))) =
   (Inr (), Some (Done (Inr ()),
      [(''WAYLAND_DISPLAY'', ''wayland-1''), (''LOADED'', ''1''), (''FOO'', ''old'')], Inr ()))"
  by code_simp

lemma life_prepare_ok: "life_prepare life_world = (Inr (), life_prepared)"
  using life_run unfolding life_prepared_def by (cases "life_prepare life_world") simp

lemma life_finalize: "finalize ref_ops ref_proc [] life_prepared = Some (Done (Inr ()), life_final)"
  using life_run unfolding life_prepare_ok life_final_def by (auto split: option.splits)

lemma life_env:
  "sb_env (w_bus life_final) = [(''WAYLAND_DISPLAY'', ''wayland-1''), (''LOADED'', ''1''), (''FOO'', ''old'')]"
  "fst (cleanup_env ref_ops life_final) = Inr ()"
  using life_run unfolding life_prepare_ok by (simp_all add: life_finalize)

lemma life_cleanup: "\<exists>w. cleanup_env ref_ops life_final = (Inr (), w)"
  using life_env(2) by (metis prod.collapse)

lemma life_exports: "sb_act (w_bus life_final) ''WAYLAND_DISPLAY'' = Some ''wayland-1''"
  "sb_act (w_bus life_final) ''LOADED'' = Some ''1''"
  by (simp_all add: sb_act_def life_env)

text \<open>
  C1: a session leaves no trace in the activation environment. From a start with nothing left of an
  earlier session, after prepare-env, any number of finalize and readiness runs of separate
  processes that may each fail anywhere, any changes of others to the variables in X, and cleanup-env,
  every variable outside X has the value it had before the session, except those that policy keeps
  and that were not set before.
\<close>

theorem session_leaves_no_trace:
  assumes "session_host ops act pr" "session_dir (w_env w) = Inr D" "rfail_ok (w_fs w)"
    "\<not> state_present (w_fs w) D" "\<forall>k v. act (w_bus w) k = Some v \<longrightarrow> NUL \<notin> set v"
    "prepare_env ops pr hs cg w = (Inr (), w1)" "(session_step ops pr act X D)\<^sup>*\<^sup>* w1 w2"
    "cleanup_env ops w2 = (Inr (), w3)" "k \<notin> X" "k \<notin> set never_cleanup \<or> act (w_bus w) k \<noteq> None"
  shows "act (w_bus w3) k = act (w_bus w) k"
  by (rule session_host.session_restores[OF assms])

theorem session_leaves_no_trace_witness:
  "\<exists>w. cleanup_env ref_ops life_final = (Inr (), w) \<and>
     sb_act (w_bus life_final) ''WAYLAND_DISPLAY'' = Some ''wayland-1'' \<and>
     sb_act (w_bus w) ''WAYLAND_DISPLAY'' = None \<and> sb_act (w_bus life_final) ''LOADED'' = Some ''1'' \<and>
     sb_act (w_bus w) ''LOADED'' = None \<and> sb_act (w_bus w) ''FOO'' = Some ''old''"
proof -
  obtain w where c: "cleanup_env ref_ops life_final = (Inr (), w)" using life_cleanup by blast
  have s: "(session_step ref_ops ref_proc sb_act {} ''/run/wsmr'')\<^sup>*\<^sup>* life_prepared life_final"
    using session_step.finalize[OF life_finalize] by blast
  note r = session_leaves_no_trace[OF ref_host.session_host_axioms life_start(1) life_rfail life_start(2)
      life_nul life_prepare_ok s c]
  have n: "''WAYLAND_DISPLAY'' \<notin> set never_cleanup" "''LOADED'' \<notin> set never_cleanup"
    "''FOO'' \<notin> set never_cleanup" by code_simp+
  have b: "sb_act (w_bus life_world) ''WAYLAND_DISPLAY'' = None"
    "sb_act (w_bus life_world) ''LOADED'' = None" "sb_act (w_bus life_world) ''FOO'' = Some ''old''"
    by code_simp+
  show ?thesis
    using c r[of "''WAYLAND_DISPLAY''"] r[of "''LOADED''"] r[of "''FOO''"] n b life_exports by auto
qed

text \<open>
  C14: prepare-env never leaks. From a start with nothing left of an earlier session, wherever it
  stops, either it failed and the activation environment is what it was, or the session's invariant
  holds: a generation is on disk with the old values of every exportable variable, and each
  variable that was added is recorded under that generation for the clean-up.
\<close>

theorem prepare_env_accounted:
  assumes "session_host ops act pr" "session_dir (w_env w) = Inr D" "rfail_ok (w_fs w)"
    "\<not> state_present (w_fs w) D" "\<forall>k v. act (w_bus w) k = Some v \<longrightarrow> NUL \<notin> set v"
    "prepare_env ops pr hs cg w = (r, w')"
  shows "session_inv act (act (w_bus w)) X D w' \<or> \<not> is_ok r \<and> act (w_bus w') = act (w_bus w)"
  by (rule session_host.prepare_establishes[OF assms])

theorem prepare_env_accounted_witness:
  "session_inv sb_act (sb_act (w_bus life_world)) {} ''/run/wsmr'' life_prepared"
  using prepare_env_accounted[OF ref_host.session_host_axioms life_start(1) life_rfail life_start(2)
      life_nul life_prepare_ok, of "{}"]
  by simp

text \<open>
  C15: every process of a running session keeps the session's invariant, whether it succeeds, fails or
  replaces itself: finalize and the readiness watcher record each variable before they export it,
  and changes of others outside the state files and to the variables in X do not matter.
\<close>

theorem session_steps_keep_invariant:
  assumes "session_host ops act pr" "(session_step ops pr act X D)\<^sup>*\<^sup>* w w'" "session_inv act A X D w"
  shows "session_inv act A X D w'"
  by (rule session_host.steps_keep[OF assms])

theorem session_steps_keep_invariant_witness:
  "session_inv sb_act (sb_act (w_bus life_world)) {} ''/run/wsmr'' life_final"
proof (rule session_steps_keep_invariant[OF ref_host.session_host_axioms])
  show "(session_step ref_ops ref_proc sb_act {} ''/run/wsmr'')\<^sup>*\<^sup>* life_prepared life_final"
    using session_step.finalize[OF life_finalize] by blast
  show "session_inv sb_act (sb_act (w_bus life_world)) {} ''/run/wsmr'' life_prepared"
    using ref_host.prepare_establishes[OF life_start(1) life_rfail life_start(2) life_nul life_prepare_ok,
        of "{}"] by simp
qed

section \<open>A start over an abandoned session\<close>

text \<open>The snapshot is read before the abandoned session is resolved, so it holds the variables of that
  session: \<open>BAR\<close>, which generation \<open>g1\<close> had added, is removed, is missing for the whole new session
  although the loader had it, and comes back when the new session ends.\<close>

definition abandoned_world :: "sbus world" where
  "abandoned_world = life_world\<lparr>
     w_fs := life_fs\<lparr>fs_files := fs_files life_fs @
       [(''/run/wsmr/generation'', ''g1'' @ [NL]), (''/run/wsmr/env_pre'', ''FOO=old''),
        (''/run/wsmr/env_cleanup.list'', ''g1 BAR'' @ [NL])]\<rparr>,
     w_bus := ref_bus [(''FOO'', ''old''), (''BAR'', ''x'')]\<rparr>"

lemma abandoned_variable_returns:
  "(case life_prepare abandoned_world of (r, w) \<Rightarrow>
      (r, v_pre (w_fs w) ''/run/wsmr'', sb_env (w_bus w),
       sb_env (w_bus (snd (cleanup_env ref_ops w))))) =
   (Inr (), [(''BAR'', ''x''), (''FOO'', ''old'')],
    [(''LOADED'', ''1''), (''FOO'', ''old''), (''FOO'', ''old'')],
    [(''FOO'', ''old''), (''BAR'', ''x''), (''FOO'', ''old''), (''FOO'', ''old'')])"
  by code_simp

end
