(* ===== verification/Check.thy ===== *)
theory Check
  imports Stop Util
begin

text \<open>
  The checks of \<open>check may-start\<close>, src/session/check.rs. The trait of probes is a record of functions
  on a state, as the source abstracts them; \<open>sys_probes\<close> is the real set. A check that ends the
  verdict early, because it failed or because only the first reason is wanted, stops the chain of
  checks. The contract \<open>probe_contract\<close> says that the probes answer the same while the checks run;
  under it the verdict is a plain function of the answers.
\<close>

record check_opts =
  co_no_login :: bool
  co_vtnr :: "nat list"
  co_allow_remote :: bool
  co_gst_seconds :: nat
  co_verbose :: bool

record verdict =
  vd_errors :: "string list"
  vd_visible :: "string list"
  vd_silent :: "string list"

definition may_start :: "verdict \<Rightarrow> bool" where
  "may_start v \<longleftrightarrow> vd_errors v = [] \<and> vd_visible v = [] \<and> vd_silent v = []"

record 'w probes =
  pb_is_root :: "'w \<Rightarrow> bool"
  pb_dbus_session_present :: "'w \<Rightarrow> bool"
  pb_parent_cmdline :: "('w, string) io"
  pb_compositor_active :: "('w, bool) io"
  pb_foreground_vt :: "('w, nat) io"
  pb_session_id :: "'w \<Rightarrow> string"
  pb_connect_system :: "('w, unit) io"
  pb_session_vtnr :: "string \<Rightarrow> ('w, nat) io"
  pb_session_remote :: "string \<Rightarrow> ('w, bool) io"
  pb_graphical_target_reached :: "nat \<Rightarrow> 'w \<Rightarrow> (bool result \<times> 'w) option"

section \<open>The chain of checks\<close>

text \<open>A check gets the verdict so far and says whether to go on; None when it never returns.\<close>

type_synonym 'w check = "verdict \<Rightarrow> 'w \<Rightarrow> ((bool \<times> verdict) \<times> 'w) option"

definition push_error :: "string \<Rightarrow> verdict \<Rightarrow> bool \<times> verdict" where
  "push_error m v = (False, v\<lparr>vd_errors := vd_errors v @ [m]\<rparr>)"

definition push_visible :: "bool \<Rightarrow> string \<Rightarrow> verdict \<Rightarrow> bool \<times> verdict" where
  "push_visible go m v = (go, v\<lparr>vd_visible := vd_visible v @ [m]\<rparr>)"

definition push_silent :: "bool \<Rightarrow> string \<Rightarrow> verdict \<Rightarrow> bool \<times> verdict" where
  "push_silent go m v = (go, v\<lparr>vd_silent := vd_silent v @ [m]\<rparr>)"

definition on_probe ::
  "('w \<Rightarrow> ('a result \<times> 'w) option) \<Rightarrow> ('a result \<Rightarrow> verdict \<Rightarrow> bool \<times> verdict) \<Rightarrow> 'w check" where
  "on_probe m f v w = map_option (\<lambda>(r, w'). (f r v, w')) (m w)"

definition on_answer :: "('w \<Rightarrow> 'a) \<Rightarrow> ('a \<Rightarrow> verdict \<Rightarrow> bool \<times> verdict) \<Rightarrow> 'w check" where
  "on_answer g f v w = Some (f (g w) v, w)"

fun checks :: "'w check list \<Rightarrow> verdict \<Rightarrow> 'w \<Rightarrow> (verdict \<times> 'w) option" where
  "checks [] v w = Some (v, w)"
| "checks (c # cs) v w =
     (case c v w of
        None \<Rightarrow> None
      | Some ((go, v'), w') \<Rightarrow> if go then checks cs v' w' else Some (v', w'))"

definition join_vts :: "nat list \<Rightarrow> string" where
  "join_vts vts = join_with ''|'' (map show_nat vts)"

definition vt_checks :: "check_opts \<Rightarrow> bool" where
  "vt_checks opts \<longleftrightarrow> co_vtnr opts \<noteq> [0]"

definition need_system :: "check_opts \<Rightarrow> bool" where
  "need_system opts \<longleftrightarrow> vt_checks opts \<or> \<not> co_allow_remote opts \<or> 0 < co_gst_seconds opts"

text \<open>What each check makes of its probe's answer; \<open>show\<close> is the error's Display text.\<close>

definition root_check :: "bool \<Rightarrow> verdict \<Rightarrow> bool \<times> verdict" where
  "root_check root v = (if root then push_silent False ''Running as root'' v else (True, v))"

definition dbus_check :: "bool \<Rightarrow> verdict \<Rightarrow> bool \<times> verdict" where
  "dbus_check present v =
     (if \<not> present then push_silent False ''DBUS_SESSION_BUS_ADDRESS is not available'' v else (True, v))"

definition login_check :: "(error \<Rightarrow> string) \<Rightarrow> check_opts \<Rightarrow> string result \<Rightarrow> verdict \<Rightarrow> bool \<times> verdict" where
  "login_check shw opts r v =
     (case r of
        Inr c \<Rightarrow>
          if \<not> starts_with ''-'' c then push_silent (co_verbose opts) ''Not in login shell'' v
          else (True, v)
      | Inl e \<Rightarrow> push_error (''Could not determine parent process command: '' @ shw e) v)"

definition active_check :: "(error \<Rightarrow> string) \<Rightarrow> check_opts \<Rightarrow> bool result \<Rightarrow> verdict \<Rightarrow> bool \<times> verdict" where
  "active_check shw opts r v =
     (case r of
        Inr True \<Rightarrow>
          push_visible (co_verbose opts)
            ''A compositor and/or graphical-session* targets are already active'' v
      | Inr False \<Rightarrow> (True, v)
      | Inl e \<Rightarrow> push_error (''Could not check for active compositor: '' @ shw e) v)"

definition fg_vt_check :: "check_opts \<Rightarrow> nat result \<Rightarrow> verdict \<Rightarrow> bool \<times> verdict" where
  "fg_vt_check opts r v =
     (case r of
        Inr fgvt \<Rightarrow>
          if fgvt \<notin> set (co_vtnr opts)
          then push_silent (co_verbose opts)
            (''Foreground VT ('' @ show_nat fgvt @ '') is not among allowed VTs ('' @
             join_vts (co_vtnr opts) @ '')'') v
          else (True, v)
      | Inl _ \<Rightarrow> push_silent (co_verbose opts) ''Could not determine foreground VT'' v)"

definition connect_check :: "(error \<Rightarrow> string) \<Rightarrow> unit result \<Rightarrow> verdict \<Rightarrow> bool \<times> verdict" where
  "connect_check shw r v =
     (case r of
        Inr _ \<Rightarrow> (True, v)
      | Inl e \<Rightarrow> push_error (''Could not connect to the system bus: '' @ shw e) v)"

definition no_session_id :: "check_opts \<Rightarrow> verdict \<Rightarrow> bool \<times> verdict" where
  "no_session_id opts v = push_silent (co_verbose opts) ''XDG_SESSION_ID is not available'' v"

definition session_vt_check ::
  "(error \<Rightarrow> string) \<Rightarrow> check_opts \<Rightarrow> string \<Rightarrow> nat result \<Rightarrow> verdict \<Rightarrow> bool \<times> verdict" where
  "session_vt_check shw opts sid r v =
     (case r of
        Inr vt \<Rightarrow>
          if vt = 0 then
            push_silent (co_verbose opts) (''Session '' @ sid @ '' is not associated with a VT'') v
          else if vt \<notin> set (co_vtnr opts) then
            push_silent (co_verbose opts)
              (''Session VT ('' @ show_nat vt @ '') is not among allowed VTs ('' @
               join_vts (co_vtnr opts) @ '')'') v
          else (True, v)
      | Inl e \<Rightarrow> push_error (''Could not get session VTNr: '' @ shw e) v)"

definition remote_check ::
  "(error \<Rightarrow> string) \<Rightarrow> check_opts \<Rightarrow> string \<Rightarrow> bool result \<Rightarrow> verdict \<Rightarrow> bool \<times> verdict" where
  "remote_check shw opts sid r v =
     (case r of
        Inr True \<Rightarrow> push_silent (co_verbose opts) (''Session '' @ sid @ '' is not local'') v
      | Inr False \<Rightarrow> (True, v)
      | Inl e \<Rightarrow> push_error (''Could not get session Remote attr: '' @ shw e) v)"

definition gst_check :: "(error \<Rightarrow> string) \<Rightarrow> check_opts \<Rightarrow> bool result \<Rightarrow> verdict \<Rightarrow> bool \<times> verdict" where
  "gst_check shw opts r v =
     (case r of
        Inr True \<Rightarrow> (True, v)
      | Inr False \<Rightarrow> push_silent (co_verbose opts) ''System has not reached graphical.target'' v
      | Inl e \<Rightarrow> push_error (''Could not check if graphical.target is reached: '' @ shw e) v)"

text \<open>A probe of the login session, which needs the session's identifier.\<close>

definition session_probe ::
  "check_opts \<Rightarrow> 'w probes \<Rightarrow> (string \<Rightarrow> ('w, 'a) io) \<Rightarrow>
   (string \<Rightarrow> 'a result \<Rightarrow> verdict \<Rightarrow> bool \<times> verdict) \<Rightarrow> 'w check" where
  "session_probe opts p probe f v w =
     (let sid = pb_session_id p w
      in if sid = [] then Some (no_session_id opts v, w)
         else on_probe (\<lambda>w. Some (probe sid w)) (f sid) v w)"

definition check_may_start_with ::
  "(error \<Rightarrow> string) \<Rightarrow> check_opts \<Rightarrow> 'w probes \<Rightarrow> 'w \<Rightarrow> (verdict \<times> 'w) option" where
  "check_may_start_with shw opts p =
     checks
       ([on_answer (pb_is_root p) root_check, on_answer (pb_dbus_session_present p) dbus_check] @
        (if \<not> co_no_login opts
         then [on_probe (Some \<circ> pb_parent_cmdline p) (login_check shw opts)] else []) @
        [on_probe (Some \<circ> pb_compositor_active p) (active_check shw opts)] @
        (if vt_checks opts then [on_probe (Some \<circ> pb_foreground_vt p) (fg_vt_check opts)] else []) @
        (if need_system opts
         then [on_probe (Some \<circ> pb_connect_system p) (connect_check shw)] else []) @
        (if vt_checks opts
         then [session_probe opts p (pb_session_vtnr p) (session_vt_check shw opts)] else []) @
        (if \<not> co_allow_remote opts
         then [session_probe opts p (pb_session_remote p) (remote_check shw opts)] else []) @
        (if 0 < co_gst_seconds opts
         then [on_probe (pb_graphical_target_reached p (co_gst_seconds opts)) (gst_check shw opts)]
         else []))
       \<lparr>vd_errors = [], vd_visible = [], vd_silent = []\<rparr>"

section \<open>The real probes\<close>

definition proc_cmdline :: "nat \<Rightarrow> string" where
  "proc_cmdline ppid = ''/proc/'' @ show_nat ppid @ ''/cmdline''"

definition sys_probes :: "'b bus_ops \<Rightarrow> 'b proc_ops \<Rightarrow> 'b world probes" where
  "sys_probes ops pr =
     \<lparr>pb_is_root = (\<lambda>w. pr_euid pr w = 0),
      pb_dbus_session_present =
        (\<lambda>w. case bm_get (w_env w) ''DBUS_SESSION_BUS_ADDRESS'' of Some s \<Rightarrow> s \<noteq> [] | None \<Rightarrow> False),
      pb_parent_cmdline =
        (\<lambda>w. let path = proc_cmdline (pr_ppid pr w)
             in (map_err (Io path) (std_read (w_fs w) path), w)),
      pb_compositor_active = io_bind (connect_session ops) (\<lambda>_. on_bus (is_active ops)),
      pb_foreground_vt = ask_fs read_fg_vt,
      pb_session_id = (\<lambda>w. unwrap_or (bm_get (w_env w) ''XDG_SESSION_ID'') []),
      pb_connect_system = connect_system ops,
      pb_session_vtnr = (\<lambda>i. on_bus (session_vtnr ops i)),
      pb_session_remote = (\<lambda>i. on_bus (session_remote ops i)),
      pb_graphical_target_reached =
        (\<lambda>secs w. map_option (\<lambda>(r, b). (r, w\<lparr>w_bus := b\<rparr>))
           (wait_for_unit ops ''graphical.target'' ACTIVE_STATES (1000 * secs) (w_bus w)))\<rparr>"

definition check_may_start ::
  "'b bus_ops \<Rightarrow> 'b proc_ops \<Rightarrow> check_opts \<Rightarrow> 'b world \<Rightarrow> (verdict \<times> 'b world) option" where
  "check_may_start ops pr opts = check_may_start_with (show_error pr) opts (sys_probes ops pr)"

section \<open>What the verdict says\<close>

record answers =
  an_root :: bool
  an_dbus :: bool
  an_parent :: "string result"
  an_active :: "bool result"
  an_fg_vt :: "nat result"
  an_session :: string
  an_connect :: "unit result"
  an_vtnr :: "nat result"
  an_remote :: "bool result"
  an_gst :: "nat \<Rightarrow> bool result"

text \<open>The conditions for starting, one per check.\<close>

definition start_conditions :: "check_opts \<Rightarrow> answers \<Rightarrow> bool list" where
  "start_conditions opts a =
     [\<not> an_root a, an_dbus a] @
     (if \<not> co_no_login opts
      then [case an_parent a of Inr c \<Rightarrow> starts_with ''-'' c | Inl _ \<Rightarrow> False] else []) @
     [an_active a = Inr False] @
     (if vt_checks opts
      then [case an_fg_vt a of Inr vt \<Rightarrow> vt \<in> set (co_vtnr opts) | Inl _ \<Rightarrow> False] else []) @
     (if need_system opts then [is_ok (an_connect a)] else []) @
     (if vt_checks opts
      then [an_session a \<noteq> [] \<and>
            (case an_vtnr a of Inr vt \<Rightarrow> vt \<noteq> 0 \<and> vt \<in> set (co_vtnr opts) | Inl _ \<Rightarrow> False)]
      else []) @
     (if \<not> co_allow_remote opts then [an_session a \<noteq> [] \<and> an_remote a = Inr False] else []) @
     (if 0 < co_gst_seconds opts then [an_gst a (co_gst_seconds opts) = Inr True] else [])"

definition messages :: "verdict \<Rightarrow> nat" where
  "messages v = length (vd_errors v) + length (vd_visible v) + length (vd_silent v)"

lemma may_start_messages: "may_start v \<longleftrightarrow> messages v = 0"
  by (auto simp: may_start_def messages_def)

text \<open>A check is graded by a condition: when it holds the check passes, otherwise the check adds one
  message, and stops the chain unless everything is to be reported.\<close>

definition graded :: "bool \<Rightarrow> (verdict \<Rightarrow> bool \<times> verdict) \<Rightarrow> bool \<Rightarrow> bool" where
  "graded verbose f ok \<longleftrightarrow>
     (ok \<longrightarrow> (\<forall>v. f v = (True, v))) \<and>
     (\<not> ok \<longrightarrow> (\<forall>v. messages (snd (f v)) = Suc (messages v) \<and> (fst (f v) \<longrightarrow> verbose)))"

lemma messages_push [simp]:
  "messages (snd (push_error m v)) = Suc (messages v)" "\<not> fst (push_error m v)"
  "messages (snd (push_visible go m v)) = Suc (messages v)" "fst (push_visible go m v) = go"
  "messages (snd (push_silent go m v)) = Suc (messages v)" "fst (push_silent go m v) = go"
  by (simp_all add: messages_def push_error_def push_visible_def push_silent_def)

lemma graded_checks:
  "graded vb (root_check root) (\<not> root)" "graded vb (dbus_check present) present"
  "graded (co_verbose opts) (login_check shw opts pr)
     (case pr of Inr c \<Rightarrow> starts_with ''-'' c | Inl _ \<Rightarrow> False)"
  "graded (co_verbose opts) (active_check shw opts ar) (ar = Inr False)"
  "graded (co_verbose opts) (fg_vt_check opts fr)
     (case fr of Inr vt \<Rightarrow> vt \<in> set (co_vtnr opts) | Inl _ \<Rightarrow> False)"
  "graded vb (connect_check shw cr) (is_ok cr)"
  "graded (co_verbose opts) (gst_check shw opts ar) (ar = Inr True)"
  "graded (co_verbose opts) (session_vt_check shw opts sid fr)
     (case fr of Inr vt \<Rightarrow> vt \<noteq> 0 \<and> vt \<in> set (co_vtnr opts) | Inl _ \<Rightarrow> False)"
  "graded (co_verbose opts) (remote_check shw opts sid ar) (ar = Inr False)"
  by (auto simp: graded_def root_check_def dbus_check_def login_check_def active_check_def
      fg_vt_check_def connect_check_def gst_check_def session_vt_check_def remote_check_def
      split: sum.split bool.split)

locale probe_contract =
  fixes p :: "'w probes"
    and a :: answers
    and inv :: "'w \<Rightarrow> bool"
  assumes root_answer: "inv w \<Longrightarrow> pb_is_root p w = an_root a"
    and dbus_answer: "inv w \<Longrightarrow> pb_dbus_session_present p w = an_dbus a"
    and parent_answer: "inv w \<Longrightarrow> \<exists>w'. pb_parent_cmdline p w = (an_parent a, w') \<and> inv w'"
    and active_answer: "inv w \<Longrightarrow> \<exists>w'. pb_compositor_active p w = (an_active a, w') \<and> inv w'"
    and fg_vt_answer: "inv w \<Longrightarrow> \<exists>w'. pb_foreground_vt p w = (an_fg_vt a, w') \<and> inv w'"
    and session_answer: "inv w \<Longrightarrow> pb_session_id p w = an_session a"
    and connect_answer: "inv w \<Longrightarrow> \<exists>w'. pb_connect_system p w = (an_connect a, w') \<and> inv w'"
    and vtnr_answer: "inv w \<Longrightarrow> \<exists>w'. pb_session_vtnr p (an_session a) w = (an_vtnr a, w') \<and> inv w'"
    and remote_answer: "inv w \<Longrightarrow> \<exists>w'. pb_session_remote p (an_session a) w = (an_remote a, w') \<and> inv w'"
    and gst_answer: "inv w \<Longrightarrow> \<exists>w'. pb_graphical_target_reached p s w = Some (an_gst a s, w') \<and> inv w'"
begin

text \<open>A check that, from any state of the invariant, does to the verdict what \<open>f\<close> does, with \<open>f\<close>
  graded by \<open>ok\<close>.\<close>

definition follows :: "bool \<Rightarrow> 'w check \<Rightarrow> bool \<Rightarrow> bool" where
  "follows verbose c ok \<longleftrightarrow>
     (\<exists>f. graded verbose f ok \<and> (\<forall>v w. inv w \<longrightarrow> (\<exists>w'. c v w = Some (f v, w') \<and> inv w')))"

lemma followsI:
  "graded verbose f ok \<Longrightarrow> (\<And>v w. inv w \<Longrightarrow> \<exists>w'. c v w = Some (f v, w') \<and> inv w') \<Longrightarrow>
   follows verbose c ok"
  unfolding follows_def by blast

lemma checks_follow:
  assumes "list_all2 (follows verbose) cs oks" "inv w"
  shows "\<exists>v' w'. checks cs v w = Some (v', w') \<and> inv w' \<and> messages v \<le> messages v' \<and>
    (messages v' = messages v \<longleftrightarrow> list_all id oks) \<and> (\<not> verbose \<longrightarrow> messages v' \<le> Suc (messages v))"
  using assms
proof (induction cs oks arbitrary: v w rule: list_all2_induct)
  case (Cons c cs ok oks)
  from Cons.hyps(1) obtain f where g: "graded verbose f ok"
    and f: "\<And>v w. inv w \<Longrightarrow> \<exists>w'. c v w = Some (f v, w') \<and> inv w'"
    unfolding follows_def by blast
  from f[OF Cons.prems] obtain w1 where c: "c v w = Some (f v, w1)" and w1: "inv w1" by blast
  show ?case
  proof (cases ok)
    case True
    with g have "f v = (True, v)" by (simp add: graded_def)
    with c True Cons.IH[OF w1, of v] show ?thesis by simp
  next
    case False
    obtain go v1 where v1: "f v = (go, v1)" by (cases "f v")
    have n: "messages v1 = Suc (messages v)" "go \<Longrightarrow> verbose"
      using g False v1 by (auto simp: graded_def dest!: spec[of _ v])
    show ?thesis
    proof (cases go)
      case True
      from Cons.IH[OF w1, of v1] obtain v' w'
        where "checks cs v1 w1 = Some (v', w')" "inv w'" "messages v1 \<le> messages v'" by blast
      with c v1 True n False show ?thesis by simp
    next
      case no: False
      with c v1 n False w1 show ?thesis by simp
    qed
  qed
qed simp

lemma probe_follows:
  assumes "graded vb (f r) ok" "\<And>w. inv w \<Longrightarrow> \<exists>w'. m w = Some (r, w') \<and> inv w'"
  shows "follows vb (on_probe m f) ok"
proof (rule followsI[OF assms(1)])
  show "\<exists>w'. on_probe m f v w = Some (f r v, w') \<and> inv w'" if "inv w" for v w
    using assms(2)[OF that] by (auto simp: on_probe_def)
qed

lemma answer_follows:
  assumes "graded vb (f r) ok" "\<And>w. inv w \<Longrightarrow> g w = r"
  shows "follows vb (on_answer g f) ok"
  by (rule followsI[OF assms(1)]) (simp add: on_answer_def assms(2))

lemma each_follows:
  "follows vb (on_answer (pb_is_root p) root_check) (\<not> an_root a)"
  "follows vb (on_answer (pb_dbus_session_present p) dbus_check) (an_dbus a)"
  "follows (co_verbose opts) (on_probe (Some \<circ> pb_parent_cmdline p) (login_check shw opts))
     (case an_parent a of Inr c \<Rightarrow> starts_with ''-'' c | Inl _ \<Rightarrow> False)"
  "follows (co_verbose opts) (on_probe (Some \<circ> pb_compositor_active p) (active_check shw opts))
     (an_active a = Inr False)"
  "follows (co_verbose opts) (on_probe (Some \<circ> pb_foreground_vt p) (fg_vt_check opts))
     (case an_fg_vt a of Inr vt \<Rightarrow> vt \<in> set (co_vtnr opts) | Inl _ \<Rightarrow> False)"
  "follows vb (on_probe (Some \<circ> pb_connect_system p) (connect_check shw)) (is_ok (an_connect a))"
  "follows (co_verbose opts) (on_probe (pb_graphical_target_reached p s) (gst_check shw opts))
     (an_gst a s = Inr True)"
  by (rule answer_follows probe_follows, rule graded_checks,
      simp add: root_answer dbus_answer parent_answer active_answer fg_vt_answer connect_answer
        gst_answer)+

text \<open>The two checks of the login session.\<close>

lemma session_follows:
  assumes g: "graded (co_verbose opts) (f (an_session a) r) ok"
    and q: "\<And>w. inv w \<Longrightarrow> \<exists>w'. probe (an_session a) w = (r, w') \<and> inv w'"
  shows "follows (co_verbose opts) (session_probe opts p probe f) (an_session a \<noteq> [] \<and> ok)"
proof (cases "an_session a = []")
  case True
  show ?thesis
    by (rule followsI[of _ "no_session_id opts"])
       (simp_all add: True graded_def no_session_id_def session_probe_def session_answer)
next
  case False
  show ?thesis
  proof (rule followsI[of _ "f (an_session a) r"])
    show "graded (co_verbose opts) (f (an_session a) r) (an_session a \<noteq> [] \<and> ok)"
      using g False by simp
    show "\<exists>w'. session_probe opts p probe f v w = Some (f (an_session a) r v, w') \<and> inv w'"
      if i: "inv w" for v w
      using q[OF i] session_answer[OF i] False by (auto simp: session_probe_def on_probe_def)
  qed
qed

lemma login_session_follows:
  "follows (co_verbose opts) (session_probe opts p (pb_session_vtnr p) (session_vt_check shw opts))
     (an_session a \<noteq> [] \<and>
      (case an_vtnr a of Inr vt \<Rightarrow> vt \<noteq> 0 \<and> vt \<in> set (co_vtnr opts) | Inl _ \<Rightarrow> False))"
  "follows (co_verbose opts) (session_probe opts p (pb_session_remote p) (remote_check shw opts))
     (an_session a \<noteq> [] \<and> an_remote a = Inr False)"
  using session_follows[where probe = "pb_session_vtnr p" and f = "session_vt_check shw opts",
      OF graded_checks(8) vtnr_answer]
    session_follows[where probe = "pb_session_remote p" and f = "remote_check shw opts",
      OF graded_checks(9) remote_answer]
  by simp_all

lemma verdict_follows:
  assumes "inv w"
  shows "\<exists>v w'. check_may_start_with shw opts p w = Some (v, w') \<and> inv w' \<and>
    (may_start v \<longleftrightarrow> list_all id (start_conditions opts a)) \<and>
    (\<not> co_verbose opts \<longrightarrow> messages v \<le> 1)"
proof -
  let ?v = "\<lparr>vd_errors = [], vd_visible = [], vd_silent = []\<rparr>"
  have m: "messages ?v = 0" by (simp add: messages_def)
  have nil: "list_all2 (follows (co_verbose opts)) (if b then [c] else []) (if b then [ok] else [])"
    if "follows (co_verbose opts) c ok" for b c ok
    using that by simp
  have "\<exists>v' w'. check_may_start_with shw opts p w = Some (v', w') \<and> inv w' \<and> messages ?v \<le> messages v' \<and>
      (messages v' = messages ?v \<longleftrightarrow> list_all id (start_conditions opts a)) \<and>
      (\<not> co_verbose opts \<longrightarrow> messages v' \<le> Suc (messages ?v))"
    unfolding check_may_start_with_def start_conditions_def
    by (rule checks_follow[OF _ assms])
       (intro list_all2_appendI nil each_follows login_session_follows list_all2_Cons[THEN iffD2] conjI
          list_all2_Nil[THEN iffD2] refl)
  then show ?thesis unfolding m may_start_messages by auto
qed

end

end
