(* ===== verification/CheckProps.thy ===== *)
theory CheckProps
  imports Check RefProc
begin

text \<open>
  The start conditions on the reference services and system: while nothing changes, the real probes
  answer the same every time, so the verdict is exactly the conjunction of the conditions.
\<close>

section \<open>A quiet system\<close>

definition quiet_bus :: "unit_info list \<Rightarrow> (session_info \<times> nat) list \<Rightarrow> sbus \<Rightarrow> bool" where
  "quiet_bus us ss b \<longleftrightarrow> sb_faults b = (\<lambda>_. None) \<and> sb_units b = us \<and> sb_sessions b = ss"

definition quiet :: "env \<Rightarrow> fs \<Rightarrow> unit_info list \<Rightarrow> (session_info \<times> nat) list \<Rightarrow> sbus world \<Rightarrow> bool" where
  "quiet e s us ss w \<longleftrightarrow> w_env w = e \<and> w_fs w = s \<and> quiet_bus us ss (w_bus w)"

definition state_of :: "unit_info list \<Rightarrow> string \<Rightarrow> string option" where
  "state_of us n = map_option ui_active_state (List.find (\<lambda>u. ui_name u = n) us)"

definition unit_up :: "unit_info list \<Rightarrow> string \<Rightarrow> string list \<Rightarrow> bool" where
  "unit_up us n states = (case state_of us n of Some st \<Rightarrow> st \<in> set states | None \<Rightarrow> False)"

definition up :: "unit_info list \<Rightarrow> string list \<Rightarrow> bool" where
  "up us pats \<longleftrightarrow>
     list_ex (\<lambda>u. ui_active_state u \<in> set ACTIVE_STATES \<and> list_ex (\<lambda>p. glob_match p (ui_name u)) pats) us"

definition quiet_answers :: "env \<Rightarrow> fs \<Rightarrow> unit_info list \<Rightarrow> (session_info \<times> nat) list \<Rightarrow> answers" where
  "quiet_answers e s us ss =
     \<lparr>an_root = False,
      an_dbus = (case bm_get e ''DBUS_SESSION_BUS_ADDRESS'' of Some a \<Rightarrow> a \<noteq> [] | None \<Rightarrow> False),
      an_parent = map_err (Io (proc_cmdline 1)) (std_read s (proc_cmdline 1)),
      an_active = Inr (up us GENERIC_ACTIVE_PATTERNS),
      an_fg_vt = read_fg_vt s,
      an_session = unwrap_or (bm_get e ''XDG_SESSION_ID'') [],
      an_connect = Inr (),
      an_vtnr = Inr (case List.find (\<lambda>p. si_session_id (fst p) = unwrap_or (bm_get e ''XDG_SESSION_ID'') []) ss
                     of None \<Rightarrow> 0 | Some p \<Rightarrow> snd p),
      an_remote = Inr False,
      an_gst = (\<lambda>_. Inr (unit_up us ''graphical.target'' ACTIVE_STATES))\<rparr>"

lemma quiet_call:
  assumes "quiet_bus us ss b" "\<And>b. quiet_bus us ss b \<Longrightarrow> quiet_bus us ss (upd b)"
  shows "\<exists>b'. sb_call get upd b = (Inr (get b'), upd b') \<and> quiet_bus us ss b' \<and> quiet_bus us ss (upd b')"
proof -
  let ?b = "b\<lparr>sb_calls := Suc (sb_calls b)\<rparr>"
  have q: "quiet_bus us ss ?b" using assms(1) by (simp add: quiet_bus_def)
  have "sb_call get upd b = (Inr (get ?b), upd ?b)"
    using assms(1) by (simp add: sb_call_def Let_def quiet_bus_def)
  with q assms(2)[OF q] show ?thesis by blast
qed

lemma quiet_query:
  assumes "quiet_bus us ss b" "\<And>b. quiet_bus us ss b \<Longrightarrow> get b = x"
  shows "\<exists>b'. dbus_io (sb_call get id) b = (Inr x, b') \<and> quiet_bus us ss b'"
  using quiet_call[OF assms(1), of id get] assms(2) by (auto simp: dbus_io_def)

lemma quiet_unit_state:
  assumes "quiet_bus us ss b" "n \<noteq> ''dbus.service''"
  shows "\<exists>b'. unit_active_state ref_ops n b = (Inr (state_of us n), b') \<and> quiet_bus us ss b'"
proof -
  let ?b = "b\<lparr>sb_calls := Suc (sb_calls b)\<rparr>"
  have q: "quiet_bus us ss ?b" using assms(1) by (simp add: quiet_bus_def)
  have p: "m_get_unit ref_ops n b =
      (if List.find (\<lambda>u. ui_name u = n) us \<noteq> None then (Inr n, ?b)
       else (Inl (MethodError ''org.freedesktop.systemd1.NoSuchUnit''), ?b))"
    using assms by (simp add: ref_ops_def sb_unit_path_def sb_call_def Let_def quiet_bus_def sb_find_unit_def)
  show ?thesis
  proof (cases "List.find (\<lambda>u. ui_name u = n) us")
    case None
    with p q show ?thesis by (simp add: unit_active_state_def is_no_such_unit_def state_of_def)
  next
    case (Some u)
    have "\<exists>b'. dbus_io (u_active_state ref_ops n) ?b = (Inr (ui_active_state u), b') \<and> quiet_bus us ss b'"
      unfolding ref_ops_def bus_ops.simps
      by (rule quiet_query[OF q]) (simp add: quiet_bus_def sb_find_unit_def Some)
    with p Some show ?thesis by (auto simp: unit_active_state_def state_of_def io_bind_def)
  qed
qed

lemma quiet_wait:
  assumes q: "quiet_bus us ss b" and n: "n \<noteq> ''dbus.service''"
  shows "\<exists>b'. wait_for_unit ref_ops n states timeout b =
    Some (Inr (unit_up us n states), b') \<and> quiet_bus us ss b'"
proof -
  let ?up = "unit_up us n states"
  have "\<exists>b'. wait_for_unit_loop ref_ops n states start timeout b = Some (Inr ?up, b') \<and> quiet_bus us ss b'"
    if "quiet_bus us ss b" for start b
    using that
  proof (induction "start + timeout - sb_now b" arbitrary: b rule: less_induct)
    case less
    obtain b1 where s: "unit_active_state ref_ops n b = (Inr (state_of us n), b1)"
      and q1: "quiet_bus us ss b1" using quiet_unit_state[OF less.prems n] by blast
    have le: "sb_now b \<le> sb_now b1"
      using unit_active_state_now[OF ref_clock.clock_axioms s] by (simp add: ref_ops_def)
    show ?case
    proof (cases "?up \<or> timeout \<le> sb_now b1 - start")
      case True
      then show ?thesis using s q1 by (subst wait_for_unit_loop.simps) (auto simp: ref_ops_def unit_up_def split: option.splits)
    next
      case False
      let ?b2 = "b1\<lparr>sb_now := sb_now b1 + 500\<rparr>"
      have q2: "quiet_bus us ss ?b2" using q1 by (simp add: quiet_bus_def)
      have "start + timeout - sb_now ?b2 < start + timeout - sb_now b" using False le by auto
      from less.hyps[OF this q2] s False show ?thesis
        by (subst wait_for_unit_loop.simps) (auto simp: ref_ops_def unit_up_def split: option.splits)
    qed
  qed
  from this[OF q] show ?thesis by (simp add: wait_for_unit_def)
qed

lemma quiet_bus_world: "quiet e s us ss w \<Longrightarrow> quiet_bus us ss b \<Longrightarrow> quiet e s us ss (w\<lparr>w_bus := b\<rparr>)"
  by (simp add: quiet_def)

lemma quiet_on_bus:
  assumes "quiet e s us ss w" "\<And>b. quiet_bus us ss b \<Longrightarrow> \<exists>b'. m b = (Inr x, b') \<and> quiet_bus us ss b'"
  shows "\<exists>w'. on_bus m w = (Inr x, w') \<and> quiet e s us ss w'"
proof -
  have "quiet_bus us ss (w_bus w)" using assms(1) by (simp add: quiet_def)
  from assms(2)[OF this] obtain b where "m (w_bus w) = (Inr x, b)" "quiet_bus us ss b" by blast
  with quiet_bus_world[OF assms(1), of b] show ?thesis by (simp add: on_bus_def)
qed

lemma quiet_connect:
  assumes "quiet_bus us ss b"
  shows "\<exists>b'. dbus_io (c_session ref_ops) b = (Inr (), b') \<and> quiet_bus us ss b'"
    "\<exists>b'. dbus_io (c_system ref_ops) b = (Inr (), b') \<and> quiet_bus us ss b'"
  unfolding ref_ops_def bus_ops.simps by (rule quiet_query[OF assms], simp)+

lemma quiet_is_active:
  assumes "quiet_bus us ss b"
  shows "\<exists>b'. is_active ref_ops b = (Inr (up us GENERIC_ACTIVE_PATTERNS), b') \<and> quiet_bus us ss b'"
proof -
  let ?f = "\<lambda>us. filter (\<lambda>u. ui_active_state u \<in> set ACTIVE_STATES \<and>
      list_ex (\<lambda>p. glob_match p (ui_name u)) GENERIC_ACTIVE_PATTERNS) us"
  have "\<exists>b'. dbus_io (m_list_units ref_ops ACTIVE_STATES GENERIC_ACTIVE_PATTERNS) b = (Inr (?f us), b') \<and>
      quiet_bus us ss b'"
    unfolding ref_ops_def bus_ops.simps by (rule quiet_query[OF assms]) (simp add: quiet_bus_def)
  moreover have "up us GENERIC_ACTIVE_PATTERNS \<longleftrightarrow> ?f us \<noteq> []"
    by (auto simp: up_def list_ex_iff filter_empty_conv)
  ultimately show ?thesis
    by (auto simp: is_active_def is_active_for_def list_units_by_patterns_def io_bind_def)
qed

lemma quiet_session:
  assumes "quiet_bus us ss b"
  shows "\<exists>b'. session_vtnr ref_ops i b =
      (Inr (case List.find (\<lambda>p. si_session_id (fst p) = i) ss of None \<Rightarrow> 0 | Some p \<Rightarrow> snd p), b') \<and>
      quiet_bus us ss b'"
    "\<exists>b'. session_remote ref_ops i b = (Inr False, b') \<and> quiet_bus us ss b'"
proof -
  have "\<exists>b'. dbus_io (l_get_session ref_ops i) b = (Inr i, b') \<and> quiet_bus us ss b'"
    unfolding ref_ops_def bus_ops.simps by (rule quiet_query[OF assms]) simp
  then obtain b1 where g: "dbus_io (l_get_session ref_ops i) b = (Inr i, b1)" and q: "quiet_bus us ss b1"
    by blast
  have "\<exists>b'. dbus_io (l_vtnr ref_ops i) b1 =
      (Inr (case List.find (\<lambda>p. si_session_id (fst p) = i) ss of None \<Rightarrow> 0 | Some p \<Rightarrow> snd p), b') \<and>
      quiet_bus us ss b'"
    unfolding ref_ops_def bus_ops.simps
    by (rule quiet_query[OF q]) (simp add: quiet_bus_def sb_session_info_def)
  with g show "\<exists>b'. session_vtnr ref_ops i b =
      (Inr (case List.find (\<lambda>p. si_session_id (fst p) = i) ss of None \<Rightarrow> 0 | Some p \<Rightarrow> snd p), b') \<and>
      quiet_bus us ss b'"
    by (auto simp: session_vtnr_def io_bind_def)
  have "\<exists>b'. dbus_io (l_remote ref_ops i) b1 = (Inr False, b') \<and> quiet_bus us ss b'"
    unfolding ref_ops_def bus_ops.simps by (rule quiet_query[OF q]) simp
  with g show "\<exists>b'. session_remote ref_ops i b = (Inr False, b') \<and> quiet_bus us ss b'"
    by (auto simp: session_remote_def io_bind_def)
qed

interpretation ref_probes: probe_contract "sys_probes ref_ops ref_proc" "quiet_answers e s us ss"
  "quiet e s us ss" for e s us ss
proof unfold_locales
  fix w :: "sbus world" and secs
  assume q: "quiet e s us ss w"
  note plain = quiet_def sys_probes_def quiet_answers_def ref_proc_def
  show "pb_is_root (sys_probes ref_ops ref_proc) w = an_root (quiet_answers e s us ss)"
    "pb_dbus_session_present (sys_probes ref_ops ref_proc) w = an_dbus (quiet_answers e s us ss)"
    "\<exists>w'. pb_parent_cmdline (sys_probes ref_ops ref_proc) w = (an_parent (quiet_answers e s us ss), w') \<and>
       quiet e s us ss w'"
    "\<exists>w'. pb_foreground_vt (sys_probes ref_ops ref_proc) w = (an_fg_vt (quiet_answers e s us ss), w') \<and>
       quiet e s us ss w'"
    "pb_session_id (sys_probes ref_ops ref_proc) w = an_session (quiet_answers e s us ss)"
    using q by (simp_all add: plain Let_def split: option.split)
  obtain w1 where c: "connect_session ref_ops w = (Inr (), w1)" and q1: "quiet e s us ss w1"
    using quiet_on_bus[OF q, where m = "dbus_io (c_session ref_ops)", OF quiet_connect(1)] by (auto simp: connect_session_def)
  from quiet_on_bus[OF q1, where m = "is_active ref_ops", OF quiet_is_active] c
  show "\<exists>w'. pb_compositor_active (sys_probes ref_ops ref_proc) w =
      (an_active (quiet_answers e s us ss), w') \<and> quiet e s us ss w'"
    by (simp add: sys_probes_def quiet_answers_def io_bind_def)
  from quiet_on_bus[OF q, where m = "dbus_io (c_system ref_ops)", OF quiet_connect(2)]
  show "\<exists>w'. pb_connect_system (sys_probes ref_ops ref_proc) w =
      (an_connect (quiet_answers e s us ss), w') \<and> quiet e s us ss w'"
    by (simp add: sys_probes_def quiet_answers_def connect_system_def)
  from quiet_on_bus[OF q, where m = "session_vtnr ref_ops (an_session (quiet_answers e s us ss))",
      OF quiet_session(1)]
  show "\<exists>w'. pb_session_vtnr (sys_probes ref_ops ref_proc) (an_session (quiet_answers e s us ss)) w =
      (an_vtnr (quiet_answers e s us ss), w') \<and> quiet e s us ss w'"
    by (simp add: sys_probes_def quiet_answers_def)
  from quiet_on_bus[OF q, where m = "session_remote ref_ops (an_session (quiet_answers e s us ss))",
      OF quiet_session(2)]
  show "\<exists>w'. pb_session_remote (sys_probes ref_ops ref_proc) (an_session (quiet_answers e s us ss)) w =
      (an_remote (quiet_answers e s us ss), w') \<and> quiet e s us ss w'"
    by (simp add: sys_probes_def quiet_answers_def)
  have "quiet_bus us ss (w_bus w)" using q by (simp add: quiet_def)
  from quiet_wait[OF this, of "''graphical.target''" ACTIVE_STATES "1000 * secs"]
  obtain b where "wait_for_unit ref_ops ''graphical.target'' ACTIVE_STATES (1000 * secs) (w_bus w) =
      Some (an_gst (quiet_answers e s us ss) secs, b)" "quiet_bus us ss b"
    by (auto simp: quiet_answers_def)
  with quiet_bus_world[OF q, of b]
  show "\<exists>w'. pb_graphical_target_reached (sys_probes ref_ops ref_proc) secs w =
      Some (an_gst (quiet_answers e s us ss) secs, w') \<and> quiet e s us ss w'"
    by (simp add: sys_probes_def)
qed

section \<open>The verdict\<close>

text \<open>
  C16: \<open>check may-start\<close> says yes exactly when every condition holds. While the probes answer the same
  throughout, the checks return, the verdict allows a start if and only if all the conditions that
  the options ask for are met, and unless everything is to be reported it has at most one reason.
\<close>

theorem may_start_exactly:
  assumes "probe_contract p a steady" "steady w"
  shows "\<exists>v w'. check_may_start_with shw opts p w = Some (v, w') \<and> steady w' \<and>
    (may_start v \<longleftrightarrow> list_all id (start_conditions opts a)) \<and>
    (\<not> co_verbose opts \<longrightarrow> messages v \<le> 1)"
  by (rule probe_contract.verdict_follows[OF assms])

definition tty_env :: env where
  "tty_env = [(''DBUS_SESSION_BUS_ADDRESS'', ''unix:path=/run/bus''), (''XDG_SESSION_ID'', ''1'')]"

definition tty_fs :: fs where
  "tty_fs = ref_fs\<lparr>fs_files := [(''/proc/1/cmdline'', ''-bash''), (VT_FILE, ''tty1'' @ [NL])]\<rparr>"

definition tty_world :: "sbus world" where
  "tty_world = (ref_world tty_fs (ref_bus []))\<lparr>w_env := tty_env\<rparr>"

definition tty_sessions :: "(session_info \<times> nat) list" where
  "tty_sessions =
     [(\<lparr>si_session_id = ''1'', si_uid = 1000, si_user = ''u'', si_seat = ''seat0'', si_path = ''p''\<rparr>, 1)]"

abbreviation login_world :: "sbus world" where
  "login_world \<equiv> tty_world\<lparr>w_bus := (ref_bus [])\<lparr>sb_sessions := tty_sessions\<rparr>\<rparr>"

definition tty_opts :: check_opts where
  "tty_opts = \<lparr>co_no_login = False, co_vtnr = [1], co_allow_remote = False, co_gst_seconds = 0,
     co_verbose = False\<rparr>"

lemma tty_vt: "read_fg_vt tty_fs = Inr 1"
proof -
  have "std_read tty_fs VT_FILE = Inr (''tty1'' @ [NL])" "trim (''tty1'' @ [NL]) = ''tty1''"
    "strip_prefix ''tty'' ''tty1'' = Some ''1''"
    by code_simp+
  moreover have "digits_value 10 0 ''1'' = Some 1" by code_simp
  then have "parse_u32 ''1'' = Some 1" by (simp add: parse_u32_def parse_unsigned_def)
  ultimately show ?thesis by (simp add: read_fg_vt_def)
qed

lemma tty_parent: "std_read tty_fs (proc_cmdline 1) = Inr ''-bash''"
  by code_simp

theorem may_start_exactly_witness:
  "(\<exists>v w'. check_may_start ref_ops ref_proc tty_opts login_world = Some (v, w') \<and> may_start v) \<and>
   (\<exists>v w'. check_may_start ref_ops ref_proc (tty_opts\<lparr>co_gst_seconds := 60\<rparr>) login_world = Some (v, w') \<and>
      \<not> may_start v)"
proof -
  have q: "quiet tty_env tty_fs [] tty_sessions login_world"
    by (simp add: quiet_def quiet_bus_def tty_world_def ref_world_def ref_bus_def)
  note r = may_start_exactly[OF ref_probes.probe_contract_axioms q, where shw = "show_error ref_proc"]
  have "list_all id (start_conditions tty_opts (quiet_answers tty_env tty_fs [] tty_sessions))"
    using tty_vt tty_parent
    by (simp add: start_conditions_def quiet_answers_def tty_opts_def vt_checks_def need_system_def
        up_def tty_env_def tty_sessions_def bm_get_def starts_with_def)
  moreover have "\<not> list_all id (start_conditions (tty_opts\<lparr>co_gst_seconds := 60\<rparr>)
      (quiet_answers tty_env tty_fs [] tty_sessions))"
    by (simp add: start_conditions_def quiet_answers_def state_of_def unit_up_def)
  ultimately show ?thesis
    using r[of tty_opts] r[of "tty_opts\<lparr>co_gst_seconds := 60\<rparr>"] unfolding check_may_start_def by blast
qed

end
