(* ===== verification/Start.thy ===== *)
theory Start
  imports Prepare
begin

text \<open>
  Starting a session, src/session/start.rs: the gate on the system's graphical.target, the refusal
  of a double start, the generation plan and its application, the snapshot of the login environment,
  and the replacement of the process by the session's anchor.
\<close>

datatype gst_mode = GateDisabled | GateWarn nat | GateAbort nat

record start_opts =
  st_only_generate :: bool
  st_dry_run :: bool
  st_rung :: rung
  st_gst_gate :: gst_mode
  st_tweaks :: bool
  st_bin_path :: string

text \<open>A gate's time is in seconds.\<close>

definition gate_params :: "gst_mode \<Rightarrow> (nat \<times> bool) option" where
  "gate_params gate =
     (case gate of
        GateDisabled \<Rightarrow> None
      | GateWarn t \<Rightarrow> Some (t, False)
      | GateAbort t \<Rightarrow> Some (t, True))"

definition gst_gate :: "'b bus_ops \<Rightarrow> gst_mode \<Rightarrow> ('b world, unit) run" where
  "gst_gate ops gate =
     (case gate_params gate of
        None \<Rightarrow> run_return ()
      | Some (timeout, abort) \<Rightarrow>
          run_bind (run_io (connect_system ops)) (\<lambda>_.
          run_bind (run_bus (wait_for_unit ops ''graphical.target'' ACTIVE_STATES (1000 * timeout)))
            (\<lambda>reached.
          if reached then run_return ()
          else if abort
          then run_fail (Resolve ''system has not reached graphical.target; aborting'')
          else
            run_bind
              (run_io (eprint
                (''wsmr: system has not reached graphical.target. It might be a good idea to check the '' @
                 ''default system target, or screen for this with '' @ [DQ] @ ''wsmr check may-start'' @
                 [DQ] @ ''. Continuing in 5 seconds...''))) (\<lambda>_.
            run_io (on_bus (\<lambda>b. (Inr (), t_sleep ops 5000 b)))))))"

definition refuse_if_active :: "bool \<Rightarrow> unit result" where
  "refuse_if_active already_active =
     (if already_active
      then Inl (Resolve ''a compositor or graphical session is already active'') else Inr ())"

section \<open>Reports\<close>

definition report_write :: "string list \<Rightarrow> planned_write \<Rightarrow> ('b world, unit) io" where
  "report_write reclaimed w =
     (if pw_relname w \<in> set reclaimed
      then print (''  ~ '' @ pw_relname w @ '' (reclaiming a stale foreign copy '' @ EM_DASH @
                  '' no session is active)'')
      else print (''  + '' @ pw_relname w))"

definition report_plan :: "string \<Rightarrow> generation_plan \<Rightarrow> ('b world, unit) io" where
  "report_plan dir plan =
     io_bind (print (''Dry run: units in '' @ dir)) (\<lambda>_.
     if gp_is_empty plan \<and> gp_conflicts plan = [] then print ''  (unchanged)''
     else
       io_bind (io_each (report_write (gp_reclaimed plan)) (gp_writes plan)) (\<lambda>_.
       io_bind (io_each (\<lambda>r. print (''  - '' @ pr_relname r)) (gp_removes plan)) (\<lambda>_.
       io_bind
         (io_each
           (\<lambda>c. print (''  ! '' @ cf_relname c @ '' (blocked '' @ EM_DASH @ '' '' @ cf_reason c @ '')''))
           (gp_conflicts plan)) (\<lambda>_.
       if gp_conflicts plan \<noteq> []
       then print ''  would refuse: paths above are not verifiably owned by wsmr''
       else io_when (\<not> gp_is_empty plan) (print ''  (would reload the systemd user manager)'')))))"

definition report_generated :: "string \<Rightarrow> gen_outcome \<Rightarrow> ('b world, unit) io" where
  "report_generated dir outcome =
     io_bind (print (''Generated units in '' @ dir)) (\<lambda>_.
     if go_changed outcome then
       io_bind (io_each (\<lambda>w. print (''  + '' @ w)) (go_written outcome)) (\<lambda>_.
       io_each (\<lambda>r. print (''  - '' @ r)) (go_removed outcome))
     else print ''  (unchanged)'')"

section \<open>The plan and the snapshot\<close>

definition build_dropins :: "comp_globals \<Rightarrow> string \<Rightarrow> dropin_input" where
  "build_dropins cg bin_path =
     \<lparr>di_id = cg_id cg, di_id_unit_string = cg_id_unit_string cg, di_bin_path = bin_path,
      di_bin_name = cg_bin_name cg, di_name = cg_name cg, di_description = cg_description cg,
      di_desktop_names = cg_desktop_names cg, di_cli_desktop_names = cg_cli_desktop_names cg,
      di_cli_desktop_names_exclusive = cg_cli_desktop_names_exclusive cg,
      di_cmdline = cg_cmdline cg, di_cli_args = drop 1 (cg_cmdline cg)\<rparr>"

definition start_ctx :: "start_opts \<Rightarrow> render_ctx" where
  "start_ctx opts =
     \<lparr>rc_bin_name = ''wsmr'', rc_bin_path = st_bin_path opts, rc_waitpid_bin = ''waitpid''\<rparr>"

definition start_plan :: "fs \<Rightarrow> string \<Rightarrow> comp_globals \<Rightarrow> start_opts \<Rightarrow> generation_plan result" where
  "start_plan s dir cg opts =
     plan_generate s dir (start_ctx opts) (build_dropins cg (st_bin_path opts)) (st_tweaks opts) True"

definition save_login_envs :: "('b world, unit) io" where
  "save_login_envs =
     io_bind (io_get w_env) (\<lambda>environ.
     io_bind (wpath ''env_login'') (\<lambda>p.
     io_bind (on_fs (save_env p environ Nul)) (\<lambda>_.
     io_bind (wpath ''env_session.conf'') (\<lambda>q.
     on_fs (save_env q (session_conf environ) Newline)))))"

section \<open>Running\<close>

definition start_bindpid_unit :: "'b proc_ops \<Rightarrow> ('b world, unit) io" where
  "start_bindpid_unit pr =
     io_bind (io_get (\<lambda>w. fs_pid (w_fs w))) (\<lambda>pid.
     io_bind
       (proc_io ''systemctl''
         (pr_status pr (plain_command
            [''systemctl'', ''--user'', ''start'',
             ''wayland-session-bindpid@'' @ show_nat pid @ ''.service'']))) (\<lambda>ok.
     if ok then io_return () else io_fail (Resolve ''failed to start the bindpid unit'')))"

definition become_anchor :: "'b proc_ops \<Rightarrow> helper_scripts \<Rightarrow> comp_globals \<Rightarrow> ('b world, unit) run" where
  "become_anchor pr hs cg =
     run_bind (run_io (extract_helper hs ''signal-handler.sh'')) (\<lambda>script.
     run_bind (run_io (proc_io ''dup2(1, 3)'' (pr_dup2 pr 1 3))) (\<lambda>_.
     run_bind (run_io (proc_io ''dup2(2, 4)'' (pr_dup2 pr 2 4))) (\<lambda>_.
     exec_or_fail pr ''systemd-cat''
       (plain_command
         [''systemd-cat'', ''--identifier=wsmr'', ''--stderr-priority=err'', ''--'', ''/bin/sh'', script,
          ''wayland-session-envelope@'' @ cg_id_unit_string cg @ ''.target'']))))"

definition adopting_message :: "generation_plan \<Rightarrow> string" where
  "adopting_message plan =
     ''wsmr: adopting '' @ show_nat (length (gp_reclaimed plan)) @
     '' stale unit override(s) left behind by another session (none is currently active): '' @
     join_with '', '' (gp_reclaimed plan)"

text \<open>What follows a plan without conflicts that is not a dry run.\<close>

definition carry_out ::
  "'b bus_ops \<Rightarrow> 'b proc_ops \<Rightarrow> helper_scripts \<Rightarrow> comp_globals \<Rightarrow> start_opts \<Rightarrow> string \<Rightarrow>
   generation_plan \<Rightarrow> ('b world, unit) run" where
  "carry_out ops pr hs cg opts dir plan =
     run_bind
       (run_io
         (if gp_reclaimed plan \<noteq> []
          then (\<lambda>w. (Inr (), log_notice_to_journal pr (adopting_message plan) w)) else io_return ()))
       (\<lambda>_.
     run_bind (run_io (on_fs (apply_generate dir plan))) (\<lambda>outcome.
     run_bind (run_io (io_when (go_changed outcome) (on_bus (bus_reload ops)))) (\<lambda>_.
     if st_only_generate opts then run_io (report_generated dir outcome)
     else
       run_bind (run_io (start_bindpid_unit pr)) (\<lambda>_.
       run_bind (run_io save_login_envs) (\<lambda>_. become_anchor pr hs cg)))))"

definition run_with ::
  "'b bus_ops \<Rightarrow> 'b proc_ops \<Rightarrow> helper_scripts \<Rightarrow> comp_globals \<Rightarrow> start_opts \<Rightarrow>
   ('b world, unit) run" where
  "run_with ops pr hs cg opts =
     run_bind (run_io (on_bus (is_active ops))) (\<lambda>active.
     run_bind (run_io (io_lift (refuse_if_active active))) (\<lambda>_.
     run_bind (run_io (ask_env (\<lambda>e. rung_dir e (st_rung opts)))) (\<lambda>dir.
     run_bind (run_io (ask_fs (\<lambda>s. start_plan s dir cg opts))) (\<lambda>plan.
     run_bind (run_io (io_when (st_dry_run opts) (report_plan dir plan))) (\<lambda>_.
     if gp_conflicts plan \<noteq> [] then run_fail (conflict_error dir (gp_conflicts plan))
     else if st_dry_run opts
     then run_io (print (''Dry run: would start '' @ cg_id cg @ ''.''))
     else carry_out ops pr hs cg opts dir plan)))))"

definition start_run ::
  "'b bus_ops \<Rightarrow> 'b proc_ops \<Rightarrow> helper_scripts \<Rightarrow> comp_globals \<Rightarrow> start_opts \<Rightarrow>
   ('b world, unit) run" where
  "start_run ops pr hs cg opts =
     run_bind
       (if \<not> st_only_generate opts \<and> \<not> st_dry_run opts then gst_gate ops (st_gst_gate opts)
        else run_return ()) (\<lambda>_.
     run_bind (run_io (connect_session ops)) (\<lambda>_. run_with ops pr hs cg opts))"

section \<open>Nothing is touched before the plan is accepted\<close>

lemma report_plan_looks:
  "stable (\<lambda>w. (w_fs w, w_env w, f (w_bus w))) (report_plan dir plan)"
  unfolding report_plan_def report_write_def by (intro stable_intros looks_print)

text \<open>When the plan is carried out at all: not a dry run, no session active when asked, and a plan of
  the file system as it was, without conflicts.\<close>

definition accepted :: "'b bus_ops \<Rightarrow> comp_globals \<Rightarrow> start_opts \<Rightarrow> 'b world \<Rightarrow> bool" where
  "accepted ops cg opts w \<longleftrightarrow>
     \<not> st_dry_run opts \<and>
     (\<exists>dir plan. rung_dir (w_env w) (st_rung opts) = Inr dir \<and>
        start_plan (w_fs w) dir cg opts = Inr plan \<and> gp_conflicts plan = [])"

lemma run_with_untouched:
  assumes l: "looks_only ops f" and run: "run_with ops pr hs cg opts w = Some (o', w')"
    and n: "fst (is_active ops (w_bus w)) \<noteq> Inr False \<or> \<not> accepted ops cg opts w"
  shows "(w_fs w', w_env w', f (w_bus w')) = (w_fs w, w_env w, f (w_bus w))"
    and "st_dry_run opts \<or> (\<exists>e. o' = Done (Inl e))"
proof -
  let ?F = "\<lambda>w. (w_fs w, w_env w, f (w_bus w))"
  obtain r w1 where a: "on_bus (is_active ops) w = (r, w1)" by (cases "on_bus (is_active ops) w")
  have "stable ?F (on_bus (is_active ops))"
    unfolding is_active_def is_active_for_def option.case on_bus_bind on_bus_return
    by (intro stable_intros looks_stable[OF l])
  from stableD[OF this a] have w1: "?F w1 = ?F w" .
  have r: "r = fst (is_active ops (w_bus w))"
    using a by (auto simp: on_bus_def split: prod.splits)
  have "?F w' = ?F w \<and> (st_dry_run opts \<or> (\<exists>e. o' = Done (Inl e)))"
  proof (cases "r = Inr False")
    case False
    then have "\<exists>e. o' = Done (Inl e) \<and> w' = w1"
      using run a
      by (cases r) (auto simp: run_with_def run_bind_io io_lift_def refuse_if_active_def split: if_splits)
    with w1 show ?thesis by blast
  next
    case True
    with n r have na: "\<not> accepted ops cg opts w" by simp
    show ?thesis
    proof (cases "rung_dir (w_env w) (st_rung opts)")
      case (Inl e)
      with run a True w1 show ?thesis
        by (auto simp: run_with_def run_bind_io io_lift_def refuse_if_active_def)
    next
      case dir: (Inr dir)
      show ?thesis
      proof (cases "start_plan (w_fs w) dir cg opts")
        case (Inl e)
        with run a True w1 dir show ?thesis
          by (auto simp: run_with_def run_bind_io io_lift_def refuse_if_active_def)
      next
        case plan: (Inr plan)
        obtain r2 w2 where rp: "io_when (st_dry_run opts) (report_plan dir plan) w1 = (r2, w2)"
          by (cases "io_when (st_dry_run opts) (report_plan dir plan) w1")
        have "stable ?F (io_when (st_dry_run opts) (report_plan dir plan))"
          by (intro stable_intros report_plan_looks)
        from stableD[OF this rp] w1 have w2: "?F w2 = ?F w" by simp
        have rest: "(case r2 of Inl e \<Rightarrow> Some (Done (Inl e), w2)
          | Inr _ \<Rightarrow>
             (if gp_conflicts plan \<noteq> [] then run_fail (conflict_error dir (gp_conflicts plan))
              else if st_dry_run opts
              then run_io (print (''Dry run: would start '' @ cg_id cg @ ''.''))
              else carry_out ops pr hs cg opts dir plan) w2) = Some (o', w')"
          using run a True w1 dir plan rp
          by (simp add: run_with_def run_bind_io io_lift_def refuse_if_active_def split: sum.splits)
        have "gp_conflicts plan \<noteq> [] \<or> st_dry_run opts"
          using na dir plan by (auto simp: accepted_def)
        with rest w2 show ?thesis
          by (auto simp: run_return_iff run_io_def split: sum.splits if_splits)
      qed
    qed
  qed
  then show "?F w' = ?F w" "st_dry_run opts \<or> (\<exists>e. o' = Done (Inl e))" by blast+
qed

end
