(* ===== verification/Launch.thy ===== *)
theory Launch
  imports Terminal Process
begin

text \<open>
  Resolving an application and launching it through \<open>systemd-run\<close>, src/app/launch.rs. The terminal's
  modification times and hash order are the parameters of Terminal. The lemmas say that the argument
  vector ends its options before the application's command line, and that unit names fit.
\<close>

section \<open>Options\<close>

definition DESKTOP_ENTRY_VARS :: "string list" where
  "DESKTOP_ENTRY_VARS =
     [''DESKTOP_ENTRY_ID'', ''DESKTOP_ENTRY_PATH'', ''DESKTOP_ENTRY_NAME'', ''DESKTOP_ENTRY_NAME_L'',
      ''DESKTOP_ENTRY_COMMENT'', ''DESKTOP_ENTRY_COMMENT_L'', ''DESKTOP_ENTRY_GENERICNAME'',
      ''DESKTOP_ENTRY_GENERICNAME_L'', ''DESKTOP_ENTRY_ICON'', ''DESKTOP_ENTRY_ACTION'',
      ''DESKTOP_ENTRY_ACTION_NAME'', ''DESKTOP_ENTRY_ACTION_NAME_L'', ''DESKTOP_ENTRY_ACTION_ICON'']"

datatype unit_type = Scope | Service

fun unit_type_str :: "unit_type \<Rightarrow> string" where
  "unit_type_str Scope = ''scope''"
| "unit_type_str Service = ''service''"

datatype silence = SilenceOut | SilenceErr | SilenceBoth

record app_opts =
  ao_cmdline :: "string list"
  ao_slice :: string
  ao_unit_type :: unit_type
  ao_terminal :: bool
  ao_app_name :: "string option"
  ao_unit_name :: "string option"
  ao_description :: "string option"
  ao_unit_properties :: "string list"
  ao_silent :: "silence option"

record launch_spec =
  ls_cmdline :: "string list"
  ls_slice :: string
  ls_unit_type :: unit_type
  ls_unit_name :: string
  ls_description :: string
  ls_properties :: "string list"
  ls_silent :: "silence option"
  ls_workdir :: "string option"
  ls_session_setenv :: "(string \<times> string) list"

section \<open>The argument vector\<close>

definition silent_args :: "silence option \<Rightarrow> string list" where
  "silent_args s =
     (case s of
        Some SilenceOut \<Rightarrow> [''--property=StandardOutput=null'']
      | Some SilenceErr \<Rightarrow> [''--property=StandardError=null'']
      | Some SilenceBoth \<Rightarrow> [''--property=StandardOutput=null'', ''--property=StandardError=null'']
      | None \<Rightarrow> [])"

definition type_args :: "launch_spec \<Rightarrow> string list" where
  "type_args spec =
     (case ls_unit_type spec of
        Scope \<Rightarrow> [''--scope'']
      | Service \<Rightarrow>
          [''--property=Type=exec'', ''--property=ExitType=cgroup''] @
          map (\<lambda>(k, v). ''--setenv='' @ k @ ''='' @ v) (ls_session_setenv spec) @
          silent_args (ls_silent spec))"

definition build_argv :: "launch_spec \<Rightarrow> string list" where
  "build_argv spec =
     [''systemd-run'', ''--user''] @ type_args spec @
     map (\<lambda>p. ''--property='' @ p) (ls_properties spec) @
     [''--slice='' @ ls_slice spec, ''--unit='' @ ls_unit_name spec,
      ''--description='' @ ls_description spec, ''--quiet'', ''--collect''] @
     (case ls_workdir spec of
        Some d \<Rightarrow> [''--working-directory='' @ d]
      | None \<Rightarrow> [''--same-dir'']) @
     [''--''] @ ls_cmdline spec"

section \<open>The target\<close>

record resolved =
  rs_cmdlines :: "string list list"
  rs_app_name :: "string option"
  rs_description :: "string option"
  rs_workdir :: "string option"
  rs_properties :: "string list"
  rs_want_terminal :: bool

text \<open>\<open>trim_end_matches\<close> drops the suffix as often as it occurs.\<close>

function trim_end_matches :: "string \<Rightarrow> string \<Rightarrow> string" where
  "trim_end_matches p s =
     (if p = [] then s
      else (case strip_suffix p s of None \<Rightarrow> s | Some r \<Rightarrow> trim_end_matches p r))"
  by pat_completeness auto
termination
  by (relation "measure (length \<circ> snd)") (auto simp: strip_suffix_Some_iff)

declare trim_end_matches.simps [simp del]

definition load_entry :: "fs \<Rightarrow> env \<Rightarrow> main_arg \<Rightarrow> string \<Rightarrow> desktop_entry result" where
  "load_entry s penv main entry_id =
     (case ma_path main of
        Some p \<Rightarrow> read_entry s p
      | None \<Rightarrow>
          rbind (find_entry s penv ''applications'' entry_id) (\<lambda>found.
          ok_or found (Resolve (''desktop entry not found: '' @ entry_id))))"

definition join_names :: "string \<Rightarrow> string \<Rightarrow> string option" where
  "join_names name generic =
     (let joined = join_with '' - '' (filter (\<lambda>s. s \<noteq> []) [name, generic])
      in if joined \<noteq> [] then Some joined else None)"

definition entry_description :: "env \<Rightarrow> desktop_entry \<Rightarrow> string option \<Rightarrow> string option" where
  "entry_description penv e action =
     join_names (unwrap_or (entry_get_localized penv e ''Name'' action) [])
       (unwrap_or (entry_get_localized penv e ''GenericName'' None) [])"

definition pick_var :: "env \<Rightarrow> string \<Rightarrow> string \<Rightarrow> string" where
  "pick_var penv a b = unwrap_or (opt_or_else (non_empty_var penv a) (non_empty_var penv b)) []"

definition desktop_entry_env_description :: "env \<Rightarrow> string option" where
  "desktop_entry_env_description penv =
     join_names (pick_var penv ''DESKTOP_ENTRY_NAME_L'' ''DESKTOP_ENTRY_NAME'')
       (pick_var penv ''DESKTOP_ENTRY_GENERICNAME_L'' ''DESKTOP_ENTRY_GENERICNAME'')"

definition session_specific_env :: "env \<Rightarrow> (string \<times> string) list" where
  "session_specific_env penv =
     List.map_filter (\<lambda>k. map_option (Pair k) (non_empty_var penv k)) SESSION_SPECIFIC"

definition first_desktop :: "env \<Rightarrow> string" where
  "first_desktop penv =
     unwrap_or
       (opt_filter (\<lambda>s. s \<noteq> [])
         (map_option (\<lambda>s. hd (split_on (CHR '':'') s)) (bm_get penv ''XDG_CURRENT_DESKTOP'')))
       ''wsmr''"

definition cmd_name :: "string list \<Rightarrow> string" where
  "cmd_name cmd = (case cmd of s # _ \<Rightarrow> last_component s | [] \<Rightarrow> ''app'')"

definition gen_cmdlines :: "gen_args \<Rightarrow> string list list" where
  "gen_cmdlines g = (case g of Single c \<Rightarrow> [c] | Multi cs \<Rightarrow> cs)"

text \<open>The three branches of \<open>resolve_target\<close>.\<close>

definition resolve_bare_terminal :: "app_opts \<Rightarrow> resolved" where
  "resolve_bare_terminal opts =
     \<lparr>rs_cmdlines = [[]], rs_app_name = opt_or_else (ao_app_name opts) (Some ''terminal''),
      rs_description = ao_description opts, rs_workdir = None,
      rs_properties = ao_unit_properties opts, rs_want_terminal = True\<rparr>"

definition resolve_app_entry :: "fs \<Rightarrow> env \<Rightarrow> app_opts \<Rightarrow> main_arg \<Rightarrow> string \<Rightarrow> resolved result" where
  "resolve_app_entry s penv opts main entry_id =
     rbind (load_entry s penv main entry_id) (\<lambda>entry.
     rbind (check_basic s penv entry (ma_entry_action main)) (\<lambda>_.
     rbind (entry_exec entry (ma_entry_action main)) (\<lambda>exec.
     rbind
       (gen_entry_args exec (drop 1 (ao_cmdline opts))
         \<lparr>ec_name = unwrap_or (entry_get_localized penv entry ''Name'' None) [],
          ec_icon = unwrap_or (entry_get entry ''Icon'' None) [],
          ec_filename = de_filename entry\<rparr>) (\<lambda>g.
     Inr
       \<lparr>rs_cmdlines = gen_cmdlines g,
        rs_app_name = opt_or_else (ao_app_name opts) (Some (trim_end_matches ''.desktop'' entry_id)),
        rs_description =
          opt_or_else (ao_description opts) (entry_description penv entry (ma_entry_action main)),
        rs_workdir = opt_filter (is_dir s) (entry_path entry),
        rs_properties = ao_unit_properties opts @ [''SourcePath='' @ de_filename entry],
        rs_want_terminal = ao_terminal opts \<or> entry_terminal entry\<rparr>))))"

definition resolve_executable :: "fs \<Rightarrow> env \<Rightarrow> app_opts \<Rightarrow> string \<Rightarrow> resolved result" where
  "resolve_executable s penv opts cmd =
     (if which s penv cmd = None then Inl (Resolve (''command not found: '' @ cmd))
      else Inr
        \<lparr>rs_cmdlines = [ao_cmdline opts],
         rs_app_name =
           opt_or_else (ao_app_name opts)
             (map_option (trim_end_matches ''.desktop'') (non_empty_var penv ''DESKTOP_ENTRY_ID'')),
         rs_description = opt_or_else (ao_description opts) (desktop_entry_env_description penv),
         rs_workdir = None,
         rs_properties = ao_unit_properties opts @
           (case non_empty_var penv ''DESKTOP_ENTRY_PATH'' of
              Some p \<Rightarrow> [''SourcePath='' @ p]
            | None \<Rightarrow> []),
         rs_want_terminal = ao_terminal opts\<rparr>)"

definition resolve_target :: "fs \<Rightarrow> env \<Rightarrow> app_opts \<Rightarrow> resolved result" where
  "resolve_target s penv opts =
     (case ao_cmdline opts of
        [] \<Rightarrow>
          if \<not> ao_terminal opts then Inl (InvalidArg ''no command given'')
          else Inr (resolve_bare_terminal opts)
      | cmd # _ \<Rightarrow>
          rbind (main_arg_parse penv cmd) (\<lambda>main.
          case ma_entry_id main of
            Some entry_id \<Rightarrow> resolve_app_entry s penv opts main entry_id
          | None \<Rightarrow> resolve_executable s penv opts cmd))"

section \<open>Names and slices\<close>

definition le_bytes32 :: "nat \<Rightarrow> string" where
  "le_bytes32 n = map (\<lambda>i. char_of (n div 256 ^ i mod 256)) [0..<4]"

definition random_hex8 :: "('b world, string) io" where
  "random_hex8 w =
     (let buf = (case w_urandom w (w_draws w) of
                   Some bytes \<Rightarrow> take 4 (bytes @ replicate 4 NUL)
                 | None \<Rightarrow> le_bytes32 (fs_nanos (w_fs w) (fs_calls (w_fs w)) mod 1000000000))
      in (Inr (concat (map hex2 buf)), w\<lparr>w_draws := Suc (w_draws w)\<rparr>))"

definition resolve_slice :: "string \<Rightarrow> string result" where
  "resolve_slice s =
     (if s = ''a'' then Inr ''app-graphical.slice''
      else if s = ''b'' then Inr ''background-graphical.slice''
      else if s = ''s'' then Inr ''session-graphical.slice''
      else if ends_with ''.slice'' s then Inr s
      else Inl (InvalidArg (''invalid slice: '' @ debug_str s)))"

definition resolve_unit_name ::
  "app_opts \<Rightarrow> string \<Rightarrow> string option \<Rightarrow> string list \<Rightarrow> ('b world, string) io" where
  "resolve_unit_name opts desktop app_name cmd =
     (case ao_unit_name opts of
        Some u \<Rightarrow>
          (let suffix = ''.'' @ unit_type_str (ao_unit_type opts)
           in if \<not> ends_with suffix u
              then io_fail (InvalidArg (''unit name must end with '' @ suffix))
              else if 255 < length u then io_fail (InvalidArg ''unit name too long (> 255)'')
              else io_return u)
      | None \<Rightarrow>
          io_bind random_hex8 (\<lambda>hex.
          io_return
            (auto_unit_name (unit_type_str (ao_unit_type opts)) desktop
              (unwrap_or app_name (cmd_name cmd)) hex)))"

definition final_description :: "string option \<Rightarrow> string option \<Rightarrow> string list \<Rightarrow> string" where
  "final_description desc app_name cmd = unwrap_or (opt_or_else desc app_name) (cmd_name cmd)"

section \<open>Resolving\<close>

definition in_terminal :: "string list \<Rightarrow> string list \<Rightarrow> string list \<Rightarrow> string list" where
  "in_terminal tcmd exec_arg c = tcmd @ (if c \<noteq> [] then exec_arg @ c else [])"

definition instance_name ::
  "app_opts \<Rightarrow> bool \<Rightarrow> string \<Rightarrow> string option \<Rightarrow> string list \<Rightarrow> ('b world, string) io" where
  "instance_name opts multi desktop app_name cmd =
     (if multi then
        io_bind random_hex8 (\<lambda>hex.
        io_return
          (auto_unit_name (unit_type_str (ao_unit_type opts)) desktop
            (unwrap_or app_name (cmd_name cmd)) hex))
      else resolve_unit_name opts desktop app_name cmd)"

fun launch_argvs ::
  "app_opts \<Rightarrow> resolved \<Rightarrow> bool \<Rightarrow> string \<Rightarrow> string \<Rightarrow> (string \<times> string) list \<Rightarrow> string list list \<Rightarrow>
   ('b world, string list list) io" where
  "launch_argvs opts r multi slc desktop session_setenv [] = io_return []"
| "launch_argvs opts r multi slc desktop session_setenv (cmd # cmds) =
     io_bind (instance_name opts multi desktop (rs_app_name r) cmd) (\<lambda>unit_name.
     io_bind (launch_argvs opts r multi slc desktop session_setenv cmds) (\<lambda>rest.
     io_return
       (build_argv
          \<lparr>ls_cmdline = cmd, ls_slice = slc, ls_unit_type = ao_unit_type opts,
           ls_unit_name = unit_name,
           ls_description = final_description (rs_description r) (rs_app_name r) cmd,
           ls_properties = rs_properties r, ls_silent = ao_silent opts, ls_workdir = rs_workdir r,
           ls_session_setenv = session_setenv\<rparr> # rest)))"

definition target_cmdlines ::
  "(string \<Rightarrow> nat) \<Rightarrow> (neg_cache \<Rightarrow> (string \<times> nat) list) \<Rightarrow> resolved \<Rightarrow>
   ('b world, string list list) io" where
  "target_cmdlines mt ord r =
     (if rs_want_terminal r then
        io_bind
          (\<lambda>w. on_fs
             (resolve_terminal mt ord (w_env w)
               \<lparr>to_app_id = rs_app_name r, to_title = rs_description r, to_dir = rs_workdir r,
                to_hold = False\<rparr>) w) (\<lambda>(tcmd, exec_arg).
        io_return (map (in_terminal tcmd exec_arg) (rs_cmdlines r)))
      else io_return (rs_cmdlines r))"

definition launch_resolve ::
  "(string \<Rightarrow> nat) \<Rightarrow> (neg_cache \<Rightarrow> (string \<times> nat) list) \<Rightarrow> app_opts \<Rightarrow>
   ('b world, string list list) io" where
  "launch_resolve mt ord opts =
     (case List.find (\<lambda>p. CHR ''='' \<notin> set p) (ao_unit_properties opts) of
        Some p \<Rightarrow> io_fail (InvalidArg (''expected KEY=VALUE unit property, got: '' @ debug_str p))
      | None \<Rightarrow>
          io_bind (\<lambda>w. (resolve_target (w_fs w) (w_env w) opts, w)) (\<lambda>r.
          io_bind (target_cmdlines mt ord r) (\<lambda>cmdlines.
          io_bind (io_lift (resolve_slice (ao_slice opts))) (\<lambda>slc.
          io_bind (io_get (first_desktop \<circ> w_env)) (\<lambda>desktop.
          io_bind
            (case ao_unit_type opts of
               Service \<Rightarrow> io_get (session_specific_env \<circ> w_env)
             | Scope \<Rightarrow> io_return []) (\<lambda>session_setenv.
          launch_argvs opts r (1 < length cmdlines) slc desktop session_setenv cmdlines))))))"

section \<open>Running\<close>

definition configure :: "string list \<Rightarrow> unit_type \<Rightarrow> silence option \<Rightarrow> command" where
  "configure argv ty silent =
     \<lparr>cmd_argv = argv, cmd_env = None, cmd_env_remove = DESKTOP_ENTRY_VARS,
      cmd_null_out = (ty = Scope \<and> (silent = Some SilenceOut \<or> silent = Some SilenceBoth)),
      cmd_null_err = (ty = Scope \<and> (silent = Some SilenceErr \<or> silent = Some SilenceBoth))\<rparr>"

fun spawn_all :: "'b proc_ops \<Rightarrow> app_opts \<Rightarrow> string list list \<Rightarrow> ('b world, nat list) io" where
  "spawn_all pr opts [] = io_return []"
| "spawn_all pr opts (argv # argvs) =
     io_bind (proc_io (hd argv) (pr_spawn pr (configure argv (ao_unit_type opts) (ao_silent opts))))
       (\<lambda>child.
     io_bind (spawn_all pr opts argvs) (\<lambda>children. io_return (child # children)))"

fun wait_all :: "'b proc_ops \<Rightarrow> nat list \<Rightarrow> bool \<Rightarrow> 'b world \<Rightarrow> bool \<times> 'b world" where
  "wait_all pr [] all_ok w = (all_ok, w)"
| "wait_all pr (child # children) all_ok w =
     (case pr_wait pr child w of (r, w') \<Rightarrow> wait_all pr children (all_ok \<and> r = Inr True) w')"

definition launch_run ::
  "(string \<Rightarrow> nat) \<Rightarrow> (neg_cache \<Rightarrow> (string \<times> nat) list) \<Rightarrow> 'b proc_ops \<Rightarrow> app_opts \<Rightarrow>
   ('b world, unit) run" where
  "launch_run mt ord pr opts =
     run_bind (run_io (launch_resolve mt ord opts)) (\<lambda>argvs.
     case argvs of
       [argv] \<Rightarrow>
         exec_or_fail pr (hd argv) (configure argv (ao_unit_type opts) (ao_silent opts))
     | _ \<Rightarrow>
         run_io
           (io_bind (spawn_all pr opts argvs) (\<lambda>children w.
            case wait_all pr children True w of
              (all_ok, w') \<Rightarrow>
                ((if all_ok then Inr () else Inl (Resolve ''one or more app instances failed'')), w'))))"

section \<open>What is launched\<close>

lemma random_hex8_ok:
  assumes "random_hex8 w = (Inr i, w')"
  shows "length i = 8" "w_fs w' = w_fs w"
proof -
  define buf where "buf = (case w_urandom w (w_draws w) of
                   Some bytes \<Rightarrow> take 4 (bytes @ replicate 4 NUL)
                 | None \<Rightarrow> le_bytes32 (fs_nanos (w_fs w) (fs_calls (w_fs w)) mod 1000000000))"
  from assms have i: "i = concat (map hex2 buf)" and w: "w' = w\<lparr>w_draws := Suc (w_draws w)\<rparr>"
    by (auto simp: random_hex8_def buf_def Let_def)
  have "length buf = 4" by (auto simp: buf_def le_bytes32_def split: option.split)
  moreover have "length (concat (map hex2 xs)) = 2 * length xs" for xs
    by (induction xs) (simp_all add: hex2_def)
  ultimately show "length i = 8" "w_fs w' = w_fs w" using i w by simp_all
qed

lemma ends_with_append: "ends_with p s \<Longrightarrow> ends_with p (r @ s)"
  by (auto simp: ends_with_def str_simps)

lemma ends_with_self: "ends_with p p"
  using strip_suffix_append[of p "[]"] by (simp add: ends_with_def)

lemma auto_unit_name_ends: "ends_with (''.'' @ unit_type_str ty) (auto_unit_name (unit_type_str ty) d a h)"
proof (cases ty)
  case Scope
  have "\<exists>x c. auto_unit_name ''scope'' d a h = ''app-'' @ x @ ''-'' @ c @ ''-'' @ h @ ''.scope''"
    unfolding auto_unit_name_def Let_def if_P[OF refl] by (intro exI) (rule refl)
  then obtain x c where "auto_unit_name ''scope'' d a h = ''app-'' @ x @ ''-'' @ c @ ''-'' @ h @ ''.scope''"
    by blast
  moreover have "''.'' @ unit_type_str ty = ''.scope''" "unit_type_str ty = ''scope''"
    using Scope by simp_all
  ultimately show ?thesis by (simp only: ends_with_append ends_with_self)
next
  case Service
  have n: "''service'' \<noteq> ''scope''" by simp
  have "\<exists>x c. auto_unit_name ''service'' d a h = ''app-'' @ x @ ''-'' @ c @ ''@'' @ h @ ''.service''"
    unfolding auto_unit_name_def Let_def if_not_P[OF n] by (intro exI) (rule refl)
  then obtain x c where "auto_unit_name ''service'' d a h = ''app-'' @ x @ ''-'' @ c @ ''@'' @ h @ ''.service''"
    by blast
  moreover have "''.'' @ unit_type_str ty = ''.service''" "unit_type_str ty = ''service''"
    using Service by simp_all
  ultimately show ?thesis by (simp only: ends_with_append ends_with_self)
qed

text \<open>What a launched unit is named: its type's suffix, within systemd's limit.\<close>

definition unit_ok :: "unit_type \<Rightarrow> string \<Rightarrow> bool" where
  "unit_ok ty u \<longleftrightarrow> ends_with (''.'' @ unit_type_str ty) u \<and> length u \<le> 255"

lemma auto_unit_ok:
  assumes "length h = 8"
  shows "unit_ok ty (auto_unit_name (unit_type_str ty) d a h)"
  unfolding unit_ok_def
proof (intro conjI auto_unit_name_ends auto_unit_name_bound)
  show "unit_type_str ty = ''scope'' \<or> unit_type_str ty = ''service''" by (cases ty) simp_all
qed fact

lemma resolve_unit_name_ok:
  assumes "resolve_unit_name opts d a cmd w = (Inr u, w')"
  shows "unit_ok (ao_unit_type opts) u"
proof (cases "ao_unit_name opts")
  case None
  with assms obtain h w1 where "random_hex8 w = (Inr h, w1)"
    "u = auto_unit_name (unit_type_str (ao_unit_type opts)) d (unwrap_or a (cmd_name cmd)) h"
    by (auto simp: resolve_unit_name_def io_bind_Inr_iff)
  then show ?thesis using auto_unit_ok random_hex8_ok(1) by blast
next
  case (Some v)
  with assms show ?thesis
    by (auto simp: resolve_unit_name_def unit_ok_def Let_def split: if_splits)
qed

lemma instance_name_ok:
  assumes "instance_name opts multi d a cmd w = (Inr u, w')"
  shows "unit_ok (ao_unit_type opts) u"
proof (cases multi)
  case True
  with assms obtain h w1 where "random_hex8 w = (Inr h, w1)"
    "u = auto_unit_name (unit_type_str (ao_unit_type opts)) d (unwrap_or a (cmd_name cmd)) h"
    by (auto simp: instance_name_def io_bind_Inr_iff)
  then show ?thesis using auto_unit_ok random_hex8_ok(1) by blast
next
  case False
  with assms show ?thesis using resolve_unit_name_ok by (simp add: instance_name_def)
qed

text \<open>The options before the first bare \<open>--\<close>, and what follows it.\<close>

definition argv_options :: "string list \<Rightarrow> string list" where
  "argv_options argv = takeWhile (\<lambda>a. a \<noteq> ''--'') argv"

definition argv_command :: "string list \<Rightarrow> string list" where
  "argv_command argv = drop 1 (dropWhile (\<lambda>a. a \<noteq> ''--'') argv)"

definition spec_options :: "launch_spec \<Rightarrow> string list" where
  "spec_options spec =
     [''systemd-run'', ''--user''] @ type_args spec @
     map (\<lambda>p. ''--property='' @ p) (ls_properties spec) @
     [''--slice='' @ ls_slice spec, ''--unit='' @ ls_unit_name spec,
      ''--description='' @ ls_description spec, ''--quiet'', ''--collect''] @
     (case ls_workdir spec of
        Some d \<Rightarrow> [''--working-directory='' @ d]
      | None \<Rightarrow> [''--same-dir''])"

lemma type_args_not_dashes: "''--'' \<notin> set (type_args spec)"
  by (auto simp: type_args_def silent_args_def split: unit_type.splits silence.splits option.splits)

lemma spec_options_not_dashes: "''--'' \<notin> set (spec_options spec)"
  using type_args_not_dashes[of spec] by (auto simp: spec_options_def split: option.split)

lemma build_argv_split:
  "argv_options (build_argv spec) = spec_options spec"
  "argv_command (build_argv spec) = ls_cmdline spec"
proof -
  have b: "build_argv spec = spec_options spec @ ''--'' # ls_cmdline spec"
    by (simp add: build_argv_def spec_options_def)
  have "\<forall>a\<in>set (spec_options spec). a \<noteq> ''--''" using spec_options_not_dashes by metis
  then show "argv_options (build_argv spec) = spec_options spec"
    "argv_command (build_argv spec) = ls_cmdline spec"
    unfolding b argv_options_def argv_command_def
    by (simp_all add: takeWhile_append dropWhile_append)
qed

text \<open>What every argument vector for \<open>systemd-run\<close> satisfies.\<close>

definition argv_ok :: "app_opts \<Rightarrow> string list \<Rightarrow> bool" where
  "argv_ok opts argv \<longleftrightarrow>
     take 2 argv = [''systemd-run'', ''--user''] \<and>
     (\<exists>u. ''--unit='' @ u \<in> set (argv_options argv) \<and> unit_ok (ao_unit_type opts) u) \<and>
     (\<exists>slc. ''--slice='' @ slc \<in> set (argv_options argv) \<and> ends_with ''.slice'' slc) \<and>
     (''--scope'' \<in> set (argv_options argv) \<longleftrightarrow> ao_unit_type opts = Scope) \<and>
     (\<forall>p\<in>set (ao_unit_properties opts). ''--property='' @ p \<in> set (argv_options argv))"

lemma scope_option: "''--scope'' \<in> set (spec_options spec) \<longleftrightarrow> ls_unit_type spec = Scope"
  by (auto simp: spec_options_def type_args_def silent_args_def
      split: unit_type.splits silence.splits option.splits)

lemma build_argv_ok:
  assumes "unit_ok (ls_unit_type spec) (ls_unit_name spec)" "ends_with ''.slice'' (ls_slice spec)"
    "ls_unit_type spec = ao_unit_type opts" "set (ao_unit_properties opts) \<subseteq> set (ls_properties spec)"
  shows "argv_ok opts (build_argv spec)"
proof -
  have "take 2 (build_argv spec) = [''systemd-run'', ''--user'']" by (simp add: build_argv_def)
  moreover have "''--unit='' @ ls_unit_name spec \<in> set (spec_options spec)"
    "''--slice='' @ ls_slice spec \<in> set (spec_options spec)"
    by (simp_all add: spec_options_def)
  moreover have "\<forall>p\<in>set (ao_unit_properties opts). ''--property='' @ p \<in> set (spec_options spec)"
    using assms(4) by (auto simp: spec_options_def)
  ultimately show ?thesis
    unfolding argv_ok_def build_argv_split scope_option using assms(1-3) by metis
qed

lemma resolve_slice_ok: "resolve_slice s = Inr slc \<Longrightarrow> ends_with ''.slice'' slc"
  by (auto simp: resolve_slice_def str_simps split: if_splits)

lemma launch_argvs_ok:
  assumes "ends_with ''.slice'' slc" "set (ao_unit_properties opts) \<subseteq> set (rs_properties r)"
  shows "launch_argvs opts r multi slc d env cmds w = (Inr argvs, w') \<Longrightarrow>
    map argv_command argvs = cmds \<and> (\<forall>argv\<in>set argvs. argv_ok opts argv)"
proof (induction cmds arbitrary: w w' argvs)
  case (Cons cmd cmds)
  then obtain u w1 rest w2 where u: "instance_name opts multi d (rs_app_name r) cmd w = (Inr u, w1)"
    and rest: "launch_argvs opts r multi slc d env cmds w1 = (Inr rest, w2)"
    and argvs: "argvs = build_argv
          \<lparr>ls_cmdline = cmd, ls_slice = slc, ls_unit_type = ao_unit_type opts, ls_unit_name = u,
           ls_description = final_description (rs_description r) (rs_app_name r) cmd,
           ls_properties = rs_properties r, ls_silent = ao_silent opts, ls_workdir = rs_workdir r,
           ls_session_setenv = env\<rparr> # rest"
    by (auto simp: io_bind_Inr_iff)
  from Cons.IH[OF rest] show ?case
    unfolding argvs using instance_name_ok[OF u] assms by (simp add: build_argv_split build_argv_ok)
qed simp

lemma resolve_target_properties:
  "resolve_target s penv opts = Inr r \<Longrightarrow> set (ao_unit_properties opts) \<subseteq> set (rs_properties r)"
  by (auto simp: resolve_target_def resolve_bare_terminal_def resolve_app_entry_def
      resolve_executable_def rbind_Inr_iff split: list.splits if_splits option.splits)

lemma resolve_target_cmdlines:
  assumes "resolve_target s penv opts = Inr r"
  shows "rs_cmdlines r \<noteq> [] \<and> ([] \<in> set (rs_cmdlines r) \<longrightarrow> rs_want_terminal r)"
proof -
  have g: "gen_cmdlines g \<noteq> [] \<and> [] \<notin> set (gen_cmdlines g)"
    if "gen_entry_args exec args ctx = Inr g" for exec args ctx g
    using that gen_multi_each(1)[of exec args ctx]
    by (auto simp: gen_cmdlines_def gen_entry_args_def rbind_Inr_iff instance_for_def Let_def
        split: gen_args.splits list.splits if_splits option.splits)
  show ?thesis
  proof (cases "ao_cmdline opts")
    case Nil
    with assms show ?thesis
      by (auto simp: resolve_target_def resolve_bare_terminal_def split: if_splits)
  next
    case (Cons cmd rest)
    with assms obtain main where m: "main_arg_parse penv cmd = Inr main"
      by (auto simp: resolve_target_def rbind_Inr_iff)
    show ?thesis
    proof (cases "ma_entry_id main")
      case None
      with assms Cons m show ?thesis
        by (auto simp: resolve_target_def resolve_executable_def split: if_splits)
    next
      case (Some i)
      with assms Cons m have "resolve_app_entry s penv opts main i = Inr r"
        by (simp add: resolve_target_def)
      with g show ?thesis by (auto simp: resolve_app_entry_def rbind_Inr_iff)
    qed
  qed
qed

lemma launch_resolve_ok:
  assumes "launch_resolve mt ord opts w = (Inr argvs, w')"
  shows "\<exists>r cmdlines w1. resolve_target (w_fs w) (w_env w) opts = Inr r \<and>
      target_cmdlines mt ord r w = (Inr cmdlines, w1) \<and> map argv_command argvs = cmdlines"
    "argv \<in> set argvs \<Longrightarrow> argv_ok opts argv"
proof -
  have n: "List.find (\<lambda>p. CHR ''='' \<notin> set p) (ao_unit_properties opts) = None"
    using assms by (auto simp: launch_resolve_def split: option.splits)
  with assms obtain r w0 cmdlines w1 slc w2 d w3 env w4
    where r: "resolve_target (w_fs w) (w_env w) opts = Inr r"
      and c: "target_cmdlines mt ord r w = (Inr cmdlines, w1)"
      and s: "resolve_slice (ao_slice opts) = Inr slc"
      and l: "launch_argvs opts r (1 < length cmdlines) slc d env cmdlines w4 = (Inr argvs, w')"
    by (auto simp: launch_resolve_def io_bind_Inr_iff io_lift_def)
  note ok = launch_argvs_ok[OF resolve_slice_ok[OF s] resolve_target_properties[OF r] l]
  from r c ok show "\<exists>r cmdlines w1. resolve_target (w_fs w) (w_env w) opts = Inr r \<and>
      target_cmdlines mt ord r w = (Inr cmdlines, w1) \<and> map argv_command argvs = cmdlines" by blast
  from ok show "argv \<in> set argvs \<Longrightarrow> argv_ok opts argv" by blast
qed

end
