(* ===== verification/Cli.thy ===== *)
theory Cli
  imports Launch
begin

text \<open>
  The command line's data, src/cli.rs: one record per argument struct and one datatype per
  subcommand enumeration. The parser that clap derives from these declarations, with its defaults
  and conflicts, is generated code: it is a parameter wherever arguments are parsed.
\<close>

datatype cli_rung = CliRuntime | CliHome

datatype app_unit_type = AppScope | AppService

datatype cli_silence = CliOut | CliErr | CliBoth

record start_args =
  sa_only_generate :: bool
  sa_dry_run :: bool
  sa_wm_name :: "string option"
  sa_wm_comment :: "string option"
  sa_desktop_names :: "string option"
  sa_desktop_names_append :: bool
  sa_desktop_names_exclusive :: bool
  sa_hardcode :: bool
  sa_unit_rung :: "cli_rung option"
  sa_no_tweaks :: bool
  sa_tweaks :: bool
  sa_gst_warn_seconds :: int
  sa_gst_abort_seconds :: int
  sa_wm_cmdline :: "string list"

record stop_args =
  pa_dry_run :: bool
  pa_remove :: "string option"
  pa_unit_rung :: "cli_rung option"

record finalize_args =
  fa_env_names :: "string list"

record app_args =
  aa_slice_name :: string
  aa_app_unit_type :: app_unit_type
  aa_terminal :: bool
  aa_app_name :: "string option"
  aa_unit_name :: "string option"
  aa_unit_description :: "string option"
  aa_unit_properties :: "string list"
  aa_silent :: "cli_silence option"
  aa_cmdline :: "string list"

record is_active_args =
  ia_verbose :: bool
  ia_wm :: "string option"

record may_start_args =
  ms_verbose :: bool
  ms_quiet :: bool
  ms_no_login :: bool
  ms_vtnr :: "nat list"
  ms_allow_remote :: bool
  ms_gst_seconds :: nat

datatype check_cmd = IsActive is_active_args | MayStart may_start_args

record check_args =
  ca_what :: check_cmd

record aux_id_args =
  xa_desktop_names :: "string option"
  xa_desktop_names_exclusive :: bool
  xa_wm_name :: "string option"
  xa_wm_comment :: "string option"
  xa_wm_id :: string
  xa_wm_cmdline :: "string list"

record waitpid_args =
  wp_pid :: int

record waitenv_args =
  we_env_names :: "string list"

datatype aux_action =
    PrepareEnv aux_id_args
  | CleanupEnv
  | ExecAction aux_id_args
  | Readiness aux_id_args
  | Waitpid waitpid_args
  | Waitenv waitenv_args
  | AppDaemon

record aux_args =
  ax_action :: aux_action

datatype cli_command =
    StartCmd start_args
  | StopCmd stop_args
  | FinalizeCmd finalize_args
  | AppCmd app_args
  | CheckCmd check_args
  | AuxCmd aux_args

record cli =
  cl_command :: cli_command

text \<open>\<open>impl From<AppArgs> for AppOpts\<close> of src/app/launch.rs.\<close>

fun unit_type_of :: "app_unit_type \<Rightarrow> unit_type" where
  "unit_type_of AppScope = Scope"
| "unit_type_of AppService = Service"

fun silence_of :: "cli_silence \<Rightarrow> silence" where
  "silence_of CliOut = SilenceOut"
| "silence_of CliErr = SilenceErr"
| "silence_of CliBoth = SilenceBoth"

definition app_opts_of :: "app_args \<Rightarrow> app_opts" where
  "app_opts_of a =
     \<lparr>ao_cmdline = aa_cmdline a, ao_slice = aa_slice_name a,
      ao_unit_type = unit_type_of (aa_app_unit_type a), ao_terminal = aa_terminal a,
      ao_app_name = aa_app_name a, ao_unit_name = aa_unit_name a,
      ao_description = aa_unit_description a, ao_unit_properties = aa_unit_properties a,
      ao_silent = map_option silence_of (aa_silent a)\<rparr>"

end
