(* ===== verification/Daemon.thy ===== *)
theory Daemon
  imports Cli
begin

text \<open>
  The app daemon, src/app/daemon.rs: a server on two FIFOs that turns the arguments of an
  application launch into a shell line. The FIFO calls of the operating system are the record
  \<open>fifo_ops\<close>; the parser of the command line, which clap generates, is the parameter \<open>parse_cli\<close>.
  The loop ends only with a stop request or an error, so the daemon is a partial function. A
  termination signal interrupts it from outside: \<open>ff_trap\<close> registers the handler for the three
  signals with its two paths, and what the handler does then is \<open>on_term_signal\<close>.
\<close>

section \<open>FIFOs\<close>

record 'b fifo_ops =
  ff_is_fifo :: "string \<Rightarrow> 'b world \<Rightarrow> bool"
  ff_mkfifo :: "string \<Rightarrow> 'b world \<Rightarrow> (io_error + unit) \<times> 'b world"
  ff_read :: "string \<Rightarrow> 'b world \<Rightarrow> (io_error + string) \<times> 'b world"
  ff_open_write :: "string \<Rightarrow> 'b world \<Rightarrow> (io_error + nat) \<times> 'b world"
  ff_write :: "nat \<Rightarrow> string \<Rightarrow> 'b world \<Rightarrow> (io_error + unit) \<times> 'b world"
  ff_now :: "'b world \<Rightarrow> nat"
  ff_sleep :: "nat \<Rightarrow> 'b world \<Rightarrow> 'b world"
  ff_trap :: "string option \<times> string option \<Rightarrow> 'b world \<Rightarrow> 'b world"

text \<open>\<open>EEXIST\<close> is 17 and \<open>ENXIO\<close>, no reader yet, is 6.\<close>

definition make_fifo :: "'b fifo_ops \<Rightarrow> string \<Rightarrow> ('b world, unit) io" where
  "make_fifo ff path w =
     (case ff_mkfifo ff path w of
        (Inl e, w') \<Rightarrow> if e = IoOs 17 then (Inr (), w') else (Inl (Io path e), w')
      | (Inr _, w') \<Rightarrow> (Inr (), w'))"

definition create_fifo :: "'b fifo_ops \<Rightarrow> string \<Rightarrow> ('b world, string) io" where
  "create_fifo ff name =
     io_bind (ask_env runtime_dir) (\<lambda>d.
     let path = path_join d name
     in io_bind (io_get (\<lambda>w. (path_exists (w_fs w) path, ff_is_fifo ff path w))) (\<lambda>(present, fifo).
        if present \<and> fifo then io_return path
        else
          io_bind
            (if present then on_fs (sys_io path (std_remove_file path)) else io_return ()) (\<lambda>_.
          if NUL \<in> set path then io_fail (InvalidArg ''path contains NUL'')
          else io_bind (make_fifo ff path) (\<lambda>_. io_return path))))"

definition SEND_TIMEOUT :: nat where
  "SEND_TIMEOUT = 5000"

definition SEND_POLL_INTERVAL :: nat where
  "SEND_POLL_INTERVAL = 20"

definition no_reader_error :: "string \<Rightarrow> error" where
  "no_reader_error path =
     Io path (IoOther ''timed out waiting for a reader on the app-daemon output FIFO'')"

partial_function (option) open_fifo_loop ::
  "'b fifo_ops \<Rightarrow> string \<Rightarrow> nat \<Rightarrow> nat \<Rightarrow> 'b world \<Rightarrow> (nat outcome \<times> 'b world) option" where
  "open_fifo_loop ff path start timeout w =
     (case ff_open_write ff path w of
        (Inr fd, w1) \<Rightarrow> Some (Done (Inr fd), w1)
      | (Inl e, w1) \<Rightarrow>
          if e \<noteq> IoOs 6 then Some (Done (Inl (Io path e)), w1)
          else if timeout \<le> ff_now ff w1 - start then Some (Done (Inl (no_reader_error path)), w1)
          else open_fifo_loop ff path start timeout (ff_sleep ff SEND_POLL_INTERVAL w1))"

definition open_fifo_for_write_bounded :: "'b fifo_ops \<Rightarrow> string \<Rightarrow> nat \<Rightarrow> ('b world, nat) run" where
  "open_fifo_for_write_bounded ff path timeout w =
     open_fifo_loop ff path (ff_now ff w) timeout w"

definition send :: "'b fifo_ops \<Rightarrow> string \<Rightarrow> ('b world, unit) run" where
  "send ff txt =
     run_bind (run_io (create_fifo ff ''wsmr-app-daemon-out'')) (\<lambda>out.
     run_bind (open_fifo_for_write_bounded ff out SEND_TIMEOUT) (\<lambda>fd.
     run_io (proc_io out (ff_write ff fd (txt @ [NL])))))"

text \<open>A failure to reply is reported and does not end the daemon.\<close>

definition send_reply :: "'b proc_ops \<Rightarrow> 'b fifo_ops \<Rightarrow> string \<Rightarrow> ('b world, unit) run" where
  "send_reply pr ff txt w =
     (case send ff txt w of
        Some (Done (Inl e), w1) \<Rightarrow>
          run_io (eprint (''wsmr: app daemon: failed to send reply: '' @ show_error pr e)) w1
      | r \<Rightarrow> r)"

section \<open>Requests\<close>

definition shquote :: "string \<Rightarrow> string" where
  "shquote s = shlex_join [s]"

definition reply_line :: "string list list \<Rightarrow> string" where
  "reply_line argvs =
     (case argvs of
        [argv] \<Rightarrow> ''exec '' @ shlex_join argv
      | _ \<Rightarrow> join_with '' '' (map (\<lambda>a. shlex_join a @ '' &'') argvs @ [''wait'']))"

definition handle_app ::
  "(string \<Rightarrow> nat) \<Rightarrow> (neg_cache \<Rightarrow> (string \<times> nat) list) \<Rightarrow> (string list \<Rightarrow> string + cli) \<Rightarrow>
   string list \<Rightarrow> ('b world, string) io" where
  "handle_app mt ord parse_cli args =
     (case parse_cli (''wsmr'' # args) of
        Inl e \<Rightarrow> io_fail (InvalidArg (''Invalid arguments: '' @ e))
      | Inr c \<Rightarrow>
          (case cl_command c of
             AppCmd app_args \<Rightarrow>
               io_bind (launch_resolve mt ord (app_opts_of app_args)) (\<lambda>argvs.
               io_return (reply_line argvs))
           | _ \<Rightarrow> io_fail (InvalidArg ''not an app command'')))"

definition request_args :: "string \<Rightarrow> string list" where
  "request_args l = filter (\<lambda>s. s \<noteq> []) (split_on NUL l)"

definition error_reply :: "string \<Rightarrow> nat \<Rightarrow> string" where
  "error_reply m code = ''error '' @ shquote m @ '' '' @ show_nat code"

text \<open>The answer to a request, or None for the request to stop, which gets none.\<close>

definition answer_request ::
  "(string \<Rightarrow> nat) \<Rightarrow> (neg_cache \<Rightarrow> (string \<times> nat) list) \<Rightarrow> 'b proc_ops \<Rightarrow>
   (string list \<Rightarrow> string + cli) \<Rightarrow> string list \<Rightarrow> ('b world, string option) io" where
  "answer_request mt ord pr parse_cli args =
     (case args of
        [] \<Rightarrow> io_return (Some (''error '' @ [SQ] @ ''No args given!'' @ [SQ] @ '' 2''))
      | cmd # _ \<Rightarrow>
          if cmd = ''stop'' then io_return None
          else if cmd = ''ping'' then io_return (Some ''pong'')
          else if cmd = ''app'' then
            io_bind (io_try (handle_app mt ord parse_cli args)) (\<lambda>r.
            io_return (Some
              (case r of
                 Inr out \<Rightarrow> out
               | Inl e \<Rightarrow> error_reply (''Error: '' @ show_error pr e) 1)))
          else
            io_return (Some (error_reply (''Invalid arguments: '' @ join_with '' '' args) 2)))"

definition remove_fifos :: "string \<Rightarrow> string \<Rightarrow> ('b world, unit) io" where
  "remove_fifos in_path out_path =
     io_bind (on_fs (sys_ignore (std_remove_file in_path))) (\<lambda>_.
     on_fs (sys_ignore (std_remove_file out_path)))"

text \<open>What the handler of a termination signal finds in its two pointers, which stay null for a path
  that cannot be a C string, and what it does: unlink and exit with code 0.\<close>

type_synonym signal_paths = "string option \<times> string option"

definition install_signal_handlers :: "string \<Rightarrow> string \<Rightarrow> signal_paths" where
  "install_signal_handlers in_path out_path =
     (let c_string = (\<lambda>p. if NUL \<in> set p then None else Some p)
      in (c_string in_path, c_string out_path))"

definition on_term_signal :: "signal_paths \<Rightarrow> ('b world, nat) io" where
  "on_term_signal ps =
     (let unlink = (\<lambda>p. case p of
            Some q \<Rightarrow> on_fs (sys_ignore (std_remove_file q)) | None \<Rightarrow> io_return ())
      in io_bind (unlink (fst ps)) (\<lambda>_. io_bind (unlink (snd ps)) (\<lambda>_. io_return 0)))"

definition read_request :: "'b fifo_ops \<Rightarrow> ('b world, string list \<times> string \<times> string) io" where
  "read_request ff =
     io_bind (create_fifo ff ''wsmr-app-daemon-in'') (\<lambda>in_path.
     io_bind (create_fifo ff ''wsmr-app-daemon-out'') (\<lambda>out_path.
     io_bind (proc_io in_path (ff_read ff in_path)) (\<lambda>l.
     io_return (request_args l, in_path, out_path))))"

section \<open>The loop\<close>

text \<open>One turn: Inl when the daemon ends, Inr when it goes on.\<close>

definition serve_one ::
  "(string \<Rightarrow> nat) \<Rightarrow> (neg_cache \<Rightarrow> (string \<times> nat) list) \<Rightarrow> 'b proc_ops \<Rightarrow> 'b fifo_ops \<Rightarrow>
   (string list \<Rightarrow> string + cli) \<Rightarrow> ('b world, bool) run" where
  "serve_one mt ord pr ff parse_cli =
     run_bind (run_io (read_request ff)) (\<lambda>(args, in_path, out_path).
     run_bind (run_io (answer_request mt ord pr parse_cli args)) (\<lambda>reply.
     case reply of
       None \<Rightarrow>
         run_bind (run_io (eprint ''wsmr: app daemon stopping'')) (\<lambda>_.
         run_bind (run_io (remove_fifos in_path out_path)) (\<lambda>_. run_return False))
     | Some txt \<Rightarrow> run_bind (send_reply pr ff txt) (\<lambda>_. run_return True)))"

partial_function (option) serve_loop ::
  "(string \<Rightarrow> nat) \<Rightarrow> (neg_cache \<Rightarrow> (string \<times> nat) list) \<Rightarrow> 'b proc_ops \<Rightarrow> 'b fifo_ops \<Rightarrow>
   (string list \<Rightarrow> string + cli) \<Rightarrow> 'b world \<Rightarrow> (unit outcome \<times> 'b world) option" where
  "serve_loop mt ord pr ff parse_cli w =
     (case serve_one mt ord pr ff parse_cli w of
        None \<Rightarrow> None
      | Some (o', w1) \<Rightarrow>
          (case o' of
             Replaced c \<Rightarrow> Some (Replaced c, w1)
           | Done (Inl e) \<Rightarrow> Some (Done (Inl e), w1)
           | Done (Inr go) \<Rightarrow>
               if go then serve_loop mt ord pr ff parse_cli w1 else Some (Done (Inr ()), w1)))"

definition daemon_run ::
  "(string \<Rightarrow> nat) \<Rightarrow> (neg_cache \<Rightarrow> (string \<times> nat) list) \<Rightarrow> 'b proc_ops \<Rightarrow> 'b fifo_ops \<Rightarrow>
   (string list \<Rightarrow> string + cli) \<Rightarrow> ('b world, unit) run" where
  "daemon_run mt ord pr ff parse_cli =
     run_bind (run_io (eprint ''wsmr: launching app daemon'')) (\<lambda>_.
     run_bind (run_io (create_fifo ff ''wsmr-app-daemon-in'')) (\<lambda>in_path.
     run_bind (run_io (create_fifo ff ''wsmr-app-daemon-out'')) (\<lambda>out_path.
     run_bind
       (run_io (\<lambda>w. (Inr (), ff_trap ff (install_signal_handlers in_path out_path) w))) (\<lambda>_.
     serve_loop mt ord pr ff parse_cli))))"

end
