(* ===== verification/Main_Cmd.thy ===== *)
theory Main_Cmd
  imports Start Daemon Check
begin

text \<open>
  The entry point, src/main.rs: what the arguments and the environment resolve to, and the dispatch
  to the commands. A command's run ends with the exit code where the source calls
  \<open>std::process::exit\<close>; an error that reaches \<open>main\<close> is the run's error. The parser of
  floating-point numbers, modification times and hash orders are the parameters of the theories below.
\<close>

section \<open>Settings\<close>

fun rung_of :: "cli_rung \<Rightarrow> rung" where
  "rung_of CliRuntime = Runtime"
| "rung_of CliHome = Home"

text \<open>A setting with the warning it prints, if any.\<close>

definition warn :: "string option \<Rightarrow> ('b world, unit) io" where
  "warn m = (case m of Some l \<Rightarrow> eprint l | None \<Rightarrow> io_return ())"

definition resolve_rung_with :: "cli_rung option \<Rightarrow> string option \<Rightarrow> rung \<times> string option" where
  "resolve_rung_with cli e =
     (case cli of
        Some r \<Rightarrow> (rung_of r, None)
      | None \<Rightarrow>
          (case e of
             None \<Rightarrow> (Runtime, None)
           | Some v \<Rightarrow>
               if v = ''run'' then (Runtime, None)
               else if v = ''home'' then (Home, None)
               else (Runtime,
                 Some (''wsmr: invalid UWSM_UNIT_RUNG value '' @ debug_str v @ '' ignored, using '' @
                       [DQ] @ ''run'' @ [DQ] @ ''.''))))"

definition resolve_rung :: "cli_rung option \<Rightarrow> ('b world, rung) io" where
  "resolve_rung cli =
     io_bind (io_get (\<lambda>w. resolve_rung_with cli (bm_get (w_env w) ''UWSM_UNIT_RUNG''))) (\<lambda>(r, m).
     io_bind (warn m) (\<lambda>_. io_return r))"

definition str2bool_plus :: "string \<Rightarrow> bool option" where
  "str2bool_plus s =
     (case parse_i64 s of
        Some n \<Rightarrow> Some (0 < n)
      | None \<Rightarrow>
          if lower_str s \<in> {'''', ''no'', ''false'', ''n''} then Some False
          else if lower_str s \<in> {''yes'', ''true'', ''y''} then Some True
          else None)"

definition resolve_tweaks_with ::
  "bool \<Rightarrow> bool \<Rightarrow> string option \<Rightarrow> string option \<Rightarrow> bool \<times> string list" where
  "resolve_tweaks_with no_tweaks_flag tweaks_flag t_env nt_env =
     (if tweaks_flag then (True, [])
      else if no_tweaks_flag then (False, [])
      else (case t_env of
              Some t \<Rightarrow>
                (case str2bool_plus t of
                   Some b \<Rightarrow> (b, [])
                 | None \<Rightarrow>
                     (True, [''wsmr: invalid UWSM_TWEAKS value '' @ debug_str t @ '' ignored, using true.'']))
            | None \<Rightarrow>
                (case nt_env of
                   None \<Rightarrow> (True, [])
                 | Some nt \<Rightarrow>
                     (let dep = ''wsmr: UWSM_NO_TWEAKS is deprecated and being replaced by UWSM_TWEAKS.''
                      in case str2bool_plus nt of
                           Some b \<Rightarrow> (\<not> b, [dep])
                         | None \<Rightarrow>
                             (True,
                              [dep, ''wsmr: invalid UWSM_NO_TWEAKS value '' @ debug_str nt @
                                    '' ignored, using true.''])))))"

definition resolve_tweaks :: "bool \<Rightarrow> bool \<Rightarrow> ('b world, bool) io" where
  "resolve_tweaks no_tweaks_flag tweaks_flag =
     io_bind
       (io_get (\<lambda>w. resolve_tweaks_with no_tweaks_flag tweaks_flag
          (bm_get (w_env w) ''UWSM_TWEAKS'') (bm_get (w_env w) ''UWSM_NO_TWEAKS''))) (\<lambda>(b, ms).
     io_bind (io_each eprint ms) (\<lambda>_. io_return b))"

definition resolve_gst_gate :: "int \<Rightarrow> int \<Rightarrow> gst_mode" where
  "resolve_gst_gate warn_seconds abort_seconds =
     (if 0 \<le> abort_seconds then GateAbort (nat abort_seconds)
      else if 0 \<le> warn_seconds then GateWarn (nat warn_seconds)
      else GateDisabled)"

text \<open>\<open>Path::to_str\<close> succeeds on well-formed UTF-8: no overlong forms, no surrogates, nothing above
  U+10FFFF. The message shows the path's bytes; the source escapes the ill-formed ones.\<close>

definition utf8_cont :: "char \<Rightarrow> bool" where
  "utf8_cont c \<longleftrightarrow> CHR 0x80 \<le> c \<and> c \<le> CHR 0xBF"

definition utf8_second :: "char \<Rightarrow> char \<Rightarrow> bool" where
  "utf8_second b c \<longleftrightarrow> utf8_cont c \<and>
     (b = CHR 0xE0 \<longrightarrow> CHR 0xA0 \<le> c) \<and> (b = CHR 0xED \<longrightarrow> c \<le> CHR 0x9F) \<and>
     (b = CHR 0xF0 \<longrightarrow> CHR 0x90 \<le> c) \<and> (b = CHR 0xF4 \<longrightarrow> c \<le> CHR 0x8F)"

fun utf8_valid :: "string \<Rightarrow> bool" where
  "utf8_valid [] = True"
| "utf8_valid [b] = (b < CHR 0x80)"
| "utf8_valid [b, c] =
     (if b < CHR 0x80 then utf8_valid [c]
      else CHR 0xC2 \<le> b \<and> b \<le> CHR 0xDF \<and> utf8_cont c)"
| "utf8_valid [b, c, d] =
     (if b < CHR 0x80 then utf8_valid [c, d]
      else if b \<le> CHR 0xDF then CHR 0xC2 \<le> b \<and> utf8_cont c \<and> utf8_valid [d]
      else b \<le> CHR 0xEF \<and> utf8_second b c \<and> utf8_cont d)"
| "utf8_valid (b # c # d # e # s) =
     (if b < CHR 0x80 then utf8_valid (c # d # e # s)
      else if b \<le> CHR 0xDF then CHR 0xC2 \<le> b \<and> utf8_cont c \<and> utf8_valid (d # e # s)
      else if b \<le> CHR 0xEF then utf8_second b c \<and> utf8_cont d \<and> utf8_valid (e # s)
      else b \<le> CHR 0xF4 \<and> utf8_second b c \<and> utf8_cont d \<and> utf8_cont e \<and> utf8_valid s)"

definition path_to_unit_string :: "string \<Rightarrow> string \<Rightarrow> string result" where
  "path_to_unit_string path what =
     (if utf8_valid path then Inr path
      else Inl (InvalidArg (what @
        '' is not valid UTF-8 and cannot be represented in a systemd unit file: '' @ debug_str path)))"

definition apply_hardcode :: "fs \<Rightarrow> env \<Rightarrow> bool \<Rightarrow> comp_globals \<Rightarrow> comp_globals result" where
  "apply_hardcode s penv hardcode cg =
     (if \<not> hardcode then Inr cg
      else (case cg_cmdline cg of
              [] \<Rightarrow> Inr cg
            | first # rest \<Rightarrow>
                if starts_with ''/'' first then Inr cg
                else (case which s penv first of
                        None \<Rightarrow>
                          Inl (Resolve (''-F/--hardcode was given, but '' @ debug_str first @
                                        '' was not found on PATH''))
                      | Some p \<Rightarrow>
                          rbind (path_to_unit_string p ''the resolved -F/--hardcode executable'')
                            (\<lambda>q. Inr (cg\<lparr>cg_cmdline := q # rest\<rparr>)))))"

definition split_colon_all :: "string \<Rightarrow> string list" where
  "split_colon_all s = (if s = [] then [] else split_on (CHR '':'') s)"

definition current_exe :: "'b proc_ops \<Rightarrow> ('b world, string) io" where
  "current_exe pr =
     io_bind (proc_io ''current_exe'' (\<lambda>w. (pr_self_exe pr w, w))) (\<lambda>path.
     io_lift (path_to_unit_string path (''the wsmr executable'' @ [SQ] @ ''s own path'')))"

definition current_desktop :: "env \<Rightarrow> string list" where
  "current_desktop penv = split_colon_all (unwrap_or (bm_get penv ''XDG_CURRENT_DESKTOP'') [])"

definition resolve_io :: "(env \<Rightarrow> resolve_input) \<Rightarrow> ('b world, comp_globals) io" where
  "resolve_io input w = (comp_resolve (w_fs w) (w_env w) (input (w_env w)), w)"

section \<open>The commands\<close>

definition start_input :: "start_args \<Rightarrow> env \<Rightarrow> resolve_input" where
  "start_input args penv =
     \<lparr>ri_wm_cmdline = sa_wm_cmdline args,
      ri_desktop_names = split_colon_all (unwrap_or (sa_desktop_names args) []),
      ri_desktop_names_exclusive = sa_desktop_names_exclusive args,
      ri_name = sa_wm_name args, ri_description = sa_wm_comment args,
      ri_xdg_current_desktop = current_desktop penv\<rparr>"

definition main_start_opts :: "'b proc_ops \<Rightarrow> start_args \<Rightarrow> ('b world, start_opts) io" where
  "main_start_opts pr args =
     io_bind (resolve_rung (sa_unit_rung args)) (\<lambda>r.
     io_bind (resolve_tweaks (sa_no_tweaks args) (sa_tweaks args)) (\<lambda>tweaks.
     io_bind (current_exe pr) (\<lambda>bin_path.
     io_return
       \<lparr>st_only_generate = sa_only_generate args, st_dry_run = sa_dry_run args, st_rung = r,
        st_gst_gate = resolve_gst_gate (sa_gst_warn_seconds args) (sa_gst_abort_seconds args),
        st_tweaks = tweaks, st_bin_path = bin_path\<rparr>)))"

definition main_start ::
  "'b bus_ops \<Rightarrow> 'b proc_ops \<Rightarrow> helper_scripts \<Rightarrow> start_args \<Rightarrow> ('b world, unit) run" where
  "main_start ops pr hs args =
     run_bind (run_io (resolve_io (start_input args))) (\<lambda>cg0.
     run_bind (run_io (\<lambda>w. (apply_hardcode (w_fs w) (w_env w) (sa_hardcode args) cg0, w))) (\<lambda>cg.
     run_bind (run_io (main_start_opts pr args)) (\<lambda>opts.
     run_inspect_err (start_run ops pr hs cg opts)
       (\<lambda>e. log_error_to_journal pr (''wsmr: start failed: '' @ show_error pr e)))))"

definition main_stop :: "'b bus_ops \<Rightarrow> stop_args \<Rightarrow> ('b world, unit) run" where
  "main_stop ops args =
     run_bind (run_io (resolve_rung (pa_unit_rung args))) (\<lambda>r.
     run_stop ops
       \<lparr>so_dry_run = pa_dry_run args, so_remove = pa_remove args, so_rung = r\<rparr>)"

definition main_finalize ::
  "'b bus_ops \<Rightarrow> 'b proc_ops \<Rightarrow> finalize_args \<Rightarrow> ('b world, unit) run" where
  "main_finalize ops pr args =
     run_bind (run_io (io_get (\<lambda>w. env_words (w_env w) ''UWSM_FINALIZE_VARNAMES''))) (\<lambda>vs.
     run_inspect_err (finalize ops pr (fa_env_names args @ vs))
       (\<lambda>e. notify_error ops ''wsmr: finalize failed'' (show_error pr e)))"

definition main_app ::
  "(string \<Rightarrow> nat) \<Rightarrow> (neg_cache \<Rightarrow> (string \<times> nat) list) \<Rightarrow> 'b bus_ops \<Rightarrow> 'b proc_ops \<Rightarrow>
   app_args \<Rightarrow> ('b world, unit) run" where
  "main_app mt ord ops pr args =
     run_inspect_err (launch_run mt ord pr (app_opts_of args))
       (\<lambda>e. notify_error ops ''wsmr: app launch failed'' (show_error pr e))"

definition check_is_active :: "'b bus_ops \<Rightarrow> is_active_args \<Rightarrow> ('b world, nat) io" where
  "check_is_active ops a =
     io_bind (connect_session ops) (\<lambda>_.
     io_bind (on_bus (is_active_for ops (ia_wm a))) (\<lambda>active.
     io_bind
       (io_when (ia_verbose a) (print (if active then ''active'' else ''inactive''))) (\<lambda>_.
     io_return (if active then 0 else 1))))"

definition may_start_opts :: "may_start_args \<Rightarrow> check_opts" where
  "may_start_opts a =
     \<lparr>co_no_login = ms_no_login a, co_vtnr = (if ms_vtnr a = [] then [1] else ms_vtnr a),
      co_allow_remote = ms_allow_remote a, co_gst_seconds = ms_gst_seconds a,
      co_verbose = ms_verbose a\<rparr>"

definition verdict_messages :: "bool \<Rightarrow> verdict \<Rightarrow> string list" where
  "verdict_messages verbose v =
     vd_errors v @ vd_visible v @ (if verbose then vd_silent v else [])"

definition check_may_start_cmd ::
  "'b bus_ops \<Rightarrow> 'b proc_ops \<Rightarrow> may_start_args \<Rightarrow> ('b world, nat) run" where
  "check_may_start_cmd ops pr a w =
     (case check_may_start ops pr (may_start_opts a) w of
        None \<Rightarrow> None
      | Some (v, w1) \<Rightarrow>
          if may_start v then
            run_io
              (io_bind (io_when (ms_verbose a) (print ''May start compositor.'')) (\<lambda>_. io_return 0)) w1
          else
            run_io
              (io_bind
                (io_when (\<not> ms_quiet a) (io_each eprint (verdict_messages (ms_verbose a) v))) (\<lambda>_.
               io_return 1)) w1)"

definition main_check :: "'b bus_ops \<Rightarrow> 'b proc_ops \<Rightarrow> check_args \<Rightarrow> ('b world, nat) run" where
  "main_check ops pr args =
     (case ca_what args of
        IsActive a \<Rightarrow> run_io (check_is_active ops a)
      | MayStart a \<Rightarrow> check_may_start_cmd ops pr a)"

definition aux_cmdline :: "aux_id_args \<Rightarrow> string list" where
  "aux_cmdline args =
     (case xa_wm_cmdline args of
        [] \<Rightarrow> [xa_wm_id args]
      | c # cs \<Rightarrow> (if c = [] then xa_wm_id args else c) # cs)"

definition aux_input :: "aux_id_args \<Rightarrow> env \<Rightarrow> resolve_input" where
  "aux_input args penv =
     \<lparr>ri_wm_cmdline = aux_cmdline args,
      ri_desktop_names = split_colon_all (unwrap_or (xa_desktop_names args) []),
      ri_desktop_names_exclusive = xa_desktop_names_exclusive args,
      ri_name = xa_wm_name args, ri_description = xa_wm_comment args,
      ri_xdg_current_desktop = current_desktop penv\<rparr>"

definition resolve_aux :: "aux_id_args \<Rightarrow> ('b world, comp_globals) io" where
  "resolve_aux args = resolve_io (aux_input args)"

definition aux_waitenv :: "'b bus_ops \<Rightarrow> waitenv_args \<Rightarrow> ('b world, unit) run" where
  "aux_waitenv ops a =
     run_bind (run_io (connect_session ops)) (\<lambda>_.
     run_bind (run_io (io_get w_env)) (\<lambda>penv.
     run_bus (waitenv ops
       ([''WAYLAND_DISPLAY''] @ we_env_names a @ env_words penv ''UWSM_WAIT_VARNAMES'')
       (wait_timeout penv))))"

definition main_aux ::
  "(string \<Rightarrow> nat) \<Rightarrow> (neg_cache \<Rightarrow> (string \<times> nat) list) \<Rightarrow> (string \<Rightarrow> f64_value option) \<Rightarrow> 'b bus_ops \<Rightarrow>
   'b proc_ops \<Rightarrow> 'b fifo_ops \<Rightarrow> (string list \<Rightarrow> string + cli) \<Rightarrow> helper_scripts \<Rightarrow> aux_args \<Rightarrow>
   ('b world, unit) run" where
  "main_aux mt ord parse_f64 ops pr ff parse_cli hs args =
     (case ax_action args of
        PrepareEnv a \<Rightarrow>
          run_bind (run_io (resolve_aux a)) (\<lambda>cg. run_io (prepare_env ops pr hs cg))
      | CleanupEnv \<Rightarrow> run_io (cleanup_env ops)
      | ExecAction a \<Rightarrow> run_bind (run_io (resolve_aux a)) (aux_exec pr)
      | Readiness a \<Rightarrow> run_bind (run_io (resolve_aux a)) (readiness_watch ops pr parse_f64)
      | Waitpid a \<Rightarrow> waitpid pr (wp_pid a)
      | Waitenv a \<Rightarrow> aux_waitenv ops a
      | AppDaemon \<Rightarrow> daemon_run mt ord pr ff parse_cli)"

definition exit_ok :: "('b world, unit) run \<Rightarrow> ('b world, nat) run" where
  "exit_ok m = run_bind m (\<lambda>_. run_return 0)"

definition wsmr_main ::
  "(string \<Rightarrow> nat) \<Rightarrow> (neg_cache \<Rightarrow> (string \<times> nat) list) \<Rightarrow> (string \<Rightarrow> f64_value option) \<Rightarrow> 'b bus_ops \<Rightarrow>
   'b proc_ops \<Rightarrow> 'b fifo_ops \<Rightarrow> (string list \<Rightarrow> string + cli) \<Rightarrow> helper_scripts \<Rightarrow> cli \<Rightarrow>
   ('b world, nat) run" where
  "wsmr_main mt ord parse_f64 ops pr ff parse_cli hs c =
     (case cl_command c of
        StartCmd a \<Rightarrow> exit_ok (main_start ops pr hs a)
      | StopCmd a \<Rightarrow> exit_ok (main_stop ops a)
      | FinalizeCmd a \<Rightarrow> exit_ok (main_finalize ops pr a)
      | AppCmd a \<Rightarrow> exit_ok (main_app mt ord ops pr a)
      | CheckCmd a \<Rightarrow> main_check ops pr a
      | AuxCmd a \<Rightarrow> exit_ok (main_aux mt ord parse_f64 ops pr ff parse_cli hs a))"

end
