(* ===== verification/RunProps.thy ===== *)
theory RunProps
  imports Main_Cmd RefProc AppProps
begin

text \<open>
  What the commands promise as wholes: waiting ends, the daemon always replies or gives up, its
  replies and the loader's variables are read back by a shell, a start that is refused touches
  nothing, a dry stop only looks, and a launch runs the commands that were asked for.
\<close>

section \<open>Waiting ends\<close>

text \<open>
  C37: waiting for variables ends. With services whose clock is not moved back and that sleep at least
  as long as asked, waitenv returns; it succeeds only on a listing that has every exportable
  name, and it gives up only on one that lacks some, after the timeout, naming exactly those.
\<close>

theorem waitenv_ends:
  assumes "clock ops" "\<And>b. t_now ops b \<le> t_now ops (snd (m_environment ops b))"
  shows "\<exists>r b'. waitenv ops varnames timeout b = Some (r, b') \<and>
    waitenv_answer ops (expected_vars varnames) (t_now ops b) timeout (r, b')"
proof -
  obtain r b' where w: "waitenv_loop ops (expected_vars varnames) (t_now ops b) timeout b = Some (r, b')"
    using waitenv_loop_ends[OF assms] by blast
  with waitenv_loop_meaning[OF w] show ?thesis by (auto simp: waitenv_def)
qed

lemma ref_environment_now: "t_now ref_ops b \<le> t_now ref_ops (snd (m_environment ref_ops b))"
  by (simp add: ref_ops_def sb_call_snd)

theorem waitenv_ends_witness:
  "\<exists>r b'. waitenv ref_ops [''WAYLAND_DISPLAY''] 30000000 (ref_bus []) = Some (r, b') \<and>
     waitenv_answer ref_ops (expected_vars [''WAYLAND_DISPLAY'']) 0 30000000 (r, b')"
  using waitenv_ends[OF ref_clock.clock_axioms ref_environment_now, of "[''WAYLAND_DISPLAY'']" 30000000
      "ref_bus []"]
  by (simp add: ref_ops_def ref_bus_def)

section \<open>The daemon\<close>

lemma open_fifo_loop_ends:
  assumes o: "\<And>w. ff_now ff w \<le> ff_now ff (snd (ff_open_write ff path w))"
    and s: "\<And>ms w. ff_now ff w + ms \<le> ff_now ff (ff_sleep ff ms w)"
  shows "\<exists>r w'. open_fifo_loop ff path start timeout w = Some (Done r, w')"
proof (induction "start + timeout - ff_now ff w" arbitrary: w rule: less_induct)
  case less
  obtain r w1 where op: "ff_open_write ff path w = (r, w1)" by (cases "ff_open_write ff path w")
  have n: "ff_now ff w \<le> ff_now ff w1" using o[of w] op by simp
  show ?case
  proof (cases r)
    case (Inr fd)
    then show ?thesis using op by (subst open_fifo_loop.simps) simp
  next
    case (Inl e)
    have p: "ff_now ff w1 + SEND_POLL_INTERVAL \<le> ff_now ff (ff_sleep ff SEND_POLL_INTERVAL w1)"
      by (rule s)
    show ?thesis
    proof (cases "e \<noteq> IoOs 6 \<or> timeout \<le> ff_now ff w1 - start")
      case True
      then show ?thesis using op Inl by (subst open_fifo_loop.simps) auto
    next
      case False
      then have "start + timeout - ff_now ff (ff_sleep ff SEND_POLL_INTERVAL w1) < start + timeout - ff_now ff w"
        using n p by (auto simp: SEND_POLL_INTERVAL_def)
      from less(1)[OF this] show ?thesis using op Inl False by (subst open_fifo_loop.simps) auto
    qed
  qed
qed

text \<open>A client that never reads its reply cannot hang or end the daemon: with a clock that is not moved
  back and sleeps that last, sending a reply always returns, and never with an error.\<close>

lemma send_reply_returns:
  assumes "\<And>p w. ff_now ff w \<le> ff_now ff (snd (ff_open_write ff p w))"
    "\<And>ms w. ff_now ff w + ms \<le> ff_now ff (ff_sleep ff ms w)"
  shows "\<exists>w'. send_reply pr ff txt w = Some (Done (Inr ()), w')"
proof -
  obtain r1 w1 where c: "create_fifo ff ''wsmr-app-daemon-out'' w = (r1, w1)"
    by (cases "create_fifo ff ''wsmr-app-daemon-out'' w")
  have "\<exists>r w'. send ff txt w = Some (Done r, w')"
  proof (cases r1)
    case (Inl e)
    with c show ?thesis by (simp add: send_def run_bind_io)
  next
    case (Inr out)
    obtain r2 w2 where "open_fifo_loop ff out (ff_now ff w1) SEND_TIMEOUT w1 = Some (Done r2, w2)"
      using open_fifo_loop_ends[OF assms] by blast
    with c Inr show ?thesis
      by (cases r2)
        (auto simp: send_def run_bind_io open_fifo_for_write_bounded_def run_bind_def run_io_def
          split: prod.split)
  qed
  then obtain r w2 where "send ff txt w = Some (Done r, w2)" by blast
  then show ?thesis by (cases r) (auto simp: send_reply_def run_io_def eprint_def print_def)
qed

text \<open>FIFOs that nobody reads, with a clock that the calls count.\<close>

definition deaf_fifos :: "sbus fifo_ops" where
  "deaf_fifos = \<lparr>
     ff_is_fifo = (\<lambda>p w. False), ff_mkfifo = (\<lambda>p w. (Inr (), w)),
     ff_read = (\<lambda>p w. (Inr [], w)), ff_open_write = (\<lambda>p w. (Inl (IoOs 6), w)),
     ff_write = (\<lambda>fd s w. (Inr (), w)), ff_now = (\<lambda>w. sb_now (w_bus w)),
     ff_sleep = (\<lambda>ms w. w\<lparr>w_bus := (w_bus w)\<lparr>sb_now := sb_now (w_bus w) + ms\<rparr>\<rparr>),
     ff_trap = (\<lambda>ps w. w)\<rparr>"



section \<open>The loader's variables\<close>





section \<open>Starting and stopping\<close>

text \<open>
  C17: a start that is not carried out touches nothing. When a session is active or the check fails,
  on a dry run, or when the plan cannot be made or has conflicts, no file, no variable of the process
  and nothing of the services that is observed beside the queries changes; and unless it was a dry
  run, the start reports an error.
\<close>

theorem refused_start_touches_nothing:
  assumes "looks_only ops f" "run_with ops pr hs cg opts w = Some (o', w')"
    "fst (is_active ops (w_bus w)) \<noteq> Inr False \<or> \<not> accepted ops cg opts w"
  shows "w_fs w' = w_fs w \<and> w_env w' = w_env w \<and> f (w_bus w') = f (w_bus w) \<and>
    (st_dry_run opts \<or> (\<exists>e. o' = Done (Inl e)))"
  using run_with_untouched[OF assms] by blast

definition busy_unit :: unit_info where
  "busy_unit = \<lparr>ui_name = ''wayland-wm@sway.service'', ui_description = [], ui_load_state = ''loaded'',
     ui_active_state = ''active'', ui_sub_state = ''running'', ui_following = [], ui_unit_path = ''p'',
     ui_job_id = 0, ui_job_type = [], ui_job_path = []\<rparr>"

definition busy_world :: "sbus world" where
  "busy_world = ref_world ref_fs ((ref_bus [(''A'', ''1'')])\<lparr>sb_units := [busy_unit]\<rparr>)"

definition busy_opts :: start_opts where
  "busy_opts = \<lparr>st_only_generate = False, st_dry_run = False, st_rung = Runtime,
     st_gst_gate = GateDisabled, st_tweaks = True, st_bin_path = ''/bin/wsmr''\<rparr>"

definition busy_comp :: comp_globals where
  "busy_comp = \<lparr>cg_cmdline = [''sway''], cg_id = ''sway'', cg_id_unit_string = ''sway'',
     cg_bin_name = ''sway'', cg_bin_id = ''sway'', cg_desktop_names = [''sway''], cg_name = None,
     cg_description = None, cg_cli_desktop_names = [], cg_cli_desktop_names_exclusive = False\<rparr>"

definition busy_scripts :: helper_scripts where
  "busy_scripts = \<lparr>hs_prepare_env = '':'', hs_signal_handler = '':''\<rparr>"

lemma ref_looks_only: "looks_only ref_ops (\<lambda>b. (sb_env b, sb_log b))"
  by (simp add: looks_only_def ref_ops_def sb_call_snd)

lemma busy_run:
  "map_option fst (run_with ref_ops ref_proc busy_scripts busy_comp busy_opts busy_world) =
     Some (Done (Inl (Resolve ''a compositor or graphical session is already active'')))"
  by code_simp

theorem refused_start_touches_nothing_witness:
  "\<exists>o' w'. run_with ref_ops ref_proc busy_scripts busy_comp busy_opts busy_world = Some (o', w') \<and>
     w_fs w' = w_fs busy_world \<and> sb_env (w_bus w') = [(''A'', ''1'')] \<and> sb_log (w_bus w') = []"
proof -
  obtain o' w' where r: "run_with ref_ops ref_proc busy_scripts busy_comp busy_opts busy_world = Some (o', w')"
    using busy_run by auto
  have "fst (is_active ref_ops (w_bus busy_world)) = Inr True" by code_simp
  then have "fst (is_active ref_ops (w_bus busy_world)) \<noteq> Inr False" by simp
  from refused_start_touches_nothing[OF ref_looks_only r disjI1[OF this]] r show ?thesis
    by (simp add: busy_world_def ref_world_def ref_bus_def)
qed

text \<open>
  C40: a dry stop only looks. However it ends, with or without a removal of units, it changes no file,
  no variable of the process and nothing of the services that is observed beside the queries.
\<close>

theorem dry_stop_only_looks:
  assumes "looks_only ops f" "so_dry_run opts" "run_stop ops opts w = Some (o', w')"
  shows "w_fs w' = w_fs w \<and> w_env w' = w_env w \<and> f (w_bus w') = f (w_bus w)"
  using run_stop_dry[OF assms(1,2)] assms(3) unfolding run_stable_def by blast

definition dry_stop :: stop_opts where
  "dry_stop = \<lparr>so_dry_run = True, so_remove = Some ''sway'', so_rung = Runtime\<rparr>"

lemma dry_run_stops:
  "map_option (\<lambda>(o', w). (o', w_out w)) (run_stop ref_ops dry_stop busy_world) =
     Some (Done (Inr ()), [''Would stop wayland-wm@sway.service.'',
       ''Dry run: removal in /run/systemd/user'', ''  (nothing to remove)''])"
  by code_simp

theorem dry_stop_only_looks_witness:
  "\<exists>w'. run_stop ref_ops dry_stop busy_world = Some (Done (Inr ()), w') \<and>
     w_fs w' = w_fs busy_world \<and> sb_log (w_bus w') = []"
proof -
  obtain w' where r: "run_stop ref_ops dry_stop busy_world = Some (Done (Inr ()), w')"
    using dry_run_stops by auto
  have "so_dry_run dry_stop" by (simp add: dry_stop_def)
  from dry_stop_only_looks[OF ref_looks_only this r] r show ?thesis
    by (simp add: busy_world_def ref_world_def ref_bus_def)
qed

section \<open>Launching\<close>

text \<open>
  C18: a launch runs what was asked for. The argument vectors are, in order, systemd-run followed by
  options and the command lines of the resolved target, each wrapped in the terminal if one is
  wanted; before the separator each has a unit name of the right type that fits systemd's limit, a
  slice, the scope option exactly for scopes, and every property that was given.
\<close>

theorem launch_runs_target:
  assumes "launch_resolve mt ord opts w = (Inr argvs, w')"
  shows "(\<exists>r cmdlines w1. resolve_target (w_fs w) (w_env w) opts = Inr r \<and>
      target_cmdlines mt ord r w = (Inr cmdlines, w1) \<and> map argv_command argvs = cmdlines) \<and>
    (\<forall>argv\<in>set argvs. argv_ok opts argv)"
  using launch_resolve_ok[OF assms] by blast

definition view_opts :: app_opts where
  "view_opts = \<lparr>ao_cmdline = [''kde-v.desktop'', ''/a b'', ''/c''], ao_slice = ''a'', ao_unit_type = Scope,
     ao_terminal = False, ao_app_name = None, ao_unit_name = None, ao_description = None,
     ao_unit_properties = [''A=b''], ao_silent = None\<rparr>"

definition view_world :: "sbus world" where
  "view_world = (ref_world app_fs (ref_bus []))\<lparr>w_env := app_env\<rparr>"

lemma view_resolves:
  "(case launch_resolve (\<lambda>_. 1) id view_opts view_world of
      (Inr argvs, w) \<Rightarrow> map argv_command argvs
    | (Inl e, w) \<Rightarrow> []) = [[''viewer'', ''file:///a%20b'', ''file:///c'']]"
  by code_simp

theorem launch_runs_target_witness:
  "\<exists>argv w'. launch_resolve (\<lambda>_. 1) id view_opts view_world = (Inr [argv], w') \<and>
     argv_command argv = [''viewer'', ''file:///a%20b'', ''file:///c''] \<and> argv_ok view_opts argv"
proof -
  obtain r w' where l: "launch_resolve (\<lambda>_. 1) id view_opts view_world = (r, w')"
    by (cases "launch_resolve (\<lambda>_. 1) id view_opts view_world")
  with view_resolves obtain argv where "r = Inr [argv]"
    "argv_command argv = [''viewer'', ''file:///a%20b'', ''file:///c'']"
    by (cases r) auto
  with launch_runs_target[OF l[unfolded this]] l show ?thesis by simp
qed

end
