(* ===== verification/Removal.thy ===== *)
theory Removal
  imports Stop Regen
begin

text \<open>
  What \<open>wsmr stop -r\<close> does to the unit directory: the application of a removal plan
  (\<open>apply_removal\<close> of src/units/generate.rs) and the whole command (src/session/stop.rs).
\<close>

section \<open>Applying a removal plan\<close>

lemma removable_name:
  assumes "is_removable_dropin n"
  shows "hd n \<noteq> SLASH" "\<not> is_temp (path_join dir n)" "n \<noteq> MANIFEST_NAME"
proof -
  have u: "unit_file n"
  proof (cases "is_tweak n")
    case True
    with static_unit_file show ?thesis by (auto simp: is_tweak_def list_ex_iff list_all_iff)
  next
    case False
    with assms have c: "is_compositor_dropin n" by (simp add: is_removable_dropin_def)
    then obtain a where n: "n = (a @ ''.service.d'') @ SLASH # ''50_custom.conf''"
      by (auto simp: is_compositor_dropin_def ends_with_iff)
    have "hd n = CHR ''w''" using c by (auto simp: is_compositor_dropin_def starts_with_iff)
    moreover have "last_component n = ''50_custom.conf''"
      unfolding n by (rule last_component_append) simp
    moreover have "plain_name ''50_custom.conf''" "\<not> starts_with ''.'' ''50_custom.conf''"
      "hd MANIFEST_NAME = CHR ''.''"
      by code_simp+
    ultimately show ?thesis by (auto simp: unit_file_def)
  qed
  then show "hd n \<noteq> SLASH" "n \<noteq> MANIFEST_NAME" by (simp_all add: unit_file_def)
  show "\<not> is_temp (path_join dir n)" by (rule unit_file_not_temp[OF u])
qed

lemma removal_not_manifest: "is_removable_dropin n \<Longrightarrow> path_join dir n \<noteq> manifest_path dir"
  using removable_name[of n] path_join_inj[of n MANIFEST_NAME dir]
  by (auto simp: manifest_path_def MANIFEST_NAME_def)

lemma removals_removable:
  assumes "plan_remove_all s dir marks = Inr p" "n \<in> removal_names p"
  shows "is_removable_dropin n"
  by (rule plan_remove_all_ok[OF assms(1)]) (use assms(2) in blast)

lemma apply_removal_ok:
  assumes plan: "plan_remove_all s0 dir marks = Inr p" and h: "honest s"
    and run: "apply_removal dir p s = (Inr out, s')"
  shows "\<forall>n\<in>removal_names p. file_at s' (path_join dir n) = None"
    "go_removed out = map pr_relname (rp_removes p)" "go_changed out \<longleftrightarrow> rp_removes p \<noteq> []"
    "\<not> is_temp q \<Longrightarrow> q \<notin> path_join dir ` removal_names p \<Longrightarrow> q \<noteq> manifest_path dir \<Longrightarrow>
       file_at s' q = file_at s q"
    "rp_removes p \<noteq> [] \<or> rp_skipped p \<noteq> [] \<Longrightarrow> file_at s' (manifest_path dir) =
       Some (manifest_render (forget_skipped (rp_skipped p) (forget_all (rp_removes p) (rp_manifest p))))"
proof -
  let ?m = "\<lambda>b. forget_skipped (rp_skipped p) (ba_manifest b)"
  let ?save = "\<lambda>b. if go_changed (ba_out b) \<or> rp_skipped p \<noteq> [] then manifest_save (?m b) dir
    else io_return ()"
  from run obtain b s1 u where r: "apply_removes dir (rp_removes p) (start_batch (rp_manifest p)) s = (Inr b, s1)"
    and sv: "?save b s1 = (Inr u, s')" and out: "out = ba_out b"
    by (auto simp: apply_removal_def io_bind_Inr_iff Let_def)
  have rem: "is_removable_dropin n" if "n \<in> removal_names p" for n
    by (rule removals_removable[OF plan that])
  then have t: "\<forall>r\<in>set (rp_removes p). \<not> is_temp (target dir (pr_relname r))"
    using removable_name(2) by (auto simp: removal_names_def target_def)
  note R = apply_removes_ok[OF r h t]
  have keep: "file_at s' q = file_at s1 q" if "\<not> is_temp q" "q \<noteq> manifest_path dir" for q
    using sv keepsD[OF keeps_manifest_save[OF that(2,1)]] by (auto split: if_splits)
  show "\<forall>n\<in>removal_names p. file_at s' (path_join dir n) = None"
    using R keep rem removable_name(2) removal_not_manifest
    by (auto simp: removes_done_def removal_names_def target_def)
  show "go_removed out = map pr_relname (rp_removes p)" "go_changed out \<longleftrightarrow> rp_removes p \<noteq> []"
    using R out by (auto simp: removes_done_def start_batch_def)
  show "\<not> is_temp q \<Longrightarrow> q \<notin> path_join dir ` removal_names p \<Longrightarrow> q \<noteq> manifest_path dir \<Longrightarrow>
      file_at s' q = file_at s q"
    using R keep by (auto simp: removes_done_def removal_names_def target_def image_image)
  show "rp_removes p \<noteq> [] \<or> rp_skipped p \<noteq> [] \<Longrightarrow> file_at s' (manifest_path dir) =
      Some (manifest_render (forget_skipped (rp_skipped p) (forget_all (rp_removes p) (rp_manifest p))))"
    using sv R atomic_write_dest[of dir MANIFEST_NAME _ s1 "Inr u" s']
    by (auto simp: manifest_save_def manifest_path_def removes_done_def start_batch_def)
qed

section \<open>The whole command\<close>

lemma run_bus_stable: "run_stable w_fs (run_bus m)" "run_stable w_env (run_bus m)"
  by (auto simp: run_stable_def run_bus_def split: option.splits)

lemma stop_wm_disk: "run_stable w_fs (stop_wm ops dry)" "run_stable w_env (stop_wm ops dry)"
  unfolding stop_wm_def
  by (intro run_stable_intros run_bus_stable stable_intros stable_print)+

lemma connect_disk: "stable w_fs (connect_session ops)" "stable w_env (connect_session ops)"
  unfolding connect_session_def by (intro stable_intros)+

text \<open>Before the removal starts, a stop has looked at no file and changed none.\<close>

lemma run_stop_removal:
  assumes run: "run_stop ops opts w = Some (Done (Inr ()), w')" and r: "so_remove opts = Some raw"
  obtains w1 where "w_fs w1 = w_fs w" "w_env w1 = w_env w" "remove_units ops opts raw w1 = (Inr (), w')"
proof -
  from run r obtain u wa found wb v wc where
    a: "connect_session ops w = (Inr u, wa)"
    and b: "stop_wm ops (so_dry_run opts) wa = Some (Done (Inr found), wb)"
    and c: "io_when (\<not> found) (print ''Compositor is not running.'') wb = (Inr v, wc)"
    and d: "remove_units ops opts raw wc = (Inr (), w')"
    by (auto simp: run_stop_def run_bind_Inr run_io_iff)
  have "stable w_fs (io_when (\<not> found) (print ''Compositor is not running.'' :: ('a world, unit) io))"
    "stable w_env (io_when (\<not> found) (print ''Compositor is not running.'' :: ('a world, unit) io))"
    by (intro stable_intros stable_print)+
  from stableD[OF this(1) c] stableD[OF this(2) c]
  have "w_fs wc = w_fs w" "w_env wc = w_env w"
    using stableD[OF connect_disk(1) a] stableD[OF connect_disk(2) a]
      run_stableD[OF stop_wm_disk(1) b] run_stableD[OF stop_wm_disk(2) b] by simp_all
  with d that show ?thesis by blast
qed

lemma remove_units_ok:
  assumes run: "remove_units ops opts raw w = (Inr (), w')" and nd: "\<not> so_dry_run opts"
    and dir: "rung_dir (w_env w) (so_rung opts) = Inr dir"
  obtains p out s where "plan_remove_all (w_fs w) dir (parse_marks raw) = Inr p"
    "apply_removal dir p (w_fs w) = (Inr out, s)" "w_fs w' = s"
proof -
  from run nd dir obtain p u w1 out w2 v w3 where
    p: "plan_remove_all (w_fs w) dir (parse_marks raw) = Inr p"
    and a: "io_each warn_skipped (rp_skipped p) w = (Inr u, w1)"
    and b: "on_fs (apply_removal dir p) w1 = (Inr out, w2)"
    and c: "io_each (\<lambda>r. print (''  - '' @ r)) (go_removed out) w2 = (Inr v, w3)"
    and d: "io_when (go_changed out) (on_bus (bus_reload ops)) w3 = (Inr (), w')"
    by (auto simp: remove_units_def io_bind_Inr_iff io_lift_def split: sum.splits)
  have "stable w_fs (io_each warn_skipped (rp_skipped p) :: ('a world, unit) io)"
    "stable w_fs (io_each (\<lambda>r. print (''  - '' @ r)) (go_removed out) :: ('a world, unit) io)"
    "stable w_fs (io_when (go_changed out) (on_bus (bus_reload ops)))"
    unfolding warn_skipped_def by (intro stable_intros stable_eprint stable_print)+
  from stableD[OF this(1) a] stableD[OF this(2) c] stableD[OF this(3) d] b
  have "w_fs w1 = w_fs w" "apply_removal dir p (w_fs w1) = (Inr out, w_fs w')"
    by (auto simp: on_fs_def split: prod.splits)
  with p that show ?thesis by simp
qed

text \<open>The tracked drop-ins that marks select and that still are what was written, or are gone.\<close>

definition selected_ours :: "manifest \<Rightarrow> fs \<Rightarrow> string \<Rightarrow> string list option \<Rightarrow> string set" where
  "selected_ours m s dir marks =
     {n \<in> set (manifest_tracked m). is_removable_dropin n \<and> mark_selected marks n \<and>
        (ours m s dir n \<or> on_disk s dir n = None)}"

text \<open>
  C8: \<open>wsmr stop -r\<close> removes exactly what is provably its own. When the command succeeds, every
  tracked drop-in that the marks select and that still carries what was written is gone, and every
  other file is untouched but the manifest: units of the static graph, edited drop-ins, drop-ins of
  other marks and everything foreign.
\<close>

theorem stop_removes_only_ours:
  assumes "run_stop ops opts w = Some (Done (Inr ()), w')" "\<not> so_dry_run opts"
    "so_remove opts = Some raw" "rung_dir (w_env w) (so_rung opts) = Inr dir" "honest (w_fs w)"
  shows "\<exists>m. manifest_load (w_fs w) dir = Inr m \<and>
    (\<forall>n\<in>selected_ours m (w_fs w) dir (parse_marks raw). file_at (w_fs w') (path_join dir n) = None) \<and>
    (\<forall>q. \<not> is_temp q \<longrightarrow> q \<notin> path_join dir ` selected_ours m (w_fs w) dir (parse_marks raw) \<longrightarrow>
      q \<noteq> manifest_path dir \<longrightarrow> file_at (w_fs w') q = file_at (w_fs w) q) \<and>
    (\<forall>u\<in>set GRAPH. file_at (w_fs w') (path_join dir (ut_name u)) = file_at (w_fs w) (path_join dir (ut_name u)))"
proof -
  obtain w1 where w1: "w_fs w1 = w_fs w" "w_env w1 = w_env w"
    and r: "remove_units ops opts raw w1 = (Inr (), w')"
    using run_stop_removal[OF assms(1,3)] by blast
  have "rung_dir (w_env w1) (so_rung opts) = Inr dir" using w1 assms(4) by simp
  from remove_units_ok[OF r assms(2) this] obtain p out s where
    p: "plan_remove_all (w_fs w) dir (parse_marks raw) = Inr p"
    and a: "apply_removal dir p (w_fs w) = (Inr out, w_fs w')"
    using w1 by metis
  obtain m where m: "manifest_load (w_fs w) dir = Inr m"
    and sel: "removal_names p = selected_ours m (w_fs w) dir (parse_marks raw)"
    unfolding selected_ours_def by (rule plan_remove_all_ok[OF p])
  note a = apply_removal_ok(1,4)[OF p assms(5) a]
  have "file_at (w_fs w') (path_join dir (ut_name u)) = file_at (w_fs w) (path_join dir (ut_name u))"
    if u: "u \<in> set GRAPH" for u
  proof (rule a(2))
    have f: "unit_file (ut_name u)" using u static_unit_file by (simp add: list_all_iff)
    then show "\<not> is_temp (path_join dir (ut_name u))" by (rule unit_file_not_temp)
    show "path_join dir (ut_name u) \<noteq> manifest_path dir"
      using f path_join_inj[of "ut_name u" MANIFEST_NAME dir]
      by (auto simp: unit_file_def manifest_path_def MANIFEST_NAME_def)
    show "path_join dir (ut_name u) \<notin> path_join dir ` removal_names p"
    proof
      assume "path_join dir (ut_name u) \<in> path_join dir ` removal_names p"
      then obtain n where n: "n \<in> removal_names p" "path_join dir (ut_name u) = path_join dir n" by blast
      note rn = removals_removable[OF p n(1)]
      have "ut_name u = n"
        using path_join_inj[OF _ removable_name(1)[OF rn] n(2)] f by (simp add: unit_file_def)
      with rn graph_not_removable[OF u] show False by simp
    qed
  qed
  with m a show ?thesis unfolding sel by blast
qed

text \<open>On a calm disk whose targets are writable, a removal succeeds.\<close>

lemma apply_removes_calm:
  shows "set (remove_targets dir rs) \<subseteq> T \<Longrightarrow> ready T s \<Longrightarrow> fs_faults s = (\<lambda>_. None) \<Longrightarrow>
    \<exists>b' s'. apply_removes dir rs b s = (Inr b', s') \<and> ready T s' \<and> fs_faults s' = (\<lambda>_. None)"
proof (induction rs arbitrary: b s)
  case (Cons r rs)
  let ?p = "path_join dir (pr_relname r)"
  obtain x s1 where rm: "std_remove_file ?p s = (x, s1)" by fastforce
  have rd1: "ready T s1" by (rule ready_remove_file[OF Cons.prems(2) rm])
  have f1: "fs_faults s1 = (\<lambda>_. None)" using faults_sys(6)[of ?p s] rm Cons.prems(3) by simp
  have "\<not> is_dir s ?p" using Cons.prems(1,2) by (simp add: ready_def target_def)
  then have "e = IoNotFound" if "x = Inl e" for e
    using rm that Cons.prems(3) by (auto simp: std_remove_file_def split: option.splits if_splits dest!: sys_call_Inl)
  then have ok: "remove_if_present ?p s = (Inr (), s1)"
    using rm by (cases x) (auto simp: remove_if_present_def)
  obtain y s2 where ep: "remove_empty_parent dir ?p s1 = (y, s2)" by fastforce
  have y: "y = Inr ()" and rd2: "ready T s2"
    using ep rd1 ready_remove_dir[OF rd1]
    by (auto simp: remove_empty_parent_def sys_ignore_def split: option.splits if_splits) (metis prod.collapse)
  have f2: "fs_faults s2 = (\<lambda>_. None)"
    using stableD[OF stable_remove_empty_parent ep, of fs_faults] f1 by simp
  from Cons.IH[OF _ rd2 f2] Cons.prems(1) ok ep y show ?case
    by (simp add: Let_def io_try_simp io_bind_Inr)
qed simp

lemma apply_removal_calm:
  assumes L: "layout T" and t: "target dir MANIFEST_NAME \<in> T" "target dir ` removal_names p \<subseteq> T"
    and rd: "ready T s" and f: "fs_faults s = (\<lambda>_. None)"
  shows "\<exists>out s'. apply_removal dir p s = (Inr out, s')"
proof -
  have "set (remove_targets dir (rp_removes p)) \<subseteq> T" using t(2) by (auto simp: removal_names_def)
  from apply_removes_calm[OF this rd f] obtain b s1 where
    r: "apply_removes dir (rp_removes p) (start_batch (rp_manifest p)) s = (Inr b, s1)"
    and s1: "ready T s1" "fs_faults s1 = (\<lambda>_. None)"
    by blast
  obtain s2 where "atomic_write dir MANIFEST_NAME
      (manifest_render (forget_skipped (rp_skipped p) (ba_manifest b))) s1 = (Inr (), s2)"
    using atomic_write_calm[OF L t(1) s1] by metis
  with r show ?thesis
    by (cases "go_changed (ba_out b) \<or> rp_skipped p \<noteq> []")
      (simp_all add: apply_removal_def Let_def io_bind_Inr manifest_save_def)
qed

text \<open>A directory with a drop-in of ours, one that was edited since, and a unit of the graph.\<close>

abbreviation stop_dir :: string where
  "stop_dir \<equiv> ''/run/systemd/user''"

abbreviation kept_dropin :: string where
  "kept_dropin \<equiv> ''wayland-wm@a.service.d/50_custom.conf''"

abbreviation edited_dropin :: string where
  "edited_dropin \<equiv> ''wayland-wm@b.service.d/50_custom.conf''"

definition stop_manifest :: manifest where
  "stop_manifest = \<lparr>mf_entries =
     [(''wayland-wm@.service'', fingerprint ''W''), (kept_dropin, fingerprint ''A''),
      (edited_dropin, fingerprint ''A'' + 1)]\<rparr>"

definition stop_fs :: fs where
  "stop_fs = ref_fs\<lparr>
     fs_files := [(''/run/systemd/user/.wsmr-generation'', manifest_render stop_manifest),
       (''/run/systemd/user/wayland-wm@a.service.d/50_custom.conf'', ''A''),
       (''/run/systemd/user/wayland-wm@b.service.d/50_custom.conf'', ''A''),
       (''/run/systemd/user/wayland-wm@.service'', ''W'')]\<rparr>"

definition stop_world :: "sbus world" where
  "stop_world = ref_world stop_fs (ref_bus [])"

definition stop_all :: stop_opts where
  "stop_all = \<lparr>so_dry_run = False, so_remove = Some [], so_rung = Runtime\<rparr>"

lemma stop_paths:
  "path_join stop_dir MANIFEST_NAME = ''/run/systemd/user/.wsmr-generation''"
  "path_join stop_dir kept_dropin = ''/run/systemd/user/wayland-wm@a.service.d/50_custom.conf''"
  "path_join stop_dir edited_dropin = ''/run/systemd/user/wayland-wm@b.service.d/50_custom.conf''"
  by code_simp+

lemma stop_manifest_ok: "manifest_ok stop_manifest"
proof -
  have "bs_wf [''wayland-wm@.service'', kept_dropin, edited_dropin]" by code_simp
  then have "bm_wf (mf_entries stop_manifest)" by (simp add: bm_wf_def bs_wf_def stop_manifest_def)
  then show ?thesis by (simp add: manifest_ok_def stop_manifest_def relname_ok_def)
qed

lemma stop_load: "manifest_load stop_fs stop_dir = Inr stop_manifest"
proof -
  have "std_read stop_fs ''/run/systemd/user/.wsmr-generation'' = Inr (manifest_render stop_manifest)"
    by (simp add: stop_fs_def std_read_def ref_fs_def file_at_def)
  then show ?thesis
    using manifest_parse_render[OF stop_manifest_ok] by (simp only: manifest_load_def Let_def stop_paths) simp
qed

lemma stop_tracked: "set (manifest_tracked stop_manifest) = {''wayland-wm@.service'', kept_dropin, edited_dropin}"
  by (simp add: manifest_tracked_def bm_keys_def stop_manifest_def)

lemma stop_owned: "ours stop_manifest stop_fs stop_dir kept_dropin"
  "\<not> ours stop_manifest stop_fs stop_dir edited_dropin" "on_disk stop_fs stop_dir edited_dropin = Some ''A''"
  by (simp_all add: ours_def on_disk_def stop_paths std_read_def file_at_def stop_fs_def ref_fs_def
      manifest_verify_def stop_manifest_def bm_get_def)

definition stop_files :: "string list" where
  "stop_files = map (path_join stop_dir) [MANIFEST_NAME, kept_dropin]"

lemma stop_layout: "layout (set stop_files)"
  by (rule layout_list) code_simp

lemma stop_ready: "ready (set stop_files) stop_fs"
proof -
  have a: "list_all (\<lambda>p. p \<noteq> ''/run'' \<and> p \<noteq> ''/'' \<and>
      list_all (\<lambda>q. q \<notin> set [''/run/systemd/user/.wsmr-generation'',
        ''/run/systemd/user/wayland-wm@a.service.d/50_custom.conf'',
        ''/run/systemd/user/wayland-wm@b.service.d/50_custom.conf'',
        ''/run/systemd/user/wayland-wm@.service'']) (path_ancestors p)) stop_files"
    "\<not> is_temp ''/run''" "\<not> is_temp ''/''"
    by code_simp+
  then show ?thesis
    by (auto simp: ready_def is_dir_def file_at_def stop_fs_def ref_fs_def list_all_iff map_of_eq_None_iff)
qed

lemma io_each_print:
  assumes "\<And>a w. \<exists>w'. f a w = (Inr (), w') \<and> w_fs w' = w_fs w \<and> w_bus w' = w_bus w"
  shows "\<exists>w'. io_each f xs w = (Inr (), w') \<and> w_fs w' = w_fs w \<and> w_bus w' = w_bus w"
proof (induction xs arbitrary: w)
  case (Cons a xs)
  obtain w1 where a: "f a w = (Inr (), w1)" "w_fs w1 = w_fs w" "w_bus w1 = w_bus w"
    using assms by blast
  with Cons.IH[of w1] show ?case by (simp add: io_bind_Inr)
qed simp

text \<open>The command gets through on any world like this one with quiet services.\<close>

lemma quiet_stop_runs:
  assumes p: "plan_remove_all (w_fs w) stop_dir None = Inr p"
    and a: "apply_removal stop_dir p (w_fs w) = (Inr out, s)"
    and b: "sb_faults (w_bus w) = (\<lambda>_. None)" "sb_units (w_bus w) = []"
    and e: "rung_dir (w_env w) Runtime = Inr stop_dir"
  shows "\<exists>w'. run_stop ref_ops stop_all w = Some (Done (Inr ()), w')"
proof -
  have c: "connect_session ref_ops w = (Inr (), w\<lparr>w_bus := (w_bus w)\<lparr>sb_calls := Suc (sb_calls (w_bus w))\<rparr>\<rparr>)"
    using b by (simp add: connect_session_def on_bus_def dbus_io_def ref_ops_def sb_call_def)
  let ?w1 = "w\<lparr>w_bus := (w_bus w)\<lparr>sb_calls := Suc (Suc (sb_calls (w_bus w)))\<rparr>\<rparr>"
  have s: "stop_wm ref_ops False (w\<lparr>w_bus := (w_bus w)\<lparr>sb_calls := Suc (sb_calls (w_bus w))\<rparr>\<rparr>) =
      Some (Done (Inr False), ?w1)"
    using b by (simp add: stop_wm_def run_bind_io on_bus_def list_units_by_patterns_def dbus_io_def
        ref_ops_def sb_call_def run_return_def run_io_def)
  let ?w2 = "?w1\<lparr>w_out := w_out ?w1 @ [''Compositor is not running.'']\<rparr>"
  have "\<exists>w'. io_each warn_skipped xs w = (Inr (), w') \<and> w_fs w' = w_fs w \<and> w_bus w' = w_bus w"
    for xs and w :: "sbus world"
    by (rule io_each_print) (simp add: warn_skipped_def eprint_def print_def)
  then obtain w3 where w3: "io_each warn_skipped (rp_skipped p) ?w2 = (Inr (), w3)"
    "w_fs w3 = w_fs ?w2" "w_bus w3 = w_bus ?w2" by blast
  let ?w4 = "w3\<lparr>w_fs := s\<rparr>"
  have "\<exists>w'. io_each (\<lambda>r. print (''  - '' @ r)) xs w = (Inr (), w') \<and> w_fs w' = w_fs w \<and> w_bus w' = w_bus w"
    for xs and w :: "sbus world"
    by (rule io_each_print) (simp add: print_def)
  then obtain w5 where w5: "io_each (\<lambda>r. print (''  - '' @ r)) (go_removed out) ?w4 = (Inr (), w5)"
    "w_bus w5 = w_bus ?w4" by blast
  have "\<exists>w6. io_when (go_changed out) (on_bus (bus_reload ref_ops)) w5 = (Inr (), w6)"
    using b w5(2) w3(3)
    by (cases "go_changed out") (simp_all add: io_when_def on_bus_def bus_reload_def dbus_io_def ref_ops_def sb_call_def)
  then obtain w6 where w6: "io_when (go_changed out) (on_bus (bus_reload ref_ops)) w5 = (Inr (), w6)" by blast
  have "parse_marks [] = None" by code_simp
  with p e have "remove_units ref_ops stop_all [] ?w2 = (Inr (), w6)"
    using w3 a w5(1) w6
    by (simp add: remove_units_def stop_all_def io_bind_ask_env io_bind_ask_fs io_bind_Inr on_fs_def)
  with c s show ?thesis
    by (simp add: run_stop_def run_bind_io stop_all_def run_bind_def run_io_def io_when_def)
qed

lemma filter_three: "R b \<Longrightarrow> \<not> R a \<Longrightarrow> \<not> R c \<Longrightarrow> {n \<in> {a, b, c}. R n} = {b}"
  by auto

theorem stop_removes_only_ours_witness:
  "\<exists>w'. run_stop ref_ops stop_all stop_world = Some (Done (Inr ()), w') \<and>
     file_at (w_fs w') (path_join stop_dir kept_dropin) = None \<and>
     file_at (w_fs w') (path_join stop_dir edited_dropin) = Some ''A''"
proof -
  have fs: "w_fs stop_world = stop_fs" by (simp add: stop_world_def ref_world_def)
  have "fs_rfail stop_fs = (\<lambda>_. None)" by (simp add: stop_fs_def ref_fs_def)
  from plan_removals_total[OF this] have "\<exists>p. plan_remove_all stop_fs stop_dir None = Inr p"
    by (simp add: plan_remove_all_def stop_load)
  then obtain p where p: "plan_remove_all stop_fs stop_dir None = Inr p" by blast
  have n: "is_removable_dropin kept_dropin" "\<not> is_removable_dropin ''wayland-wm@.service''"
    "\<not> is_temp (path_join stop_dir edited_dropin)" "parse_marks [] = None"
    "path_join stop_dir edited_dropin \<noteq> path_join stop_dir kept_dropin"
    "path_join stop_dir edited_dropin \<noteq> manifest_path stop_dir"
    by code_simp+
  have sel: "selected_ours stop_manifest stop_fs stop_dir None = {kept_dropin}"
    unfolding selected_ours_def stop_tracked
    by (rule filter_three) (use n(1,2) stop_owned in \<open>simp_all only: mark_selected_def option.case, simp_all\<close>)
  have names: "removal_names p = {kept_dropin}"
    by (rule plan_remove_all_ok[OF p]) (use stop_load sel[unfolded selected_ours_def] in simp)
  have t: "target stop_dir MANIFEST_NAME \<in> set stop_files" "target stop_dir ` removal_names p \<subseteq> set stop_files"
    unfolding names by (simp_all add: stop_files_def target_def)
  have f: "fs_faults stop_fs = (\<lambda>_. None)" by (simp add: stop_fs_def ref_fs_def)
  obtain out s where a: "apply_removal stop_dir p stop_fs = (Inr out, s)"
    using apply_removal_calm[OF stop_layout t stop_ready f] by (elim exE)
  have "rung_dir [(''XDG_RUNTIME_DIR'', ''/run'')] Runtime = Inr stop_dir" by code_simp
  then have e: "rung_dir (w_env stop_world) Runtime = Inr stop_dir"
    by (simp add: stop_world_def ref_world_def)
  obtain w' where r: "run_stop ref_ops stop_all stop_world = Some (Done (Inr ()), w')"
    using quiet_stop_runs[of stop_world p out s] p a e
    by (auto simp: fs) (auto simp: stop_world_def ref_world_def ref_bus_def)
  have "honest stop_fs" by (simp add: honest_def stop_fs_def ref_fs_def)
  then have h: "honest (w_fs stop_world)" by (simp only: fs)
  have o: "\<not> so_dry_run stop_all" "so_remove stop_all = Some []" "rung_dir (w_env stop_world) (so_rung stop_all) = Inr stop_dir"
    using e by (simp_all add: stop_all_def)
  have "file_at stop_fs (path_join stop_dir edited_dropin) = Some ''A''"
    by (simp add: stop_paths stop_fs_def file_at_def)
  moreover have "\<forall>k\<in>{kept_dropin}. file_at (w_fs w') (path_join stop_dir k) = None"
    "\<forall>q. \<not> is_temp q \<longrightarrow> q \<notin> path_join stop_dir ` {kept_dropin} \<longrightarrow> q \<noteq> manifest_path stop_dir \<longrightarrow>
      file_at (w_fs w') q = file_at stop_fs q"
    using stop_removes_only_ours[OF r o h, unfolded fs stop_load n(4)] sel by simp_all
  ultimately show ?thesis using r n(3,5,6) by simp
qed

end
