(* ===== verification/Serving.thy ===== *)
theory Serving
  imports RunProps
begin

text \<open>
  The application daemon as a server (src/app/daemon.rs): each request is answered and followed by the
  next, whatever it asks for, and the loop ends for two reasons only.
\<close>

section \<open>One request\<close>





section \<open>The loop\<close>









declare open_fifo_loop.simps [code]




end
