(* ===== verification/Handover.thy ===== *)
theory Handover
  imports Start Regen RefProc
begin

text \<open>
  What \<open>wsmr start\<close> hands over when the process becomes the session's anchor (src/session/start.rs):
  the units on disk (theories Plan, Generate and Regen), the login environment that \<open>aux prepare-env\<close>
  takes up (src/session/prepare.rs), and the helper script the anchor runs (src/session/helpers.rs).
\<close>

section \<open>Steps that leave some files alone\<close>

text \<open>\<open>kept P\<close>: the files of \<open>P\<close>, what can be read, the schedule of faults and the process environment.\<close>

definition kept :: "string set \<Rightarrow> 'b world \<Rightarrow> 'b world \<Rightarrow> bool" where
  "kept P w w' \<longleftrightarrow>
     (\<forall>p\<in>P. file_at (w_fs w') p = file_at (w_fs w) p) \<and> fs_rfail (w_fs w') = fs_rfail (w_fs w) \<and>
     fs_faults (w_fs w') = fs_faults (w_fs w) \<and> w_env w' = w_env w"

text \<open>The programs that a start runs (systemd-cat, systemctl) do not touch the files of \<open>P\<close>.\<close>

definition spares :: "string set \<Rightarrow> 'b proc_ops \<Rightarrow> bool" where
  "spares P pr \<longleftrightarrow>
     (\<forall>c w. kept P w (snd (pr_spawn pr c w))) \<and> (\<forall>n s w. kept P w (pr_feed pr n s w)) \<and>
     (\<forall>n w. kept P w (snd (pr_wait pr n w))) \<and> (\<forall>c w. kept P w (snd (pr_status pr c w))) \<and>
     (\<forall>a b w. kept P w (snd (pr_dup2 pr a b w))) \<and> (\<forall>c w. kept P w (snd (pr_exec pr c w)))"

lemma kept_refl [simp]: "kept P w w"
  by (simp add: kept_def)

lemma kept_trans [trans]: "kept P w w1 \<Longrightarrow> kept P w1 w2 \<Longrightarrow> kept P w w2"
  by (simp add: kept_def)

lemma keptD: "kept P w w' \<Longrightarrow> p \<in> P \<Longrightarrow> file_at (w_fs w') p = file_at (w_fs w) p"
  by (simp add: kept_def)

lemma kept_mono: "kept P w w' \<Longrightarrow> Q \<subseteq> P \<Longrightarrow> kept Q w w'"
  by (auto simp: kept_def)

lemma kept_bus: "on_bus m w = (r, w') \<Longrightarrow> kept P w w'"
  by (auto simp: on_bus_iff kept_def)

lemma proc_io_snd: "proc_io n m w = (r, w') \<Longrightarrow> w' = snd (m w)"
  by (auto simp: proc_io_def split: prod.splits sum.splits)

lemma spares_steps:
  assumes "spares P pr"
  shows "pr_spawn pr c w = (r1, w1) \<Longrightarrow> kept P w w1" "kept P w (pr_feed pr n s w)"
    "pr_wait pr n w = (r2, w1) \<Longrightarrow> kept P w w1" "pr_status pr c w = (r2, w1) \<Longrightarrow> kept P w w1"
    "pr_dup2 pr a b w = (r3, w1) \<Longrightarrow> kept P w w1" "pr_exec pr c w = (r4, w1) \<Longrightarrow> kept P w w1"
  using assms unfolding spares_def by (metis snd_conv)+

lemma log_kept:
  assumes "spares P pr"
  shows "kept P w (log_notice_to_journal pr msg w)"
proof -
  let ?c = "plain_command [''systemd-cat'', ''--identifier=wsmr'', ''--priority=notice'']"
  obtain r w1 where s: "pr_spawn pr ?c w = (r, w1)" by fastforce
  note k = spares_steps(1)[OF assms s]
  show ?thesis
  proof (cases r)
    case (Inl e)
    with s k show ?thesis by (simp add: log_notice_to_journal_def log_to_journal_def)
  next
    case (Inr child)
    let ?w2 = "pr_feed pr child (msg @ [NL]) w1"
    obtain r3 w3 where v: "pr_wait pr child ?w2 = (r3, w3)" by fastforce
    have "kept P w ?w2" by (rule kept_trans[OF k spares_steps(2)[OF assms]])
    also have "kept P ?w2 w3" by (rule spares_steps(3)[OF assms v])
    finally show ?thesis using s v Inr by (simp add: log_notice_to_journal_def log_to_journal_def)
  qed
qed

lemma bindpid_kept:
  assumes "spares P pr" "start_bindpid_unit pr w = (Inr u, w')"
  shows "kept P w w'"
  using assms
  by (auto simp: start_bindpid_unit_def io_bind_Inr_iff io_get_def spares_def dest!: proc_io_snd split: if_splits)

section \<open>The login environment\<close>

lemma faults_std_write: "fs_faults (snd (std_write p c s)) = fs_faults s"
proof -
  obtain r s1 where c: "std_create p s = (r, s1)" by fastforce
  then have "fs_faults s1 = fs_faults s" using faults_sys(2)[of p s] by simp
  with c show ?thesis by (cases r) (simp_all add: std_write_def)
qed

lemma save_kept:
  assumes n: "plain_name n" and D: "session_dir (w_env w) = Inr D"
    and run: "on_fs (save_env (path_join D n) e sep) w = (Inr u, w')"
    and P: "\<forall>p\<in>P. \<not> is_temp p \<and> path_file_name p \<noteq> Some n"
  shows "kept P w w'" "file_at (w_fs w') (path_join D n) = Some (serialize_env e sep)"
proof -
  note d = session_dirD[OF D]
  from run obtain s where a: "atomic_write D n (serialize_env e sep) (w_fs w) = (Inr u, s)"
    and w': "w' = w\<lparr>w_fs := s\<rparr>"
    by (auto simp: on_fs_iff save_env_def atomic_write_path_join[OF n d(1,2)] disk_store_def)
  have "file_at s p = file_at (w_fs w) p" if p: "p \<in> P" for p
  proof -
    have "p \<noteq> path_join D n" "\<not> is_temp p" using P p path_file_name_join[OF n] by auto
    from keepsD[OF keeps_atomic_write[OF this] a] show ?thesis .
  qed
  with stableD[OF rfail_atomic_write a] stableD[OF faults_atomic_write a]
  show "kept P w w'" by (simp add: kept_def w')
  show "file_at (w_fs w') (path_join D n) = Some (serialize_env e sep)"
    using atomic_write_dest[OF a] by (simp add: w')
qed

lemma session_names:
  "plain_name ''env_login''" "plain_name ''env_session.conf''" "plain_name ''signal-handler.sh''"
  "\<not> starts_with ''.'' ''env_login''" "\<not> starts_with ''.'' ''signal-handler.sh''"
  by code_simp+

lemma save_login_ok:
  assumes D: "session_dir (w_env w) = Inr D" and run: "save_login_envs w = (Inr u, w')"
    and P: "\<forall>p\<in>P. \<not> is_temp p \<and> path_file_name p \<notin> {Some ''env_login'', Some ''env_session.conf''}"
  shows "kept P w w'" "file_at (w_fs w') (path_join D ''env_login'') = Some (serialize_env (w_env w) Nul)"
proof -
  note d = session_dirD[OF D]
  let ?L = "path_join D ''env_login''"
  from run obtain u1 w1 where a: "on_fs (save_env ?L (w_env w) Nul) w = (Inr u1, w1)"
    and b: "on_fs (save_env (path_join D ''env_session.conf'') (session_conf (w_env w)) Newline) w1 = (Inr u, w')"
  proof -
    from run obtain u1 w1 q where a: "on_fs (save_env ?L (w_env w) Nul) w = (Inr u1, w1)"
      and q: "runtime_path (w_env w1) ''env_session.conf'' = Inr q"
      and b: "on_fs (save_env q (session_conf (w_env w)) Newline) w1 = (Inr u, w')"
      by (auto simp: save_login_envs_def io_bind_Inr_iff io_get_def wpath_def d(3))
    have "w_env w1 = w_env w" by (rule stableD[OF stable_env_on_fs a])
    with q have "q = path_join D ''env_session.conf''" by (simp add: d(3))
    with a b that show thesis by simp
  qed
  have k1: "kept P w w1" and l: "file_at (w_fs w1) ?L = Some (serialize_env (w_env w) Nul)"
    using save_kept[OF session_names(1) D a] P by blast+
  have D1: "session_dir (w_env w1) = Inr D" using D k1 by (simp add: kept_def)
  have f: "path_file_name ?L = Some ''env_login''" "\<not> is_temp ?L"
    using path_file_name_join[OF session_names(1)] session_names(4) by (simp_all add: is_temp_def)
  have "kept (insert ?L P) w1 w'"
    by (rule save_kept[OF session_names(2) D1 b]) (use P f in auto)
  with k1 l show "kept P w w'" "file_at (w_fs w') ?L = Some (serialize_env (w_env w) Nul)"
    by (auto simp: kept_def)
qed

section \<open>The helper script and the anchor\<close>

definition script_path :: "string \<Rightarrow> string" where
  "script_path D = path_join (path_join D ''libexec'') ''signal-handler.sh''"

definition anchor_command :: "string \<Rightarrow> comp_globals \<Rightarrow> command" where
  "anchor_command script cg =
     plain_command [''systemd-cat'', ''--identifier=wsmr'', ''--stderr-priority=err'', ''--'', ''/bin/sh'', script,
       ''wayland-session-envelope@'' @ cg_id_unit_string cg @ ''.target'']"

lemma kept_sys:
  assumes "on_fs (sys_io p m) w = (Inr u, w')"
    "\<And>q s. q \<in> P \<Longrightarrow> file_at (snd (m s)) q = file_at s q" "\<And>s. fs_rfail (snd (m s)) = fs_rfail s"
    "\<And>s. fs_faults (snd (m s)) = fs_faults s"
  shows "kept P w w'" "\<exists>v. m (w_fs w) = (Inr v, w_fs w')"
proof -
  from assms(1) obtain v s where m: "m (w_fs w) = (Inr v, s)" and w': "w' = w\<lparr>w_fs := s\<rparr>"
    by (auto simp: on_fs_iff sys_io_def split: prod.splits sum.splits)
  then show "\<exists>v. m (w_fs w) = (Inr v, w_fs w')" by simp
  have "s = snd (m (w_fs w))" using m by simp
  with assms(2-4) show "kept P w w'" by (simp add: kept_def w')
qed

lemma rfail_std_write: "fs_rfail (snd (std_write p c s)) = fs_rfail s"
proof -
  obtain r s1 where c: "std_create p s = (r, s1)" by fastforce
  then have "fs_rfail s1 = fs_rfail s" using rfail_sys(2)[of p s] by simp
  with c show ?thesis by (cases r) (simp_all add: std_write_def)
qed

lemma faults_set_mode: "fs_faults (snd (std_set_mode p n s)) = fs_faults s"
  by (simp add: std_set_mode_def sys_call_def Let_def split: option.split prod.split)

lemma std_write_content: "std_write p c s = (Inr u, s') \<Longrightarrow> file_at s' p = Some c"
  by (auto simp: std_write_def dest: file_at_write_all_ok split: prod.splits sum.splits)

lemma extract_ok:
  assumes D: "session_dir (w_env w) = Inr D"
    and run: "extract_helper hs ''signal-handler.sh'' w = (Inr script, w')"
    and P: "\<forall>p\<in>P. path_file_name p \<noteq> Some ''signal-handler.sh''"
  shows "script = script_path D" "kept P w w'" "file_at (w_fs w') (script_path D) = Some (hs_signal_handler hs)"
proof -
  let ?d = "path_join D ''libexec''"
  let ?s = "script_path D"
  from D obtain rt where rt: "runtime_dir (w_env w) = Inr rt" "D = path_join rt ''wsmr''"
    by (auto simp: session_dir_def rbind_Inr_iff BIN_NAME_def)
  from run rt obtain u1 w1 u2 w2 u3 where
    a: "on_fs (sys_io ?d (std_create_dir_all ?d)) w = (Inr u1, w1)"
    and b: "on_fs (sys_io ?s (std_write ?s (hs_signal_handler hs))) w1 = (Inr u2, w2)"
    and c: "on_fs (sys_io ?s (std_set_mode ?s 493)) w2 = (Inr u3, w')"
    and s: "script = ?s"
    by (auto simp: extract_helper_def io_bind_Inr_iff io_lift_def helper_body_def Let_def set_executable_def
        script_path_def io_return_def)
  show "script = ?s" by (rule s)
  have n: "?s \<notin> P" using P path_file_name_join[OF session_names(3)] by (auto simp: script_path_def)
  have k1: "kept P w w1" by (rule kept_sys(1)[OF a]) simp_all
  have k2: "kept P w1 w2"
    by (rule kept_sys(1)[OF b])
      (use n in \<open>auto intro!: file_at_std_write simp: rfail_std_write faults_std_write\<close>)
  have k3: "kept Q w2 w'" for Q by (rule kept_sys(1)[OF c]) (simp_all add: faults_set_mode)
  from k1 k2 k3 show "kept P w w'" by (metis kept_trans)
  have "\<exists>v. std_write ?s (hs_signal_handler hs) (w_fs w1) = (Inr v, w_fs w2)"
    by (rule kept_sys(2)[OF b, where P = "{}"]) (simp_all add: rfail_std_write faults_std_write)
  then have "file_at (w_fs w2) ?s = Some (hs_signal_handler hs)" using std_write_content by blast
  with k3[of "{?s}"] show "file_at (w_fs w') ?s = Some (hs_signal_handler hs)" by (simp add: kept_def)
qed

lemma run_bind_io_Replaced:
  "run_bind (run_io m) f w = Some (Replaced c, w') \<longleftrightarrow>
     (\<exists>x w1. m w = (Inr x, w1) \<and> f x w1 = Some (Replaced c, w'))"
  by (auto simp: run_bind_Replaced run_io_iff)

lemma anchor_ok:
  assumes D: "session_dir (w_env w) = Inr D" and run: "become_anchor pr hs cg w = Some (Replaced c, w')"
    and P: "\<forall>p\<in>P. path_file_name p \<noteq> Some ''signal-handler.sh''"
    and pr: "spares (insert (script_path D) P) pr"
  shows "c = anchor_command (script_path D) cg" "kept P w w'"
    "file_at (w_fs w') (script_path D) = Some (hs_signal_handler hs)"
proof -
  from run obtain script w1 u2 w2 u3 w3 where
    a: "extract_helper hs ''signal-handler.sh'' w = (Inr script, w1)"
    and b: "proc_io ''dup2(1, 3)'' (pr_dup2 pr 1 3) w1 = (Inr u2, w2)"
    and c: "proc_io ''dup2(2, 4)'' (pr_dup2 pr 2 4) w2 = (Inr u3, w3)"
    and d: "exec_or_fail pr ''systemd-cat'' (anchor_command script cg) w3 = Some (Replaced c :: unit outcome, w')"
    unfolding become_anchor_def run_bind_io_Replaced anchor_command_def by blast
  note e = extract_ok[OF D a P]
  let ?Q = "insert (script_path D) P"
  have "kept ?Q w1 w2" "kept ?Q w2 w3"
    using proc_io_snd[OF b] proc_io_snd[OF c] pr by (simp_all add: spares_def)
  then have k: "kept ?Q w1 w3" by (rule kept_trans)
  have x: "c = anchor_command script cg" "pr_exec pr (anchor_command script cg) w3 = (None, w')"
    using d by (auto simp: exec_or_fail_def split: prod.splits option.splits)
  have "kept ?Q w1 w'" by (rule kept_trans[OF k spares_steps(6)[OF pr x(2)]])
  with e x show "c = anchor_command (script_path D) cg" "kept P w w'"
    "file_at (w_fs w') (script_path D) = Some (hs_signal_handler hs)"
    by (auto simp: kept_def)
qed

section \<open>The units\<close>

lemma settled_generation:
  assumes plan: "plan_generate s0 dir ctx d tw rc = Inr p" and run: "apply_generate dir p s = (Inr out, s')"
    and h: "honest s" and x: "(r, Some b) \<in> set (wanted_files ctx d tw)"
    and same: "file_at s (path_join dir r) = file_at s0 (path_join dir r)"
  shows "file_at s' (path_join dir r) = Some b"
proof (cases "r \<in> set (touched p)")
  case True
  note l = plan_layout[OF plan]
  from touched_as_wanted[OF plan x] True have "\<lparr>pw_relname = r, pw_content = b\<rparr> \<in> set (gp_writes p)" by simp
  with apply_generate_ok[OF l(1-3) h run] show ?thesis by (auto simp: all_new_def target_def)
next
  case False
  note l = plan_layout[OF plan]
  have set: "settled s0 dir p r (Some b)"
    by (rule plan_generate_ok[OF plan]) (use x in \<open>auto simp: wanted_files_def\<close>)
  have "gp_conflicts p = []" using apply_generate_ok[OF l(1-3) h run] by simp
  with set False have "on_disk s0 dir r = Some b" by (force simp: settled_def touched_def)
  then have "file_at s0 (path_join dir r) = Some b"
    by (auto simp: on_disk_def std_read_def split: option.splits sum.splits)
  with untouched_same[OF plan run h x] False same show ?thesis by simp
qed

section \<open>The whole start\<close>

definition start_wanted :: "start_opts \<Rightarrow> comp_globals \<Rightarrow> (string \<times> string option) list" where
  "start_wanted opts cg =
     wanted_files (start_ctx opts) (build_dropins cg (st_bin_path opts)) (st_tweaks opts)"

text \<open>The files a start is about: its units, the login environment and the helper script.\<close>

definition start_files :: "string \<Rightarrow> string \<Rightarrow> comp_globals \<Rightarrow> start_opts \<Rightarrow> string set" where
  "start_files dir D cg opts =
     insert (script_path D)
       (insert (path_join D ''env_login'') (path_join dir ` fst ` set (start_wanted opts cg)))"

lemma run_with_Replaced:
  assumes "run_with ops pr hs cg opts w = Some (Replaced c, w')" "rung_dir (w_env w) (st_rung opts) = Inr dir"
  obtains w1 plan where "fst (is_active ops (w_bus w)) = Inr False" "w_fs w1 = w_fs w" "w_env w1 = w_env w"
    "start_plan (w_fs w) dir cg opts = Inr plan" "gp_conflicts plan = []" "\<not> st_dry_run opts"
    "carry_out ops pr hs cg opts dir plan w1 = Some (Replaced c, w')"
proof -
  obtain r w1 where a: "on_bus (is_active ops) w = (r, w1)" by fastforce
  then have w1: "w_fs w1 = w_fs w" "w_env w1 = w_env w" "r = fst (is_active ops (w_bus w))"
    by (auto simp: on_bus_iff)
  let ?go = "\<lambda>plan. if gp_conflicts plan \<noteq> [] then run_fail (conflict_error dir (gp_conflicts plan))
    else if st_dry_run opts then run_io (print (''Dry run: would start '' @ cg_id cg @ ''.''))
    else carry_out ops pr hs cg opts dir plan"
  from assms(1) obtain act wa u wb dir' wc plan wd where "on_bus (is_active ops) w = (Inr act, wa)"
    and act: "io_lift (refuse_if_active act) wa = (Inr u, wb)"
    and dir: "ask_env (\<lambda>e. rung_dir e (st_rung opts)) wb = (Inr dir', wc)"
    and plan: "ask_fs (\<lambda>s. start_plan s dir' cg opts) wc = (Inr plan, wd)"
    and go: "run_bind (run_io (io_when (st_dry_run opts) (report_plan dir' plan)))
      (\<lambda>_. if gp_conflicts plan \<noteq> [] then run_fail (conflict_error dir' (gp_conflicts plan))
           else if st_dry_run opts then run_io (print (''Dry run: would start '' @ cg_id cg @ ''.''))
           else carry_out ops pr hs cg opts dir' plan) wd = Some (Replaced c, w')"
    unfolding run_with_def run_bind_io_Replaced by blast
  with a act w1 have p: "r = Inr False" "wa = w1" "wb = w1"
    by (auto simp: io_lift_def refuse_if_active_def split: if_splits)
  with dir assms(2) w1 have "dir' = dir" "wc = w1" by auto
  with plan go w1 have p2: "start_plan (w_fs w) dir cg opts = Inr plan"
    and rest: "run_bind (run_io (io_when (st_dry_run opts) (report_plan dir plan))) (\<lambda>_. ?go plan) w1 = Some (Replaced c, w')"
    by auto
  from rest have "gp_conflicts plan = []" "\<not> st_dry_run opts"
    by (auto simp: run_bind_io_Replaced run_fail_def run_io_iff split: if_splits)
  moreover from this rest have "carry_out ops pr hs cg opts dir plan w1 = Some (Replaced c, w')"
    by (auto simp: run_bind_io_Replaced io_return_def io_when_def)
  ultimately show ?thesis using that w1 p(1) p2 by metis
qed

lemma carry_out_Replaced:
  assumes pr: "spares P pr" and run: "carry_out ops pr hs cg opts dir plan w = Some (Replaced c, w')"
  obtains w1 out s w2 u w3 where "kept P w w1" "apply_generate dir plan (w_fs w1) = (Inr out, s)"
    "\<not> st_only_generate opts" "kept P (w1\<lparr>w_fs := s\<rparr>) w2" "save_login_envs w2 = (Inr u, w3)"
    "become_anchor pr hs cg w3 = Some (Replaced c, w')"
proof -
  from run obtain u w1 out wa v wb where
    a: "(if gp_reclaimed plan \<noteq> []
         then (\<lambda>w. (Inr (), log_notice_to_journal pr (adopting_message plan) w)) else io_return ()) w = (Inr u, w1)"
    and b: "on_fs (apply_generate dir plan) w1 = (Inr out, wa)"
    and c: "io_when (go_changed out) (on_bus (bus_reload ops)) wa = (Inr v, wb)"
    and rest: "(if st_only_generate opts then run_io (report_generated dir out)
      else run_bind (run_io (start_bindpid_unit pr))
        (\<lambda>_. run_bind (run_io save_login_envs) (\<lambda>_. become_anchor pr hs cg))) wb = Some (Replaced c, w')"
    unfolding carry_out_def run_bind_io_Replaced by blast
  have og: "\<not> st_only_generate opts" using rest by (auto simp: run_io_iff)
  with rest obtain x wc y wd where d: "start_bindpid_unit pr wb = (Inr x, wc)"
    "save_login_envs wc = (Inr y, wd)" "become_anchor pr hs cg wd = Some (Replaced c, w')"
    by (auto simp: run_bind_io_Replaced)
  have "kept P w w1" using a log_kept[OF pr] by (auto split: if_splits)
  moreover obtain s where s: "apply_generate dir plan (w_fs w1) = (Inr out, s)" "wa = w1\<lparr>w_fs := s\<rparr>"
    using b by (auto simp: on_fs_iff)
  moreover have "kept P wa wb" using c by (auto simp: io_when_def intro: kept_bus split: if_splits)
  then have "kept P wa wc" by (rule kept_trans[OF _ bindpid_kept[OF pr d(1)]])
  ultimately show ?thesis using that og d(2,3) by blast
qed

lemma unit_names_distinct: "list_all (\<lambda>n. last_component n \<notin> {''env_login'', ''env_session.conf'', ''signal-handler.sh''})
    (map ut_name (GRAPH @ TWEAKS))"
  by code_simp

lemma wanted_last:
  assumes "x \<in> set (wanted_files ctx d tw)"
  shows "last_component (fst x) \<notin> {''env_login'', ''env_session.conf'', ''signal-handler.sh''}"
proof -
  have "last_component (preloader_name d) = ''50_custom.conf''" "last_component (service_name d) = ''50_custom.conf''"
    using last_component_append[of "''50_custom.conf''" "''wayland-wm-env@'' @ di_id_unit_string d @ ''.service.d''"]
      last_component_append[of "''50_custom.conf''" "''wayland-wm@'' @ di_id_unit_string d @ ''.service.d''"]
    by (simp_all add: preloader_name_def service_name_def)
  with unit_names_distinct assms show ?thesis
    by (auto simp: wanted_files_def wanted_dropins_def list_all_iff)
qed

text \<open>
  C4: a start hands over a complete session. When \<open>wsmr start\<close> ends by replacing its process, no
  session was active, the plan was accepted, every unit of the graph and every wanted drop-in is on
  disk with its rendered content, the login environment is what the preloader takes up, and the
  command is the anchor's on the helper script, which is on disk.
\<close>

theorem start_hands_over:
  assumes "run_with ops pr hs cg opts w = Some (Replaced c, w')" "rung_dir (w_env w) (st_rung opts) = Inr dir"
    "session_dir (w_env w) = Inr D" "spares (start_files dir D cg opts) pr" "honest (w_fs w)"
    "bm_wf (w_env w)" "nul_free (w_env w)" "fs_rfail (w_fs w) (path_join D ''env_login'') = None"
  shows "fst (is_active ops (w_bus w)) = Inr False \<and> accepted ops cg opts w \<and> \<not> st_only_generate opts \<and>
    (\<forall>u\<in>set GRAPH. file_at (w_fs w') (path_join dir (ut_name u)) = Some (render (ut_body u) (start_ctx opts))) \<and>
    (\<forall>(r, wanted)\<in>set (wanted_dropins (start_ctx opts) (build_dropins cg (st_bin_path opts)) (st_tweaks opts)).
      wanted \<noteq> None \<longrightarrow> file_at (w_fs w') (path_join dir r) = wanted) \<and>
    fst (take_login_env w') = Inr (filter_map (w_env w)) \<and>
    c = anchor_command (script_path D) cg \<and>
    file_at (w_fs w') (script_path D) = Some (hs_signal_handler hs)"
proof -
  let ?L = "path_join D ''env_login''"
  let ?U = "path_join dir ` fst ` set (start_wanted opts cg)"
  have F: "start_files dir D cg opts = insert (script_path D) (insert ?L ?U)" by (simp add: start_files_def)
  obtain w1 plan where act: "fst (is_active ops (w_bus w)) = Inr False"
    and e1: "w_fs w1 = w_fs w" "w_env w1 = w_env w"
    and plan: "start_plan (w_fs w) dir cg opts = Inr plan" and ok: "gp_conflicts plan = []" "\<not> st_dry_run opts"
    and co: "carry_out ops pr hs cg opts dir plan w1 = Some (Replaced c, w')"
    by (rule run_with_Replaced[OF assms(1,2)])
  obtain w2 out s w3 u w4 where k2: "kept (start_files dir D cg opts) w1 w2"
    and g: "apply_generate dir plan (w_fs w2) = (Inr out, s)" and og: "\<not> st_only_generate opts"
    and k3: "kept (start_files dir D cg opts) (w2\<lparr>w_fs := s\<rparr>) w3" and sv: "save_login_envs w3 = (Inr u, w4)"
    and an: "become_anchor pr hs cg w4 = Some (Replaced c, w')"
    by (rule carry_out_Replaced[OF assms(4) co])
  have unit: "\<not> is_temp p \<and> path_file_name p \<notin> {Some ''env_login'', Some ''env_session.conf'', Some ''signal-handler.sh''}"
    if "p \<in> ?U" for p
  proof -
    from that obtain x where x: "x \<in> set (start_wanted opts cg)" "p = path_join dir (fst x)" by blast
    note x(1)[unfolded start_wanted_def]
    note uf = wanted_unit_file[OF this] and l = wanted_last[OF this]
    show ?thesis using l unit_file_not_temp[OF uf] unit_file_name[OF uf] by (simp add: x(2))
  qed
  have env: "w_env w3 = w_env w" using k2 k3 e1 by (simp add: kept_def)
  with assms(3) have D3: "session_dir (w_env w3) = Inr D" by simp
  have k4: "kept ?U w3 w4" and login: "file_at (w_fs w4) ?L = Some (serialize_env (w_env w) Nul)"
    using save_login_ok[OF D3 sv, of ?U] unit by (auto simp: env)
  have D4: "session_dir (w_env w4) = Inr D" using D3 k4 by (simp add: kept_def)
  have "path_file_name ?L = Some ''env_login''" by (rule path_file_name_join[OF session_names(1)])
  with unit have "\<forall>p\<in>insert ?L ?U. path_file_name p \<noteq> Some ''signal-handler.sh''" by auto
  note A = anchor_ok[OF D4 an this assms(4)[unfolded F]]
  have up: "file_at (w_fs w') (path_join dir r) = Some b" if "(r, Some b) \<in> set (start_wanted opts cg)" for r b
  proof -
    have p: "path_join dir r \<in> ?U" using that by force
    have "honest (w_fs w2)" using assms(5) k2 e1 by (simp add: honest_def kept_def)
    from settled_generation[OF plan[unfolded start_plan_def] g this that[unfolded start_wanted_def]]
    have "file_at s (path_join dir r) = Some b" using keptD[OF k2] e1 p by (simp add: F)
    moreover have "file_at (w_fs w3) (path_join dir r) = file_at s (path_join dir r)"
      using keptD[OF k3, of "path_join dir r"] p by (simp add: F)
    ultimately show ?thesis
      using keptD[OF k4 p] keptD[OF A(2), of "path_join dir r"] p by (simp del: image_iff)
  qed
  have "fs_rfail (w_fs w2) = fs_rfail (w_fs w)" "honest (w_fs w2)" using k2 e1 assms(5) by (simp_all add: kept_def honest_def)
  with apply_generate_rfail[OF plan[unfolded start_plan_def] _ g] have "fs_rfail s = fs_rfail (w_fs w)" by simp
  then have "fs_rfail (w_fs w') ?L = None" using assms(8) k3 k4 A(2) by (simp add: kept_def)
  moreover have "file_at (w_fs w') ?L = Some (serialize_env (w_env w) Nul)" using login A(2) by (simp add: kept_def)
  moreover have "w_env w' = w_env w" using A(2) k4 env by (simp add: kept_def)
  ultimately have "fst (take_login_env w') = Inr (filter_map (w_env w))"
    using session_dirD(3)[OF assms(3)] parse_serialize_env[OF assms(6,7)]
    by (simp add: take_login_env_def wpath_def io_bind_def on_fs_def sys_ignore_def load_env_def std_read_def io_return_def)
  moreover have "accepted ops cg opts w" using ok plan assms(2) by (auto simp: accepted_def)
  moreover have "\<forall>u\<in>set GRAPH. file_at (w_fs w') (path_join dir (ut_name u)) = Some (render (ut_body u) (start_ctx opts))"
    using up by (auto simp: start_wanted_def wanted_files_def)
  moreover have "\<forall>(r, wanted)\<in>set (wanted_dropins (start_ctx opts) (build_dropins cg (st_bin_path opts)) (st_tweaks opts)).
      wanted \<noteq> None \<longrightarrow> file_at (w_fs w') (path_join dir r) = wanted"
    using up by (auto simp: start_wanted_def wanted_files_def)
  ultimately show ?thesis using act og A by blast
qed

section \<open>A start on a calm disk\<close>

definition calm :: "string set \<Rightarrow> 'b world \<Rightarrow> bool" where
  "calm T w \<longleftrightarrow> ready T (w_fs w) \<and> fs_faults (w_fs w) = (\<lambda>_. None)"

lemma calm_save:
  assumes L: "layout T" and n: "plain_name n" and D: "session_dir (w_env w) = Inr D" and t: "path_join D n \<in> T"
    and c: "calm T w"
  obtains w' where "on_fs (save_env (path_join D n) e sep) w = (Inr (), w')" "calm T w'" "w_env w' = w_env w"
proof -
  have t': "target D n \<in> T" using t by (simp add: target_def)
  have "ready T (w_fs w)" "fs_faults (w_fs w) = (\<lambda>_. None)" using c by (simp_all add: calm_def)
  from atomic_write_calm[OF L t' this] obtain s where
    "atomic_write D n (serialize_env e sep) (w_fs w) = (Inr (), s)" "ready T s" "fs_faults s = (\<lambda>_. None)"
    by metis
  with that[of "w\<lparr>w_fs := s\<rparr>"] show ?thesis
    by (simp add: calm_def on_fs_def save_env_def atomic_write_path_join[OF n session_dirD(1,2)[OF D]] disk_store_def)
qed

lemma calm_save_login:
  assumes L: "layout T" and D: "session_dir (w_env w) = Inr D"
    and t: "path_join D ''env_login'' \<in> T" "path_join D ''env_session.conf'' \<in> T" and c: "calm T w"
  obtains w' where "save_login_envs w = (Inr (), w')" "calm T w'" "w_env w' = w_env w"
proof -
  obtain w1 where a: "on_fs (save_env (path_join D ''env_login'') (w_env w) Nul) w = (Inr (), w1)" "calm T w1"
    "w_env w1 = w_env w"
    by (rule calm_save[OF L session_names(1) D t(1) c])
  then have D1: "session_dir (w_env w1) = Inr D" using D by simp
  obtain w2 where b: "on_fs (save_env (path_join D ''env_session.conf'') (session_conf (w_env w)) Newline) w1 = (Inr (), w2)"
    "calm T w2" "w_env w2 = w_env w1"
    by (rule calm_save[OF L session_names(2) D1 t(2) a(2)])
  have "save_login_envs w = (Inr (), w2)"
    using a b by (simp add: save_login_envs_def io_bind_def io_get_def wpath_def session_dirD(3)[OF D])
  with a b that show ?thesis by simp
qed

lemma calm_extract:
  assumes D: "session_dir (w_env w) = Inr D" and c: "calm T w" and t: "script_path D \<in> T"
    and d: "path_parent (script_path D) = Some (path_join D ''libexec'')"
    and a: "path_ancestors (script_path D) = path_join D ''libexec'' # path_ancestors (path_join D ''libexec'')"
    and n: "script_path D \<notin> set (path_ancestors (script_path D))"
  obtains w' where "extract_helper hs ''signal-handler.sh'' w = (Inr (script_path D), w')"
proof -
  let ?d = "path_join D ''libexec''"
  let ?s = "script_path D"
  let ?f = "w_fs w"
  from D obtain rt where rt: "runtime_dir (w_env w) = Inr rt" "D = path_join rt ''wsmr''"
    by (auto simp: session_dir_def rbind_Inr_iff BIN_NAME_def)
  have nd: "\<not> is_dir ?f ?s" "\<forall>q\<in>set (?d # path_ancestors ?d). file_at ?f q = None"
    and f: "fs_faults ?f = (\<lambda>_. None)"
    using c t by (auto simp: calm_def ready_def a)
  then have ex: "\<not> list_ex (\<lambda>q. file_at ?f q \<noteq> None) (?d # path_ancestors ?d)" by (auto simp: list_ex_iff)
  obtain s1 where 1: "std_create_dir_all ?d ?f = (Inr (), s1)" "fs_dirs s1 = ?d # path_ancestors ?d @ fs_dirs ?f"
    using ex f by (simp add: std_create_dir_all_def sys_call_def Let_def)
  then have f1: "fs_faults s1 = (\<lambda>_. None)" using faults_sys(1)[of ?d ?f] f by simp
  have p: "\<not> is_dir s1 ?s" "parent_present s1 ?s" using 1(2) nd(1) n by (auto simp: is_dir_def parent_present_def d a)
  then obtain s2 where 2: "std_create ?s s1 = (Inr (), s2)" using f1 by (simp add: std_create_def sys_call_def Let_def)
  then have "fs_faults s2 = (\<lambda>_. None)" using faults_sys(2)[of ?s s1] f1 by simp
  then obtain s3 where 3: "std_write ?s (hs_signal_handler hs) s1 = (Inr (), s3)"
    by (simp add: std_write_def 2 std_write_all_def sys_call_def Let_def)
  then have f3: "fs_faults s3 = (\<lambda>_. None)" using faults_std_write[of ?s _ s1] f1 by (metis snd_conv)
  have "path_exists s3 ?s" using std_write_content[OF 3] by (simp add: path_exists_def)
  then obtain s4 where 4: "std_set_mode ?s 493 s3 = (Inr (), s4)"
    using f3 by (simp add: std_set_mode_def sys_call_def Let_def)
  from 1 3 4 rt have "extract_helper hs ''signal-handler.sh'' w = (Inr ?s, w\<lparr>w_fs := s4\<rparr>)"
    by (simp add: extract_helper_def io_bind_def io_lift_def helper_body_def Let_def set_executable_def
        script_path_def io_return_def on_fs_def sys_io_def)
  then show ?thesis by (rule that)
qed

text \<open>The compositor sway, from an empty runtime directory.\<close>

definition sway :: comp_globals where
  "sway = \<lparr>cg_cmdline = [''sway''], cg_id = ''sway'', cg_id_unit_string = ''sway'',
     cg_bin_name = ''sway'', cg_bin_id = ''sway'', cg_desktop_names = [''sway''], cg_name = None,
     cg_description = None, cg_cli_desktop_names = [], cg_cli_desktop_names_exclusive = False\<rparr>"

definition sway_opts :: start_opts where
  "sway_opts = \<lparr>st_only_generate = False, st_dry_run = False, st_rung = Runtime,
     st_gst_gate = GateDisabled, st_tweaks = True, st_bin_path = ''/bin/wsmr''\<rparr>"

definition sway_scripts :: helper_scripts where
  "sway_scripts = \<lparr>hs_prepare_env = '':'', hs_signal_handler = ''exit 0''\<rparr>"

definition sway_world :: "sbus world" where
  "sway_world = ref_world ref_fs (ref_bus [(''A'', ''1'')])"

definition sway_paths :: "string list" where
  "sway_paths =
     map (path_join ''/run/systemd/user'')
       (MANIFEST_NAME # map ut_name GRAPH @ map ut_name TWEAKS @
        [preloader_name (build_dropins sway ''/bin/wsmr''), service_name (build_dropins sway ''/bin/wsmr'')]) @
     [''/run/wsmr/env_login'', ''/run/wsmr/env_session.conf'', script_path ''/run/wsmr'']"

lemma sway_layout: "layout (set sway_paths)"
  by (rule layout_list) code_simp

lemma sway_calm: "calm (set sway_paths) sway_world"
proof -
  have "list_all (\<lambda>p. p \<noteq> ''/run'' \<and> p \<noteq> ''/'') sway_paths" "\<not> is_temp ''/run''" "\<not> is_temp ''/''"
    by code_simp+
  then show ?thesis
    by (auto simp: calm_def ready_def is_dir_def file_at_def ref_fs_def list_all_iff sway_world_def ref_world_def)
qed

lemma sway_dirs:
  "rung_dir (w_env sway_world) (st_rung sway_opts) = Inr ''/run/systemd/user''"
  "session_dir (w_env sway_world) = Inr ''/run/wsmr''"
  "path_join ''/run/wsmr'' ''env_login'' = ''/run/wsmr/env_login''"
  "path_join ''/run/wsmr'' ''env_session.conf'' = ''/run/wsmr/env_session.conf''"
  "path_parent (script_path ''/run/wsmr'') = Some (path_join ''/run/wsmr'' ''libexec'')"
  "path_ancestors (script_path ''/run/wsmr'') =
     path_join ''/run/wsmr'' ''libexec'' # path_ancestors (path_join ''/run/wsmr'' ''libexec'')"
  "script_path ''/run/wsmr'' \<notin> set (path_ancestors (script_path ''/run/wsmr''))"
  by code_simp+

lemma sway_env: "bm_wf (w_env sway_world)" "nul_free (w_env sway_world)"
  "fst (is_active ref_ops (w_bus sway_world)) = Inr False"
  "sb_faults (snd (is_active ref_ops (w_bus sway_world))) n = None"
  by code_simp+

lemma ref_proc_spares: "spares P ref_proc"
  by (simp add: spares_def ref_proc_def kept_def)

lemma sway_starts:
  "\<exists>c w'. run_with ref_ops ref_proc sway_scripts sway sway_opts sway_world = Some (Replaced c, w')"
proof -
  let ?dir = "''/run/systemd/user''"
  let ?w = sway_world
  let ?T = "set sway_paths"
  have fs: "w_fs ?w = ref_fs" by (simp add: sway_world_def ref_world_def)
  have o: "\<not> st_dry_run sway_opts" "\<not> st_only_generate sway_opts" "st_bin_path sway_opts = ''/bin/wsmr''"
    by (simp_all add: sway_opts_def)
  obtain plan where plan: "start_plan ref_fs ?dir sway sway_opts = Inr plan"
    using plan_generate_total[OF ref_readable] unfolding start_plan_def by blast
  have f: "fs_files ref_fs = []" "fs_rfail ref_fs = (\<lambda>_. None)" by (simp_all add: ref_fs_def)
  note e = fresh_plan[OF plan[unfolded start_plan_def] f]
  obtain b where b: "is_active ref_ops (w_bus ?w) = (Inr False, b)"
    using sway_env(3) by (metis prod.collapse)
  then have calls: "sb_faults b n = None" for n using sway_env(4)[of n] by simp
  from b
  have a: "on_bus (is_active ref_ops) ?w = (Inr False, ?w\<lparr>w_bus := b\<rparr>)"
    by (simp add: on_bus_def)
  have t: "set (plan_targets ?dir plan) \<subseteq> ?T"
    using plan_layout(4)[OF plan[unfolded start_plan_def]]
    by (auto simp: targets_touched wanted_names[THEN arg_cong[of _ _ set], simplified] sway_paths_def target_def o)
  have m: "manifest_path ?dir \<in> ?T" by (simp add: manifest_path_def sway_paths_def)
  have c: "ready ?T ref_fs" "fs_faults ref_fs = (\<lambda>_. None)" using sway_calm by (simp_all add: calm_def fs)
  obtain out s where g: "apply_generate ?dir plan ref_fs = (Inr out, s)" "ready ?T s" "fs_faults s = (\<lambda>_. None)"
    using fresh_generation_succeeds[OF sway_layout t m c e(1,2)] by blast
  let ?w1 = "?w\<lparr>w_fs := s, w_bus := b\<rparr>"
  have "\<exists>b2. io_when (go_changed out) (on_bus (bus_reload ref_ops)) ?w1 = (Inr (), ?w\<lparr>w_fs := s, w_bus := b2\<rparr>)"
    by (cases "go_changed out")
       (auto simp: io_when_def on_bus_def io_return_def bus_reload_def ref_ops_def dbus_io_def sb_call_def Let_def calls)
  then obtain b2 where
    r: "io_when (go_changed out) (on_bus (bus_reload ref_ops)) ?w1 = (Inr (), ?w\<lparr>w_fs := s, w_bus := b2\<rparr>)"
    by blast
  let ?w2 = "?w\<lparr>w_fs := s, w_bus := b2\<rparr>"
  obtain out2 where p: "start_bindpid_unit ref_proc ?w2 = (Inr (), ?w2\<lparr>w_out := out2\<rparr>)"
    by (simp add: start_bindpid_unit_def io_bind_def io_get_def proc_io_def ref_proc_def io_return_def)
  let ?w3 = "?w2\<lparr>w_out := out2\<rparr>"
  have D: "session_dir (w_env ?w3) = Inr ''/run/wsmr''" using sway_dirs(2) by simp
  have c3: "calm ?T ?w3" using g by (simp add: calm_def)
  have T: "path_join ''/run/wsmr'' ''env_login'' \<in> ?T" "path_join ''/run/wsmr'' ''env_session.conf'' \<in> ?T"
    "script_path ''/run/wsmr'' \<in> ?T"
    unfolding sway_dirs sway_paths_def by simp_all
  obtain w4 where sv: "save_login_envs ?w3 = (Inr (), w4)" "calm ?T w4" "w_env w4 = w_env ?w3"
    by (rule calm_save_login[OF sway_layout D T(1,2) c3])
  have D4: "session_dir (w_env w4) = Inr ''/run/wsmr''" using D sv(3) by simp
  obtain w5 where x: "extract_helper sway_scripts ''signal-handler.sh'' w4 = (Inr (script_path ''/run/wsmr''), w5)"
    by (rule calm_extract[OF D4 sv(2) T(3) sway_dirs(5-7)])
  have "\<exists>c w'. become_anchor ref_proc sway_scripts sway w4 = Some (Replaced c, w')"
    by (simp add: become_anchor_def run_bind_io x proc_io_def ref_proc_def exec_or_fail_def)
  then obtain cmd w' where an: "become_anchor ref_proc sway_scripts sway w4 = Some (Replaced cmd, w')" by blast
  have w1: "?w\<lparr>w_bus := b, w_fs := s\<rparr> = ?w1" by (cases ?w) simp
  have "carry_out ref_ops ref_proc sway_scripts sway sway_opts ?dir plan (?w\<lparr>w_bus := b\<rparr>) = Some (Replaced cmd, w')"
    using e g r p sv an o by (simp add: w1 carry_out_def run_bind_io io_return_def on_fs_def fs)
  then show ?thesis
    using a e plan o sway_dirs(1)
    by (simp add: run_with_def run_bind_io io_lift_def refuse_if_active_def fs io_when_def io_return_def)
qed

theorem start_hands_over_witness:
  "\<exists>w'. run_with ref_ops ref_proc sway_scripts sway sway_opts sway_world =
       Some (Replaced (anchor_command ''/run/wsmr/libexec/signal-handler.sh'' sway), w') \<and>
     fst (take_login_env w') = Inr (filter_map [(''XDG_RUNTIME_DIR'', ''/run'')]) \<and>
     file_at (w_fs w') ''/run/wsmr/libexec/signal-handler.sh'' = Some ''exit 0''"
proof -
  obtain c w' where r: "run_with ref_ops ref_proc sway_scripts sway sway_opts sway_world = Some (Replaced c, w')"
    using sway_starts by blast
  have h: "honest (w_fs sway_world)" "fs_rfail (w_fs sway_world) (path_join ''/run/wsmr'' ''env_login'') = None"
    by (simp_all add: sway_world_def ref_world_def honest_def ref_fs_def)
  have s: "script_path ''/run/wsmr'' = ''/run/wsmr/libexec/signal-handler.sh''" by code_simp
  from start_hands_over[OF r sway_dirs(1,2) ref_proc_spares h(1) sway_env(1,2) h(2)] r
  show ?thesis by (simp add: s sway_world_def ref_world_def sway_scripts_def)
qed

end
