(* ===== verification/Spec2Isabelle.thy ===== *)
theory Spec2Isabelle
  imports SessProps SessRefine UnitProps Regen EnvProps AppProps LifeProps CheckProps RunProps Removal Serving
    Handover
begin

text \<open>
  A verification development for wsmr, a Wayland session manager on systemd (src/src).

  What the program does. \<open>wsmr start\<close> writes a graph of systemd user units and per-compositor
  drop-ins under \<open>$XDG_RUNTIME_DIR/systemd/user\<close> and starts the session; inside it, \<open>aux prepare-env\<close>
  runs a shell loader, computes how the environment changed and exports the change to systemd and
  D-Bus; the compositor's helper and \<open>finalize\<close> add more variables later; \<open>aux cleanup-env\<close> takes
  everything back at the end; \<open>app\<close> and its daemon launch applications as systemd scopes and services.

  How it is modelled. Rust strings are char lists holding the UTF-8 bytes (one byte is one char), a
  BTreeMap is an association list ordered by key (BMap), a Result is a sum with the error on the
  left (Effects), and a function with effects is a function of a world that returns a result and the
  next world. The world (World) has a file system (Fs) in which every system call may be made to
  fail at any point of the count of calls, a bus state behind a record of operations (Bus), the
  process environment, a random source and the output. Commands that may exec, or poll without a
  bound, are runs (Process): their value is a result, the command that replaced the process, or None
  when they never return or panic. Operations of other programs are records of functions: the D-Bus
  methods of systemd, logind and the notification service (\<open>bus_ops\<close>), processes (\<open>proc_ops\<close>) and
  FIFOs (\<open>fifo_ops\<close>).

  The theories, in the order of the code.
  Prelude, BMap, Effects: strings, ordered maps, errors and effects (error.rs).
  Names (varnames.rs, filter.rs), EnvDelta (env/delta.rs), Paths (util/xdg.rs and std::path), Fs
  (util/fsutil.rs), Util (util/mod.rs), EnvFiles (env/files.rs, env/dump.rs), World, Bus
  (sysd/dbus.rs) and RefBus, a small systemd to run the model on.
  SessState (session/state.rs): the lock, the generation, the snapshot and the clean-up list.
  Escape (units/escape.rs, app/naming.rs), Manifest (units/manifest.rs), Templates
  (units/templates.rs), Plan (units/plan.rs), Generate (units/generate.rs), Rollback (what its
  batches undo).
  Field (app/field.rs), Entry (app/entry.rs), Find (app/find.rs), Comp (comp.rs), Terminal
  (app/terminal.rs): from a command line to an entry, its expanded arguments and a terminal.
  Process (exec and children), Launch (app/launch.rs), Daemon (app/daemon.rs).
  Stop (session/stop.rs), Check (session/check.rs), Ready (session/wait.rs, exec.rs, finalize.rs,
  cleanup.rs), Prepare (session/prepare.rs, helpers.rs), Start (session/start.rs).
  Cli (cli.rs) and Main_Cmd (main.rs): the arguments, the settings and the dispatch.
  Protocol and Lifecycle: the invariant of a session and the steps that keep it, over the commands
  above; RefProc: processes to run them with.
  EnvProps, SessProps, SessRefine, UnitProps, Regen, Removal, AppProps, LifeProps, CheckProps,
  RunProps, Serving, Handover: the properties, each with a run on a concrete world. Regen and Removal
  are about generation and removal as a whole, Serving about the daemon's loop, and Handover about
  what \<open>start\<close> leaves for \<open>aux prepare-env\<close> and for the anchor.

  The interfaces. \<open>atomic_store\<close>, \<open>codec\<close>, \<open>coded_store\<close> (Interfaces): what the files of the
  session rely on, interpreted on the disk and on the environment, clean-up and manifest formats.
  \<open>env_service\<close>: reading, setting and unsetting the activation environment; the session bus is one
  (a sublocale of \<open>systemd_manager\<close>, the documented behaviour of systemd and the D-Bus daemon).
  \<open>clock\<close>: time that does not go back and sleeps that last. \<open>session_host\<close>: a systemd and processes
  of its own that leave the session's files and variables alone. \<open>probe_contract\<close>: what the start
  checks ask. The last four are interpreted on RefBus and RefProc, which shows that they can hold.
  What single theorems ask of other programs is a definition beside them: \<open>looks_only\<close> (queries that
  change nothing) and \<open>spares\<close> (started programs that leave the session's files alone).

  What the properties show. The session: from prepare-env over any number of later steps to
  cleanup-env nothing is left in the activation environment; every process keeps the invariant that
  added variables are recorded; a failed end can be repeated; the session state refines an abstract
  one of remembered values and recorded names. The units: a plan never touches foreign files, is
  complete, is applied all or nothing under one fault, and is empty when made again; removal only
  removes what is ours, and so does the whole of \<open>stop -r\<close>. A start that replaces its process has all
  units on disk, the login environment where the preloader reads it, and the anchor's script. Files: writes are atomic under every fault, and environment files, the
  clean-up list, the manifest and the loader's dump read back what was written. Names and words:
  escaping is reversible and fits, quoted words are split back by a shell, in drop-ins, in the
  loader's variables and in the daemon's replies. Applications: entry lines, field codes, look-up,
  URLs, terminals, and the argument vectors of a launch. Commands: a refused start and a dry stop
  touch nothing, start checks allow exactly what they should, waiting ends, and the daemon outlives every request that
  it can read.

  Bounds and loops. Polling loops (\<open>wait_for_unit_loop\<close>, \<open>wait_for_job_loop\<close>, \<open>waitenv_loop\<close>,
  \<open>open_fifo_loop\<close>, \<open>poll_loop\<close>) and the daemon's \<open>serve_loop\<close> are partial functions whose value is
  None when they never return; under the clock contract the ones with a timeout are shown to return.
  No fuel is used; every other function is total. Words are used for the manifest's fingerprint
  (64 bits, multiplication wraps); parsed integers are checked against their width.

  Not modelled. The parser that clap derives from cli.rs, the parser of floating-point numbers and the
  proxies that zbus generates are parameters. The connection objects and the trait implementations
  that only forward to the methods have no definition of their own. The text of the two shell scripts
  of helpers.rs is a record, what a shell makes of it is an answer of \<open>proc_ops\<close>. Left out are the
  stubs for systems other than Linux, and coverage.rs and testutil.rs (instrumentation and tests).
\<close>

end
